(* ===== verification/Prelude.thy ===== *)
theory Prelude
  imports Main "HOL-Library.Word"
begin

text \<open>
  Shared vocabulary of the development: the Rust integer types, the casts and
  the saturating and checked operations the sources use, results of fallible
  code, the BPF map operations, and the generic lemmas the components rest on.

  Collections: \<open>rust_consts\<close> holds the values of the source's constants,
  \<open>bit_blast\<close> the rules that turn an equation between words into one
  proposition per bit, \<open>map_ops\<close> the meaning of the BPF map helpers.
\<close>

unbundle bit_operations_syntax

named_theorems rust_consts "values of the constants of the sources"
named_theorems bit_blast "reduce an equation on words to its bits"
named_theorems map_ops "the BPF map helpers unfolded"

type_synonym u8 = "8 word"
type_synonym u16 = "16 word"
type_synonym u32 = "32 word"
type_synonym u64 = "64 word"

abbreviation as_u8 :: "'a::len word \<Rightarrow> u8" where "as_u8 \<equiv> ucast"
abbreviation as_u16 :: "'a::len word \<Rightarrow> u16" where "as_u16 \<equiv> ucast"
abbreviation as_u32 :: "'a::len word \<Rightarrow> u32" where "as_u32 \<equiv> ucast"
abbreviation as_u64 :: "'a::len word \<Rightarrow> u64" where "as_u64 \<equiv> ucast"

text \<open>\<open>a.saturating_sub(b)\<close> and \<open>a.saturating_add(b)\<close> of unsigned integers.\<close>

definition saturating_sub :: "'a::len word \<Rightarrow> 'a word \<Rightarrow> 'a word" where
  "saturating_sub a b = (if b \<le> a then a - b else 0)"

definition saturating_add :: "'a::len word \<Rightarrow> 'a word \<Rightarrow> 'a word" where
  "saturating_add a b = (if unat a + unat b < 2 ^ LENGTH('a) then a + b else - 1)"

text \<open>A \<open>bool as u8\<close> cast.\<close>

definition bool_u8 :: "bool \<Rightarrow> u8" where
  "bool_u8 b = (if b then 1 else 0)"

text \<open>Big-endian reads of two and four bytes.\<close>

definition be16 :: "u8 \<Rightarrow> u8 \<Rightarrow> u16" where
  "be16 a b = push_bit 8 (as_u16 a) OR as_u16 b"

definition be32 :: "u8 \<Rightarrow> u8 \<Rightarrow> u8 \<Rightarrow> u8 \<Rightarrow> u32" where
  "be32 a b c d = push_bit 24 (as_u32 a) OR push_bit 16 (as_u32 b) OR push_bit 8 (as_u32 c) OR as_u32 d"

text \<open>
  BPF hash maps. \<open>insert_noexist\<close> is an update with \<open>BPF_NOEXIST\<close>: it refuses a
  present key, and \<open>room\<close> says whether the kernel can allocate the element.
  \<open>insert_any\<close> overwrites in place and needs room only for a new key.
  \<open>lru_insert\<close> is an update of an LRU map, which always finds room by forgetting
  the entries that \<open>evicted\<close> names.
\<close>

definition insert_noexist :: "bool \<Rightarrow> 'k \<Rightarrow> 'v \<Rightarrow> ('k \<rightharpoonup> 'v) \<Rightarrow> bool \<times> ('k \<rightharpoonup> 'v)" where
  "insert_noexist room k v m =
     (if m k = None \<and> room then (True, m(k \<mapsto> v)) else (False, m))"

definition insert_any :: "bool \<Rightarrow> 'k \<Rightarrow> 'v \<Rightarrow> ('k \<rightharpoonup> 'v) \<Rightarrow> bool \<times> ('k \<rightharpoonup> 'v)" where
  "insert_any room k v m =
     (if m k \<noteq> None \<or> room then (True, m(k \<mapsto> v)) else (False, m))"

definition lru_insert :: "('k \<Rightarrow> bool) \<Rightarrow> 'k \<Rightarrow> 'v \<Rightarrow> ('k \<rightharpoonup> 'v) \<Rightarrow> ('k \<rightharpoonup> 'v)" where
  "lru_insert evicted k v m = (\<lambda>x. if evicted x then None else m x)(k \<mapsto> v)"

definition remove_key :: "'k \<Rightarrow> ('k \<rightharpoonup> 'v) \<Rightarrow> ('k \<rightharpoonup> 'v)" where
  "remove_key k m = m(k := None)"

section \<open>Words bit by bit\<close>

lemma all_less_8 [bit_blast]:
  "(\<forall>n<8::nat. P n) \<longleftrightarrow>
     P 0 \<and> P 1 \<and> P 2 \<and> P 3 \<and> P 4 \<and> P 5 \<and> P 6 \<and> P 7"
  by (simp add: numeral_eq_Suc All_less_Suc conj_ac)

lemma all_less_16 [bit_blast]:
  "(\<forall>n<16::nat. P n) \<longleftrightarrow>
     P 0 \<and> P 1 \<and> P 2 \<and> P 3 \<and> P 4 \<and> P 5 \<and> P 6 \<and> P 7 \<and> 
     P 8 \<and> P 9 \<and> P 10 \<and> P 11 \<and> P 12 \<and> P 13 \<and> P 14 \<and> P 15"
  by (simp add: numeral_eq_Suc All_less_Suc conj_ac)

lemma all_less_32 [bit_blast]:
  "(\<forall>n<32::nat. P n) \<longleftrightarrow>
     P 0 \<and> P 1 \<and> P 2 \<and> P 3 \<and> P 4 \<and> P 5 \<and> P 6 \<and> P 7 \<and> 
     P 8 \<and> P 9 \<and> P 10 \<and> P 11 \<and> P 12 \<and> P 13 \<and> P 14 \<and> P 15 \<and> 
     P 16 \<and> P 17 \<and> P 18 \<and> P 19 \<and> P 20 \<and> P 21 \<and> P 22 \<and> P 23 \<and> 
     P 24 \<and> P 25 \<and> P 26 \<and> P 27 \<and> P 28 \<and> P 29 \<and> P 30 \<and> P 31"
  by (simp add: numeral_eq_Suc All_less_Suc conj_ac)

lemma all_less_64 [bit_blast]:
  "(\<forall>n<64::nat. P n) \<longleftrightarrow>
     P 0 \<and> P 1 \<and> P 2 \<and> P 3 \<and> P 4 \<and> P 5 \<and> P 6 \<and> P 7 \<and> 
     P 8 \<and> P 9 \<and> P 10 \<and> P 11 \<and> P 12 \<and> P 13 \<and> P 14 \<and> P 15 \<and> 
     P 16 \<and> P 17 \<and> P 18 \<and> P 19 \<and> P 20 \<and> P 21 \<and> P 22 \<and> P 23 \<and> 
     P 24 \<and> P 25 \<and> P 26 \<and> P 27 \<and> P 28 \<and> P 29 \<and> P 30 \<and> P 31 \<and> 
     P 32 \<and> P 33 \<and> P 34 \<and> P 35 \<and> P 36 \<and> P 37 \<and> P 38 \<and> P 39 \<and> 
     P 40 \<and> P 41 \<and> P 42 \<and> P 43 \<and> P 44 \<and> P 45 \<and> P 46 \<and> P 47 \<and> 
     P 48 \<and> P 49 \<and> P 50 \<and> P 51 \<and> P 52 \<and> P 53 \<and> P 54 \<and> P 55 \<and> 
     P 56 \<and> P 57 \<and> P 58 \<and> P 59 \<and> P 60 \<and> P 61 \<and> P 62 \<and> P 63"
  by (simp add: numeral_eq_Suc All_less_Suc conj_ac)

lemma bit_double_word [bit_blast]:
  "bit (x * 2 :: 'a::len word) n \<longleftrightarrow> n < LENGTH('a) \<and> n \<noteq> 0 \<and> bit x (n - 1)"
  by (metis bit_double_iff bit_imp_le_length mult.commute possible_bit_word)

lemma bit_beyond_length [bit_blast]:
  "LENGTH('a) \<le> n \<Longrightarrow> \<not> bit (x :: 'a::len word) n"
  using bit_imp_le_length by fastforce

lemma word_bits_iff [bit_blast]:
  "x = (y :: 'a::len word) \<longleftrightarrow> (\<forall>n<LENGTH('a). bit x n = bit y n)"
  by (auto intro: bit_word_eqI)

lemmas [bit_blast] = bit_simps

lemma unat_below_bits: "unat (x :: 'a::len word) < 2 ^ k \<longleftrightarrow> (\<forall>n\<ge>k. \<not> bit x n)"
proof -
  have "unat x < 2 ^ k \<longleftrightarrow> take_bit k x = x"
    by (metis take_bit_nat_eq_self_iff unsigned_take_bit_eq unsigned_word_eqI)
  also have "\<dots> \<longleftrightarrow> (\<forall>n\<ge>k. \<not> bit x n)"
    by (metis bit_eqI bit_take_bit_iff not_less)
  finally show ?thesis .
qed

lemma saturating_sub_le: "saturating_sub a b \<le> a"
  by (auto simp: saturating_sub_def word_sub_le)

lemma unat_saturating_sub: "unat (saturating_sub a b) = unat a - unat b"
  by (auto simp: saturating_sub_def unat_sub word_le_nat_alt)

lemma saturating_sub_self [simp]: "saturating_sub a a = 0"
  by (simp add: saturating_sub_def)

section \<open>BPF maps\<close>

lemma insert_noexist_present [simp]:
  "m k = Some w \<Longrightarrow> insert_noexist room k v m = (False, m)"
  by (simp add: insert_noexist_def)

lemma insert_noexist_ok:
  "insert_noexist room k v m = (True, m') \<longleftrightarrow> m k = None \<and> room \<and> m' = m(k \<mapsto> v)"
  by (auto simp: insert_noexist_def)

lemma insert_noexist_err:
  "insert_noexist room k v m = (False, m') \<longleftrightarrow> (m k \<noteq> None \<or> \<not> room) \<and> m' = m"
  by (auto simp: insert_noexist_def)

lemma insert_noexist_other:
  "k' \<noteq> k \<Longrightarrow> snd (insert_noexist room k v m) k' = m k'"
  by (simp add: insert_noexist_def)

lemma lru_insert_same [simp]: "lru_insert ev k v m k = Some v"
  by (simp add: lru_insert_def)

lemma lru_insert_other:
  "k' \<noteq> k \<Longrightarrow> lru_insert ev k v m k' = (if ev k' then None else m k')"
  by (simp add: lru_insert_def)

lemmas [map_ops] = insert_noexist_def insert_any_def lru_insert_def remove_key_def

lemma unat_u8_as_u32 [simp]: "unat (as_u32 (x :: u8)) = unat x"
proof -
  have "unat x < 2 ^ 32" using unsigned_less[of x, where ?'a = nat] by simp
  then show ?thesis by (simp add: unsigned_ucast_eq take_bit_nat_eq_self)
qed

lemma unat_ihl: "unat ((x AND 0x0f) * 4 :: u8) = unat (x AND 0x0f) * 4"
proof -
  have "x AND 0x0f \<le> 0x0f" by (simp add: word_and_le1)
  then have "unat (x AND 0x0f) \<le> 15" by (simp add: word_le_nat_alt)
  then show ?thesis using unat_mult_lem[of "x AND 0x0f" 4] by simp
qed

lemma case_unit_const: "(case x of () \<Rightarrow> a) = a"
  by (cases x) (simp only: unit.case)

end
