(* ===== verification/Marks.thy ===== *)
theory Marks
  imports Prelude
begin

text \<open>
  The packet-mark and token codecs of \<open>honk-ebpf-common/src/lib.rs\<close>: the UDP DNS
  route carried in an skb mark, the persistent NFQUEUE decision token and the
  outbound index space.
\<close>

section \<open>Constants\<close>

definition TPROXY_MARK :: u32 where [rust_consts]: "TPROXY_MARK = 0x08000000"
definition CLASSIFIED_MARK :: u32 where [rust_consts]: "CLASSIFIED_MARK = 0x40000000"
definition NFQUEUE_PENDING_MARK :: u32 where [rust_consts]: "NFQUEUE_PENDING_MARK = 0x80000000"
definition NFQUEUE_SIGNATURE_MARK :: u32 where
  [rust_consts]: "NFQUEUE_SIGNATURE_MARK = CLASSIFIED_MARK OR NFQUEUE_PENDING_MARK"
definition NFQUEUE_TOKEN_MASK :: u32 where
  [rust_consts]: "NFQUEUE_TOKEN_MASK = NOT NFQUEUE_SIGNATURE_MARK"
definition UDP_DECISION_SEQUENCE_MASK :: u32 where
  [rust_consts]: "UDP_DECISION_SEQUENCE_MASK = 0x0fffffff"
definition UDP_DECISION_GENERATION_SHIFT :: nat where
  [rust_consts]: "UDP_DECISION_GENERATION_SHIFT = 28"
definition UDP_DECISION_GENERATION_MASK :: u32 where
  [rust_consts]: "UDP_DECISION_GENERATION_MASK = 0x3"
definition DNS_ROUTE_GENERATION_MAX :: u64 where
  [rust_consts]: "DNS_ROUTE_GENERATION_MAX = push_bit 20 1 - 1"
definition DNS_ROUTE_MARK_MASK :: u32 where [rust_consts]: "DNS_ROUTE_MARK_MASK = 0x37ffffff"
definition DNS_DIRECT_MARK_KIND :: u32 where [rust_consts]: "DNS_DIRECT_MARK_KIND = 0x100"
definition SKB_MARK_RESERVED_MASK :: u32 where
  [rust_consts]: "SKB_MARK_RESERVED_MASK = NFQUEUE_SIGNATURE_MARK"
definition DAE_BYPASS_MARK :: u32 where [rust_consts]: "DAE_BYPASS_MARK = 0x100"

section \<open>Outbound indices\<close>

text \<open>\<open>OutboundIndex\<close>, an enum over \<open>u8\<close>; \<open>outbound_u8\<close> is the \<open>as u8\<close> cast.\<close>

datatype outbound_index =
    Direct | Block | UserBase | MustRules | ControlPlaneRouting | LogicalOr | LogicalAnd

fun outbound_u8 :: "outbound_index \<Rightarrow> u8" where
  "outbound_u8 Direct = 0"
| "outbound_u8 Block = 1"
| "outbound_u8 UserBase = 2"
| "outbound_u8 MustRules = 0xFC"
| "outbound_u8 ControlPlaneRouting = 0xFD"
| "outbound_u8 LogicalOr = 0xFE"
| "outbound_u8 LogicalAnd = 0xFF"

definition is_reserved :: "outbound_index \<Rightarrow> bool" where
  "is_reserved i = (let v = outbound_u8 i in v < outbound_u8 UserBase \<or> v \<ge> 0xFC)"

definition to_user_num :: "outbound_index \<Rightarrow> u32" where
  "to_user_num i =
     (let v = outbound_u8 i in
      if v \<ge> outbound_u8 UserBase \<and> v < 0xFC then as_u32 (v - outbound_u8 UserBase) else 0)"

definition from_user :: "u32 \<Rightarrow> outbound_index" where
  "from_user n =
     (if n = 0 then Direct
      else if n = 1 then Block
      else if n = 0xFC then MustRules
      else if n = 0xFD then ControlPlaneRouting
      else if n = 0xFE then LogicalOr
      else if n = 0xFF then LogicalAnd
      else UserBase)"

section \<open>UDP DNS routes\<close>

record udp_dns_route =
  udr_outbound :: u8
  udr_generation :: u32
  udr_direct_mark :: bool

definition UdpDnsRoute_new :: "u8 \<Rightarrow> u64 \<Rightarrow> udp_dns_route option" where
  "UdpDnsRoute_new outbound generation =
     (if generation = 0 \<or> generation > DNS_ROUTE_GENERATION_MAX
         \<or> \<not> ((outbound \<ge> outbound_u8 UserBase \<and> outbound < outbound_u8 MustRules)
               \<or> outbound = outbound_u8 ControlPlaneRouting)
      then None
      else Some \<lparr>udr_outbound = outbound, udr_generation = as_u32 generation,
                  udr_direct_mark = False\<rparr>)"

definition UdpDnsRoute_direct :: "u8 \<Rightarrow> u64 \<Rightarrow> udp_dns_route option" where
  "UdpDnsRoute_direct index generation =
     (if generation = 0 \<or> generation > DNS_ROUTE_GENERATION_MAX then None
      else Some \<lparr>udr_outbound = index, udr_generation = as_u32 generation,
                  udr_direct_mark = True\<rparr>)"

definition direct_mark_index :: "udp_dns_route \<Rightarrow> u8 option" where
  "direct_mark_index r = (if udr_direct_mark r then Some (udr_outbound r) else None)"

definition route_outbound :: "udp_dns_route \<Rightarrow> u8" where
  "route_outbound r = (if udr_direct_mark r then outbound_u8 Direct else udr_outbound r)"

definition to_mark :: "udp_dns_route \<Rightarrow> u32" where
  "to_mark r =
     (let generation = udr_generation r in
      TPROXY_MARK
      OR push_bit 16 (as_u32 (udr_outbound r))
      OR (if udr_direct_mark r then DNS_DIRECT_MARK_KIND else 0)
      OR (generation AND 0xff)
      OR push_bit 1 (generation AND 0x7f00)
      OR push_bit 9 (generation AND 0x38000)
      OR push_bit 10 (generation AND 0xc0000))"

definition from_mark :: "u32 \<Rightarrow> udp_dns_route option" where
  "from_mark mark =
     (if mark AND NOT DNS_ROUTE_MARK_MASK \<noteq> TPROXY_MARK then None
      else
        let outbound = as_u8 (drop_bit 16 mark);
            generation = (mark AND 0xff) OR (drop_bit 1 mark AND 0x7f00)
                         OR (drop_bit 9 mark AND 0x38000) OR (drop_bit 10 mark AND 0xc0000)
        in if mark AND DNS_DIRECT_MARK_KIND \<noteq> 0
           then UdpDnsRoute_direct outbound (as_u64 generation)
           else UdpDnsRoute_new outbound (as_u64 generation))"

definition to_nfqueue_mark :: "udp_dns_route \<Rightarrow> u32" where
  "to_nfqueue_mark r = to_mark r OR NFQUEUE_SIGNATURE_MARK"

definition from_nfqueue_mark :: "u32 \<Rightarrow> udp_dns_route option" where
  "from_nfqueue_mark mark =
     (if mark AND NFQUEUE_SIGNATURE_MARK \<noteq> NFQUEUE_SIGNATURE_MARK
         \<or> mark AND DNS_DIRECT_MARK_KIND \<noteq> 0
      then None
      else from_mark (mark AND NOT NFQUEUE_SIGNATURE_MARK))"

section \<open>Decision tokens and the NFQUEUE mark\<close>

definition udp_decision_token :: "u32 \<Rightarrow> u32 \<Rightarrow> u32 option" where
  "udp_decision_token generation sequence =
     (if generation > UDP_DECISION_GENERATION_MASK \<or> sequence = 0
         \<or> sequence > UDP_DECISION_SEQUENCE_MASK
      then None
      else Some (push_bit UDP_DECISION_GENERATION_SHIFT generation OR sequence))"

definition udp_decision_token_generation :: "u32 \<Rightarrow> u32" where
  "udp_decision_token_generation token =
     (drop_bit UDP_DECISION_GENERATION_SHIFT token) AND UDP_DECISION_GENERATION_MASK"

definition skb_mark_has_reserved_bits :: "u32 \<Rightarrow> bool" where
  "skb_mark_has_reserved_bits mark \<longleftrightarrow> mark AND SKB_MARK_RESERVED_MASK \<noteq> 0"

definition pack_nfqueue_mark :: "u32 \<Rightarrow> u32 option" where
  "pack_nfqueue_mark token =
     (if token = 0 \<or> token AND NOT NFQUEUE_TOKEN_MASK \<noteq> 0 then None
      else Some (NFQUEUE_SIGNATURE_MARK OR token))"

definition extract_nfqueue_token :: "u32 \<Rightarrow> u32 option" where
  "extract_nfqueue_token mark =
     (if mark AND NFQUEUE_SIGNATURE_MARK \<noteq> NFQUEUE_SIGNATURE_MARK then None
      else let token = mark AND NFQUEUE_TOKEN_MASK in
        if token = 0 then None else Some token)"

text \<open>
  What a route may be: a non-zero generation of at most twenty bits, and an
  outbound that is a user group or the control plane unless the route carries a
  direct-mark index.
\<close>

definition route_valid :: "udp_dns_route \<Rightarrow> bool" where
  "route_valid r \<longleftrightarrow>
     0 < unat (udr_generation r) \<and> unat (udr_generation r) < 2 ^ 20
     \<and> (udr_direct_mark r \<or> (2 \<le> udr_outbound r \<and> udr_outbound r < 0xFC)
        \<or> udr_outbound r = 0xFD)"

text \<open>The generation bits of a mark, as \<open>from_mark\<close> gathers them.\<close>

definition mark_generation :: "u32 \<Rightarrow> u32" where
  "mark_generation mark = (mark AND 0xff) OR (drop_bit 1 mark AND 0x7f00)
                          OR (drop_bit 9 mark AND 0x38000) OR (drop_bit 10 mark AND 0xc0000)"

section \<open>Lemmas on the codecs\<close>

lemma generation_max_unat: "g \<le> DNS_ROUTE_GENERATION_MAX \<longleftrightarrow> unat g < 2 ^ 20"
  by (simp add: rust_consts word_le_nat_alt) arith

lemma mark_generation_bound: "unat (mark_generation m) < 2 ^ 20"
proof -
  have "mark_generation m = mark_generation m AND 0xfffff"
    by (simp add: mark_generation_def bit_blast)
  then have "mark_generation m = take_bit 20 (mark_generation m)"
    by (simp add: take_bit_eq_mask mask_eq_exp_minus_1)
  then show ?thesis
    by (metis take_bit_nat_less_exp unsigned_take_bit_eq)
qed

lemma mark_generation_to_mark:
  "unat (udr_generation r) < 2 ^ 20 \<Longrightarrow> mark_generation (to_mark r) = udr_generation r"
  unfolding unat_below_bits
  by (simp add: mark_generation_def to_mark_def Let_def rust_consts bit_blast)

lemma outbound_to_mark: "as_u8 (drop_bit 16 (to_mark r)) = udr_outbound r"
  by (simp add: to_mark_def Let_def rust_consts bit_blast)

lemma kind_to_mark: "to_mark r AND DNS_DIRECT_MARK_KIND \<noteq> 0 \<longleftrightarrow> udr_direct_mark r"
  by (simp add: to_mark_def Let_def rust_consts bit_blast)

lemma signature_to_mark: "to_mark r AND NOT DNS_ROUTE_MARK_MASK = TPROXY_MARK"
  by (simp add: to_mark_def Let_def rust_consts bit_blast)

lemma to_mark_of_fields:
  assumes "m AND NOT DNS_ROUTE_MARK_MASK = TPROXY_MARK"
  shows "to_mark \<lparr>udr_outbound = as_u8 (drop_bit 16 m), udr_generation = mark_generation m,
                   udr_direct_mark = (m AND DNS_DIRECT_MARK_KIND \<noteq> 0)\<rparr> = m"
  using assms
  by (simp add: mark_generation_def to_mark_def Let_def rust_consts bit_blast)

lemma from_mark_alt:
  "from_mark m =
     (if m AND NOT DNS_ROUTE_MARK_MASK \<noteq> TPROXY_MARK then None
      else let r = \<lparr>udr_outbound = as_u8 (drop_bit 16 m), udr_generation = mark_generation m,
                     udr_direct_mark = (m AND DNS_DIRECT_MARK_KIND \<noteq> 0)\<rparr>
           in if route_valid r then Some r else None)"
proof -
  have small: "unat (as_u64 (mark_generation m)) < 2 ^ 20"
    using mark_generation_bound[of m] by (simp add: unsigned_ucast_eq take_bit_nat_eq_self)
  have narrow: "as_u32 (as_u64 (mark_generation m)) = mark_generation m"
    by (simp add: bit_eq_iff bit_simps)
  have zero: "as_u64 (mark_generation m) = 0 \<longleftrightarrow> unat (mark_generation m) = 0"
  proof -
    have "as_u64 (mark_generation m) = 0 \<longleftrightarrow> mark_generation m = 0"
      using narrow by (metis unsigned_0)
    then show ?thesis by (simp add: unat_eq_zero)
  qed
  show ?thesis
    using small narrow zero mark_generation_bound[of m]
    unfolding from_mark_def UdpDnsRoute_new_def UdpDnsRoute_direct_def route_valid_def
      mark_generation_def[symmetric] Let_def not_le[symmetric] generation_max_unat
    by (auto simp: not_le)
qed

lemma from_mark_Some_iff: "from_mark m = Some r \<longleftrightarrow> route_valid r \<and> m = to_mark r"
proof
  assume "from_mark m = Some r"
  then show "route_valid r \<and> m = to_mark r"
    by (auto simp: from_mark_alt Let_def to_mark_of_fields split: if_splits)
next
  assume "route_valid r \<and> m = to_mark r"
  then show "from_mark m = Some r"
    by (auto simp: from_mark_alt Let_def signature_to_mark outbound_to_mark kind_to_mark
        mark_generation_to_mark route_valid_def)
qed

lemma nfqueue_strip:
  "m AND NFQUEUE_SIGNATURE_MARK = NFQUEUE_SIGNATURE_MARK \<Longrightarrow>
   (m AND NOT NFQUEUE_SIGNATURE_MARK) = x \<longleftrightarrow> m = x OR NFQUEUE_SIGNATURE_MARK \<and> x AND NFQUEUE_SIGNATURE_MARK = 0"
  by (simp add: rust_consts bit_blast)

lemma to_mark_no_reserved: "to_mark r AND NFQUEUE_SIGNATURE_MARK = 0"
  by (simp add: to_mark_def Let_def rust_consts bit_blast)

lemma nfqueue_mark_signature: "to_nfqueue_mark r AND NFQUEUE_SIGNATURE_MARK = NFQUEUE_SIGNATURE_MARK"
  by (simp add: to_nfqueue_mark_def to_mark_def Let_def rust_consts bit_blast)

lemma nfqueue_mark_kind: "to_nfqueue_mark r AND DNS_DIRECT_MARK_KIND = 0 \<longleftrightarrow> \<not> udr_direct_mark r"
  by (simp add: to_nfqueue_mark_def to_mark_def Let_def rust_consts bit_blast)

lemma decision_mask_bits:
  "UDP_DECISION_GENERATION_MASK < g \<longleftrightarrow> \<not> (\<forall>n\<ge>2. \<not> bit g n)"
  "UDP_DECISION_SEQUENCE_MASK < q \<longleftrightarrow> \<not> (\<forall>n\<ge>28. \<not> bit q n)"
  unfolding unat_below_bits[symmetric] by (auto simp: rust_consts word_less_nat_alt)

lemma token_fields:
  assumes "\<forall>n\<ge>2. \<not> bit g n" "\<forall>n\<ge>28. \<not> bit q n"
  shows "udp_decision_token_generation (push_bit 28 g OR q) = g"
    and "(push_bit 28 g OR q) AND UDP_DECISION_SEQUENCE_MASK = q"
    and "(push_bit 28 g OR q) AND NOT NFQUEUE_TOKEN_MASK = 0"
  using assms
  by (simp_all add: udp_decision_token_generation_def rust_consts bit_blast)

lemma token_fields_small:
  "udp_decision_token_generation t \<le> UDP_DECISION_GENERATION_MASK"
  "t AND UDP_DECISION_SEQUENCE_MASK \<le> UDP_DECISION_SEQUENCE_MASK"
  by (simp_all add: udp_decision_token_generation_def word_and_le1 word_and_le2)

lemma token_of_fields:
  "t AND NOT NFQUEUE_TOKEN_MASK = 0 \<Longrightarrow>
   push_bit UDP_DECISION_GENERATION_SHIFT (udp_decision_token_generation t)
     OR (t AND UDP_DECISION_SEQUENCE_MASK) = t"
  by (simp add: udp_decision_token_generation_def rust_consts bit_blast)

lemma to_mark_unclassified: "to_mark r AND CLASSIFIED_MARK = 0"
  by (simp add: to_mark_def Let_def rust_consts bit_blast)

lemma signature_nonzero: "NFQUEUE_SIGNATURE_MARK \<noteq> 0"
  by (simp add: rust_consts)

section \<open>Properties\<close>

text \<open>C15. The mark codec of UDP DNS routes is a bijection between the valid routes and the
  marks it accepts: \<open>from_mark\<close> accepts exactly the marks that \<open>to_mark\<close> produces for a
  valid route and returns that route.\<close>

theorem dns_mark_codec:
  "from_mark m = Some r \<longleftrightarrow> route_valid r \<and> m = to_mark r"
  by (rule from_mark_Some_iff)

text \<open>C16. The NFQUEUE carrier of a DNS route round trips for every valid route that carries
  no direct-mark index, and the decoder accepts nothing else.\<close>

theorem dns_nfqueue_codec:
  "from_nfqueue_mark m = Some r \<longleftrightarrow>
     route_valid r \<and> \<not> udr_direct_mark r \<and> m = to_nfqueue_mark r"
proof (cases "m AND NFQUEUE_SIGNATURE_MARK = NFQUEUE_SIGNATURE_MARK")
  case True
  then have "from_nfqueue_mark m = Some r \<longleftrightarrow>
      m AND DNS_DIRECT_MARK_KIND = 0 \<and> route_valid r \<and> m = to_nfqueue_mark r"
    by (auto simp: from_nfqueue_mark_def from_mark_Some_iff nfqueue_strip
        to_nfqueue_mark_def to_mark_no_reserved)
  then show ?thesis
    using nfqueue_mark_kind by blast
next
  case False
  then show ?thesis
    by (auto simp: from_nfqueue_mark_def nfqueue_mark_signature)
qed

text \<open>C17. Packing a decision token into the NFQUEUE mark and extracting it are inverse to each
  other, for every token and every mark.\<close>

theorem nfqueue_token_codec:
  "extract_nfqueue_token m = Some t \<longleftrightarrow> pack_nfqueue_mark t = Some m"
  by (simp add: extract_nfqueue_token_def pack_nfqueue_mark_def Let_def rust_consts bit_blast) argo

text \<open>C18. A decision token determines its generation and its sequence number, fits the token
  bits of an NFQUEUE mark and is never zero.\<close>

theorem decision_token_codec:
  "udp_decision_token g q = Some t \<longleftrightarrow>
     g = udp_decision_token_generation t \<and> q = t AND UDP_DECISION_SEQUENCE_MASK
     \<and> q \<noteq> 0 \<and> pack_nfqueue_mark t \<noteq> None"
proof
  assume t: "udp_decision_token g q = Some t"
  then have "t = push_bit 28 g OR q" and "q \<noteq> 0"
    and g: "\<forall>n\<ge>2. \<not> bit g n" and q: "\<forall>n\<ge>28. \<not> bit q n"
    by (auto simp: udp_decision_token_def decision_mask_bits UDP_DECISION_GENERATION_SHIFT_def
        split: if_splits)
  then show "g = udp_decision_token_generation t \<and> q = t AND UDP_DECISION_SEQUENCE_MASK
      \<and> q \<noteq> 0 \<and> pack_nfqueue_mark t \<noteq> None"
    using token_fields[OF g q] by (auto simp: pack_nfqueue_mark_def)
next
  assume "g = udp_decision_token_generation t \<and> q = t AND UDP_DECISION_SEQUENCE_MASK
      \<and> q \<noteq> 0 \<and> pack_nfqueue_mark t \<noteq> None"
  then show "udp_decision_token g q = Some t"
    using token_of_fields[of t] token_fields_small[of t]
    by (auto simp: udp_decision_token_def pack_nfqueue_mark_def not_less split: if_splits)
qed

text \<open>C19. The three uses of the top mark bits never collide: a mark that decodes as a DNS
  route has no reserved bit, so it is neither a classified mark nor a staged NFQUEUE mark of
  either kind.\<close>

theorem mark_carriers_disjoint:
  "from_mark m = Some r \<longrightarrow>
     \<not> skb_mark_has_reserved_bits m \<and> m AND CLASSIFIED_MARK = 0
     \<and> extract_nfqueue_token m = None \<and> from_nfqueue_mark m = None"
  by (auto simp: from_mark_Some_iff skb_mark_has_reserved_bits_def extract_nfqueue_token_def
      from_nfqueue_mark_def SKB_MARK_RESERVED_MASK_def to_mark_no_reserved to_mark_unclassified
      signature_nonzero[symmetric])

theorem mark_carriers_disjoint_witness:
  "from_mark 0x08020001 = Some \<lparr>udr_outbound = 2, udr_generation = 1, udr_direct_mark = False\<rparr>
   \<and> \<not> skb_mark_has_reserved_bits 0x08020001"
proof -
  have "from_mark 0x08020001 = Some \<lparr>udr_outbound = 2, udr_generation = 1, udr_direct_mark = False\<rparr>"
    by code_simp
  then show ?thesis
    using mark_carriers_disjoint by blast
qed

end
