(* ===== verification/Flow_Data.thy ===== *)
theory Flow_Data
  imports Marks
begin

text \<open>
  The data the datapath keeps in its maps: addresses and tuples (\<open>dae_ip.rs\<close>,
  \<open>redirect_need.rs\<close>, \<open>lib.rs\<close>), connection state and its time limits (\<open>conn.rs\<close>), the
  auxiliary redirect and hand-off metadata, fragments, counters and events. Explicit padding
  fields, which the sources only ever write as zero, are left out.
\<close>

section \<open>Addresses and tuples\<close>

text \<open>\<open>In6Addr\<close>: the four words are \<open>u32::from_be\<close> of the union's \<open>u6_addr32\<close>.\<close>

record in6_addr =
  w0 :: u32
  w1 :: u32
  w2 :: u32
  w3 :: u32

definition In6Addr_zero :: in6_addr where
  "In6Addr_zero = \<lparr>w0 = 0, w1 = 0, w2 = 0, w3 = 0\<rparr>"

definition from_ipv4_mapped :: "u32 \<Rightarrow> in6_addr" where
  "from_ipv4_mapped ipv4 = \<lparr>w0 = 0, w1 = 0, w2 = 0x0000FFFF, w3 = ipv4\<rparr>"

definition from_ipv4_bytes :: "u8 \<Rightarrow> u8 \<Rightarrow> u8 \<Rightarrow> u8 \<Rightarrow> in6_addr" where
  "from_ipv4_bytes a b c d = from_ipv4_mapped (be32 a b c d)"

text \<open>The two halves of word 2 are \<open>u6_addr16[4]\<close> and \<open>u6_addr16[5]\<close>.\<close>

definition is_v4_mapped :: "in6_addr \<Rightarrow> bool" where
  "is_v4_mapped a \<longleftrightarrow> w0 a = 0 \<and> w1 a = 0
     \<and> as_u16 (drop_bit 16 (w2 a)) = 0 \<and> as_u16 (w2 a) = 0xffff"

definition DAE0_IPV6_PREFIX_HI :: u64 where
  [rust_consts]: "DAE0_IPV6_PREFIX_HI = 0xfd00686f6e6b0000"
definition DAE0_IPV4_NET :: u32 where
  [rust_consts]: "DAE0_IPV4_NET = 0xA9FE0000"

definition is_dae0_link :: "in6_addr \<Rightarrow> bool" where
  "is_dae0_link a =
     (if is_v4_mapped a then w3 a AND 0xFFFF0000 = DAE0_IPV4_NET
      else push_bit 32 (as_u64 (w0 a)) OR as_u64 (w1 a) = DAE0_IPV6_PREFIX_HI)"

record tuples_key =
  src_ip :: in6_addr
  dst_ip :: in6_addr
  src_port :: u16
  dst_port :: u16
  l4proto :: u8

record tuples =
  five :: tuples_key
  tup_dscp :: u8

record redirect_tuple =
  rt_src_ip :: in6_addr
  rt_dst_ip :: in6_addr
  rt_src_port :: u16
  rt_dst_port :: u16
  rt_l4proto :: u8

definition from_tuples :: "tuples_key \<Rightarrow> redirect_tuple" where
  "from_tuples k = \<lparr>rt_src_ip = src_ip k, rt_dst_ip = dst_ip k, rt_src_port = src_port k,
                     rt_dst_port = dst_port k, rt_l4proto = l4proto k\<rparr>"

definition redirect_reverse :: "redirect_tuple \<Rightarrow> redirect_tuple" where
  "redirect_reverse t = \<lparr>rt_src_ip = rt_dst_ip t, rt_dst_ip = rt_src_ip t,
                          rt_src_port = rt_dst_port t, rt_dst_port = rt_src_port t,
                          rt_l4proto = rt_l4proto t\<rparr>"

definition IPPROTO_TCP :: u8 where [rust_consts]: "IPPROTO_TCP = 6"
definition IPPROTO_UDP :: u8 where [rust_consts]: "IPPROTO_UDP = 17"

definition is_stateless_udp_ports :: "u16 \<Rightarrow> u16 \<Rightarrow> bool" where
  "is_stateless_udp_ports sp dp \<longleftrightarrow> sp = 53 \<or> dp = 53"

section \<open>Connection state\<close>

text \<open>\<open>RoutingMeta\<close> is its \<open>raw\<close> word; the \<open>data\<close> view of the union is the packed
  little-endian layout: outbound in bits 0-7, mark in bits 8-39, must in bits 40-47, dscp in
  bits 48-55 and the flag byte in bits 56-63.\<close>

type_synonym routing_meta = u64

definition meta_outbound :: "routing_meta \<Rightarrow> u8" where "meta_outbound m = as_u8 m"
definition meta_mark :: "routing_meta \<Rightarrow> u32" where "meta_mark m = as_u32 (drop_bit 8 m)"
definition meta_must :: "routing_meta \<Rightarrow> u8" where "meta_must m = as_u8 (drop_bit 40 m)"
definition meta_dscp :: "routing_meta \<Rightarrow> u8" where "meta_dscp m = as_u8 (drop_bit 48 m)"

definition ROUTING_META_FLAG_PUBLISHED :: u64 where
  [rust_consts]: "ROUTING_META_FLAG_PUBLISHED = push_bit 56 1"
definition ROUTING_META_FLAG_OFFLOAD :: u64 where
  [rust_consts]: "ROUTING_META_FLAG_OFFLOAD = push_bit 57 1"
definition ROUTING_META_FLAG_WAN_USERSPACE :: u64 where
  [rust_consts]: "ROUTING_META_FLAG_WAN_USERSPACE = push_bit 58 1"

definition is_published :: "routing_meta \<Rightarrow> bool" where
  "is_published m \<longleftrightarrow> m AND ROUTING_META_FLAG_PUBLISHED \<noteq> 0"

record conn_state =
  is_wan_ingress_direction :: u8
  cs_state :: u8
  tcp_syn_flags :: u16
  cs_decision_token :: u32
  cs_last_seen_ns :: u64
  cs_meta :: routing_meta
  cs_mac :: "u8 list"
  cs_pname :: "u8 list"
  cs_pid :: u32
  cs_trace_id :: u32
  cs_incarnation :: u64
  tcp_syn_isn :: u32

definition TCP_SYN_ORIGINAL_INTERCEPT :: u16 where
  [rust_consts]: "TCP_SYN_ORIGINAL_INTERCEPT = 1"

datatype tcp_state = TcpStateActive | TcpStateClosing

fun tcp_state_u8 :: "tcp_state \<Rightarrow> u8" where
  "tcp_state_u8 TcpStateActive = 0"
| "tcp_state_u8 TcpStateClosing = 1"

datatype udp_decision_state =
  UdpNone | Preparing | Pending | DirectArmed | Proxy | UdpBlock | Aborted

fun udp_state_u8 :: "udp_decision_state \<Rightarrow> u8" where
  "udp_state_u8 UdpNone = 0"
| "udp_state_u8 Preparing = 1"
| "udp_state_u8 Pending = 2"
| "udp_state_u8 DirectArmed = 3"
| "udp_state_u8 Proxy = 4"
| "udp_state_u8 UdpBlock = 5"
| "udp_state_u8 Aborted = 6"

definition TCP_CONN_STATE_ESTABLISHED_TIMEOUT_NS :: u64 where
  [rust_consts]: "TCP_CONN_STATE_ESTABLISHED_TIMEOUT_NS = 120000000000"
definition TCP_CONN_STATE_CLOSING_TIMEOUT_NS :: u64 where
  [rust_consts]: "TCP_CONN_STATE_CLOSING_TIMEOUT_NS = 10000000000"
definition UDP_CONN_STATE_TIMEOUT_NS :: u64 where
  [rust_consts]: "UDP_CONN_STATE_TIMEOUT_NS = 120000000000"
definition ROUTING_HANDOFF_TIMEOUT_NS :: u64 where
  [rust_consts]: "ROUTING_HANDOFF_TIMEOUT_NS = 30000000000"
definition REDIRECT_TRACK_TIMEOUT_NS :: u64 where
  [rust_consts]: "REDIRECT_TRACK_TIMEOUT_NS = 120000000000"
definition FRAGMENT_VERDICT_TTL_NS :: u64 where
  [rust_consts]: "FRAGMENT_VERDICT_TTL_NS = 30000000000"
definition NEW_FLOW_LIMIT_PER_CPU_SECOND :: u32 where
  [rust_consts]: "NEW_FLOW_LIMIT_PER_CPU_SECOND = 1024"
definition FLOW_INCARNATION_MAX :: u64 where
  [rust_consts]: "FLOW_INCARNATION_MAX = push_bit 56 1 - 1"

definition tcp_conn_state_expired :: "u8 \<Rightarrow> u64 \<Rightarrow> bool" where
  "tcp_conn_state_expired state elapsed_ns \<longleftrightarrow>
     state = tcp_state_u8 TcpStateClosing \<and> elapsed_ns > TCP_CONN_STATE_CLOSING_TIMEOUT_NS"

section \<open>Auxiliary metadata\<close>

record redirect_entry =
  re_last_seen_ns :: u64
  re_dmac :: "u8 list"
  re_smac :: "u8 list"
  re_from_wan :: u8
  re_outbound :: u8
  re_ifindex :: u32
  re_decision_token :: u32
  re_incarnation :: u64

record routing_result =
  rr_mark :: u32
  rr_must :: u8
  rr_mac :: "u8 list"
  rr_outbound :: u8
  rr_pname :: "u8 list"
  rr_pid :: u32
  rr_dscp :: u8
  rr_decision_token :: u32

record routing_handoff_entry =
  he_last_seen_ns :: u64
  he_result :: routing_result
  he_routing_generation :: u64
  he_trace_id :: u32
  he_incarnation :: u64

definition TCP_BINDING_CHILD :: u32 where [rust_consts]: "TCP_BINDING_CHILD = 2"

record tcp_socket_binding =
  tb_tuples :: tuples_key
  tb_handoff :: routing_handoff_entry
  tb_kind :: u32
  tb_syn_isn :: u32

record retirement_fence =
  rf_owner :: u64
  rf_decision_token :: u32

record fragment_key =
  fk_src_ip :: in6_addr
  fk_dst_ip :: in6_addr
  fk_id :: u32
  fk_l4proto :: u8

record fragment_verdict =
  fv_verdict :: u32
  fv_ktime_ns :: u64

record new_flow_window =
  nf_second :: u32
  nf_count :: u32

record flow_expiry_hint =
  hint_incarnation :: u64
  last_hint_ns :: u64

datatype bpf_stats_key =
    UdpConnOverflow | TcpConnOverflow | RedirectTrackInsertFailure | RoutingHandoffInsertFailure
  | SocketIdentityCaptureFailure | TcpChildProofStorageFailure | TcpPublisherClaimFailure
  | NewFlowRateLimited | UdpReverseLearningSuspended

datatype dae_event_type =
  EvBlocked | EvUdpConnOverflow | EvTcpConnOverflow | EvUdpDecisionTokenExhausted | EvFlowExpired

record dae_event =
  ev_timestamp :: u64
  ev_type :: dae_event_type
  ev_pid :: u32
  ev_pname :: "u8 list"
  ev_outbound :: u8
  ev_l4proto :: u8
  ev_sip :: in6_addr
  ev_dip :: in6_addr
  ev_sport :: u16
  ev_dport :: u16
  ev_incarnation :: u64

record outbound_counters =
  tx_packets :: u64
  tx_bytes :: u64
  rx_packets :: u64
  rx_bytes :: u64

end
