(* ===== verification/Policy.thy ===== *)
theory Policy
  imports Flow_Data
begin

text \<open>
  The interface between the static classifiers and the generated routing functions
  (\<open>honk-ebpf-common/src/routing_policy.rs\<close>): the fixed input, the decision and its two
  static rewrites, the trace output and its witness.
\<close>

definition ROUTING_FEATURE_PROCESS :: u32 where [rust_consts]: "ROUTING_FEATURE_PROCESS = 4"
definition ROUTE_TRACE_ENABLED :: u32 where [rust_consts]: "ROUTE_TRACE_ENABLED = 1"
definition ROUTE_TRACE_AMBIGUOUS :: u32 where [rust_consts]: "ROUTE_TRACE_AMBIGUOUS = 8"
definition ROUTE_TRACE_DNS_OVERRIDE :: u32 where [rust_consts]: "ROUTE_TRACE_DNS_OVERRIDE = 16"
definition ROUTE_TRACE_VERSION :: u32 where [rust_consts]: "ROUTE_TRACE_VERSION = push_bit 24 1"
definition ROUTE_TRACE_LOST :: u32 where [rust_consts]: "ROUTE_TRACE_LOST = - 1"
definition ROUTING_INPUT_MAC_PRESENT :: u32 where [rust_consts]: "ROUTING_INPUT_MAC_PRESENT = 1"
definition ROUTING_INPUT_ALLOW_DIRECT_FINALITY :: u32 where
  [rust_consts]: "ROUTING_INPUT_ALLOW_DIRECT_FINALITY = 2"

definition DATAPATH_FLAG_OFFLOAD_RULE_DIRECT :: u32 where
  [rust_consts]: "DATAPATH_FLAG_OFFLOAD_RULE_DIRECT = 1"
definition DATAPATH_FLAG_OFFLOAD_ALL :: u32 where
  [rust_consts]: "DATAPATH_FLAG_OFFLOAD_ALL = 2"
definition DATAPATH_FLAG_TRACE_ENABLED :: u32 where
  [rust_consts]: "DATAPATH_FLAG_TRACE_ENABLED = 4"
definition DATAPATH_FLAG_NFQ_ENABLED :: u32 where
  [rust_consts]: "DATAPATH_FLAG_NFQ_ENABLED = 8"
definition DATAPATH_FLAG_NFQ_READY :: u32 where
  [rust_consts]: "DATAPATH_FLAG_NFQ_READY = 16"

text \<open>\<open>RoutingInput\<close>; the addresses and the MAC are the wire bytes of the source's arrays, and
  \<open>RoutingInput::default()\<close> is all zero.\<close>

record routing_input =
  ri_src_ip :: in6_addr
  ri_dst_ip :: in6_addr
  ri_mac :: "u8 list"
  ri_pname :: "u8 list"
  ri_src_port :: u32
  ri_dst_port :: u32
  ri_l4proto :: u32
  ri_ip_version :: u32
  ri_dscp :: u32
  ri_is_wan :: u32
  ri_pname_len :: u32
  ri_flags :: u32

definition RoutingInput_default :: routing_input where
  "RoutingInput_default =
     \<lparr>ri_src_ip = In6Addr_zero, ri_dst_ip = In6Addr_zero, ri_mac = replicate 16 0,
      ri_pname = replicate 48 0, ri_src_port = 0, ri_dst_port = 0, ri_l4proto = 0,
      ri_ip_version = 0, ri_dscp = 0, ri_is_wan = 0, ri_pname_len = 0, ri_flags = 0\<rparr>"

record routing_decision =
  d_outbound :: u32
  d_mark :: u32
  d_must :: u32
  d_domain_final :: u32
  d_rule_id :: u32
  d_direct_mark_index :: u32

definition RoutingDecision_default :: routing_decision where
  "RoutingDecision_default =
     \<lparr>d_outbound = as_u32 (outbound_u8 Block), d_mark = 0, d_must = 0, d_domain_final = 0,
      d_rule_id = - 1, d_direct_mark_index = - 1\<rparr>"

definition handoff_outbound :: "routing_decision \<Rightarrow> u8" where
  "handoff_outbound d =
     (if d_outbound d = as_u32 (outbound_u8 Direct) \<and> d_must d = 0 \<and> d_domain_final d = 0
      then outbound_u8 ControlPlaneRouting
      else as_u8 (d_outbound d))"

definition apply_mode_flags :: "u32 \<Rightarrow> u16 \<Rightarrow> routing_decision \<Rightarrow> routing_decision" where
  "apply_mode_flags flags dport d =
     (if flags AND DATAPATH_FLAG_OFFLOAD_ALL = 0 \<or> dport = 53 \<or> d_must d \<noteq> 0
         \<or> d_outbound d = as_u32 (outbound_u8 Block)
      then d
      else
        let d1 = (if d_outbound d \<noteq> as_u32 (outbound_u8 Direct)
                  then d\<lparr>d_outbound := as_u32 (outbound_u8 Direct), d_mark := 0\<rparr>
                  else d)
        in d1\<lparr>d_domain_final := 1\<rparr>)"

text \<open>\<open>KernelRouteOutput\<close>. The last field stands for the trace payload that only the generated
  function writes and only userspace reads (\<open>fact_state\<close>, \<open>input\<close>, \<open>domain_bitmap\<close>,
  \<open>outcomes\<close>).\<close>

record kernel_route_output =
  o_decision :: routing_decision
  o_flags :: u32
  o_generation :: u64
  o_policy_id :: u32
  o_trace :: "u32 list"

record kernel_route_witness =
  kw_output :: kernel_route_output
  kw_tuple :: tuples_key
  kw_decision_token :: u32
  kw_capture_id :: u32
  kw_observed_ns :: u64

record policy_descriptor =
  pd_slot :: u32
  pd_features :: u32
  pd_generation :: u64
  pd_domain_map_id :: u32
  pd_trace_policy :: u32

end
