(* ===== verification/Datapath_State.thy ===== *)
theory Datapath_State
  imports Policy
begin

text \<open>
  The BPF maps of \<open>honk-ebpf/src/maps.rs\<close> as one state record, what the running kernel
  decides as an environment record, the value-locked readers of \<open>flow.rs\<close> and the event ring
  of \<open>event.rs\<close>.

  An array map looked up at a constant index inside its bounds always has a value, so
  single-slot arrays are plain fields. A per-CPU map is its slice on the CPU that runs the
  program. A section under a value lock is one state change.
\<close>

section \<open>The environment\<close>

text \<open>\<open>DaeParam\<close>, fixed at load time. \<open>local_ip\<close> is \<open>u32::from_be\<close> of the stored word, as the
  words of an address are.\<close>

record dae_param =
  tproxy_port :: u32
  control_plane_pid :: u32
  dae0_ifindex :: u32
  dae_netns_id :: u32
  wan_ifindex :: u32
  dae0peer_mac :: "u8 list"
  use_redirect_peer :: u8
  dae_socket_mark :: u32
  local_ip :: u32
  tcp_daens_netns_id :: int

text \<open>A TCP socket as the programs see it: its state, whether \<open>bpf_sk_fullsock\<close> yields a full
  socket, and its \<open>TCP_SOCKET_BINDING\<close> storage.\<close>

record tcp_sock =
  sk_state :: u32
  sk_full :: bool
  sk_binding :: "tcp_socket_binding option"

text \<open>
  What the kernel decides: the \<open>n\<close>-th reading of the monotonic clock in this run, whether the
  event ring accepts its \<open>n\<close>-th record, whether a plain hash map can allocate an element for a
  key, which entries an LRU map forgets on an insertion, which socket a TCP lookup finds (its
  first argument says whether the tuple is looked up as IPv4); and what userspace wrote: the
  load parameters, the policy root and the two generated routing functions.
\<close>

record env =
  ktime :: "nat \<Rightarrow> u64"
  ring_accepts :: "nat \<Rightarrow> bool"
  conn_room :: "tuples_key \<Rightarrow> bool"
  redirect_room :: "redirect_tuple \<Rightarrow> bool"
  handoff_room :: "tuples_key \<Rightarrow> bool"
  publishing_errno :: "tuples_key \<Rightarrow> int option"
  hint_evicted :: "tuples_key \<Rightarrow> bool"
  reply_evicted :: "redirect_tuple \<Rightarrow> bool"
  rate_evicted :: "in6_addr \<Rightarrow> bool"
  frag_evicted :: "fragment_key \<Rightarrow> bool"
  trace_evicted :: "u32 \<Rightarrow> bool"
  lru_update_ok :: bool
  skc_lookup_tcp :: "bool \<Rightarrow> tuples_key \<Rightarrow> tcp_sock option"
  param :: dae_param
  WAN_IFINDEX :: u32
  DAE0PEER_IFINDEX :: u32
  policy_root :: "policy_descriptor option"
  route_slot0 :: "routing_input \<Rightarrow> kernel_route_output \<Rightarrow> int \<times> kernel_route_output"
  route_slot1 :: "routing_input \<Rightarrow> kernel_route_output \<Rightarrow> int \<times> kernel_route_output"

section \<open>The maps\<close>

record udp_sequence =
  seq_next :: u32
  seq_exhausted :: u32

record dp =
  CONN_STATE_MAP :: "tuples_key \<rightharpoonup> conn_state"
  REDIRECT_TRACK :: "redirect_tuple \<rightharpoonup> redirect_entry"
  ROUTING_HANDOFF_MAP :: "tuples_key \<rightharpoonup> routing_handoff_entry"
  CLIENT_REPLY_TRACK :: "redirect_tuple \<rightharpoonup> redirect_entry"
  TCP_PUBLISHING :: "tuples_key \<rightharpoonup> u64"
  RETIRE_ACTIVE :: u32
  RETIRE_FENCE :: "tuples_key \<rightharpoonup> retirement_fence"
  TCP_LIVE_PINS :: "u64 \<rightharpoonup> u8"
  UDP_DECISION_SEQUENCE :: udp_sequence
  FLOW_INCARNATION_SEQUENCE :: u64
  CONN_STATE_OCCUPANCY :: u64
  AUX_REDIRECT_INSERTS :: u64
  AUX_HANDOFF_INSERTS :: u64
  BPF_STATS_MAP :: "bpf_stats_key \<Rightarrow> u64"
  EVENT_RINGBUF :: "dae_event list"
  FLOW_EXPIRY_HINT :: "tuples_key \<rightharpoonup> flow_expiry_hint"
  NEW_FLOW_RATE :: "in6_addr \<rightharpoonup> new_flow_window"
  FRAG_VERDICT :: "fragment_key \<rightharpoonup> fragment_verdict"
  ROUTE_TRACE_SEQUENCE :: u32
  ROUTE_TRACE_MAP :: "u32 \<rightharpoonup> kernel_route_witness"
  OUTBOUND_STATS :: "u8 \<Rightarrow> outbound_counters"
  OUTBOUND_CONNECTIVITY_MAP :: "nat \<Rightarrow> u64"
  DATAPATH_STATE_MAP :: u32
  DATAPATH_FLAGS_MAP :: u32
  ADMISSION_PRESSURE :: u32
  ticks :: nat

definition bpf_ktime_get_ns :: "env \<Rightarrow> dp \<Rightarrow> u64 \<times> dp" where
  "bpf_ktime_get_ns e s = (ktime e (ticks s), s\<lparr>ticks := ticks s + 1\<rparr>)"

definition datapath_ready :: "dp \<Rightarrow> bool" where
  "datapath_ready s \<longleftrightarrow> DATAPATH_STATE_MAP s \<noteq> 0"

definition datapath_flags :: "dp \<Rightarrow> u32" where
  "datapath_flags s = DATAPATH_FLAGS_MAP s"

definition admission_pressure :: "dp \<Rightarrow> bool" where
  "admission_pressure s \<longleftrightarrow> ADMISSION_PRESSURE s \<noteq> 0"

definition tuple_retiring :: "dp \<Rightarrow> tuples_key \<Rightarrow> bool" where
  "tuple_retiring s key \<longleftrightarrow> RETIRE_ACTIVE s \<noteq> 0 \<and> RETIRE_FENCE s key \<noteq> None"

definition increment_bpf_stat :: "bpf_stats_key \<Rightarrow> dp \<Rightarrow> dp" where
  "increment_bpf_stat k s = s\<lparr>BPF_STATS_MAP := (BPF_STATS_MAP s)(k := BPF_STATS_MAP s k + 1)\<rparr>"

section \<open>Value-locked readers\<close>

record conn_lifecycle_snap =
  cl_incarnation :: u64
  cl_last_seen_ns :: u64
  cl_state :: u8

record tcp_syn_snap =
  ts_incarnation :: u64
  ts_syn_isn :: u32
  ts_syn_flags :: u16
  ts_state :: u8
  ts_published :: bool

record auxiliary_identity =
  ai_incarnation :: u64
  ai_last_seen_ns :: u64
  ai_decision_token :: u32

definition conn_lifecycle :: "dp \<Rightarrow> tuples_key \<Rightarrow> conn_lifecycle_snap option" where
  "conn_lifecycle s key =
     map_option (\<lambda>c. \<lparr>cl_incarnation = cs_incarnation c, cl_last_seen_ns = cs_last_seen_ns c,
                        cl_state = cs_state c\<rparr>) (CONN_STATE_MAP s key)"

definition tcp_syn_state :: "dp \<Rightarrow> tuples_key \<Rightarrow> tcp_syn_snap option" where
  "tcp_syn_state s key =
     map_option (\<lambda>c. \<lparr>ts_incarnation = cs_incarnation c, ts_syn_isn = tcp_syn_isn c,
                        ts_syn_flags = tcp_syn_flags c, ts_state = cs_state c,
                        ts_published = (cs_meta c AND ROUTING_META_FLAG_PUBLISHED \<noteq> 0)\<rparr>)
       (CONN_STATE_MAP s key)"

definition redirect_identity :: "dp \<Rightarrow> redirect_tuple \<Rightarrow> auxiliary_identity option" where
  "redirect_identity s key =
     map_option (\<lambda>r. \<lparr>ai_incarnation = re_incarnation r, ai_last_seen_ns = re_last_seen_ns r,
                        ai_decision_token = re_decision_token r\<rparr>) (REDIRECT_TRACK s key)"

definition handoff_identity :: "dp \<Rightarrow> tuples_key \<Rightarrow> auxiliary_identity option" where
  "handoff_identity s key =
     map_option (\<lambda>h. \<lparr>ai_incarnation = he_incarnation h, ai_last_seen_ns = he_last_seen_ns h,
                        ai_decision_token = rr_decision_token (he_result h)\<rparr>)
       (ROUTING_HANDOFF_MAP s key)"

definition conn_incarnation :: "dp \<Rightarrow> tuples_key \<Rightarrow> u64 option" where
  "conn_incarnation s key = map_option cs_incarnation (CONN_STATE_MAP s key)"

definition handoff_incarnation :: "dp \<Rightarrow> tuples_key \<Rightarrow> u64 option" where
  "handoff_incarnation s key = map_option he_incarnation (ROUTING_HANDOFF_MAP s key)"

definition redirect_incarnation :: "dp \<Rightarrow> redirect_tuple \<Rightarrow> u64 option" where
  "redirect_incarnation s key = map_option re_incarnation (REDIRECT_TRACK s key)"

section \<open>Events\<close>

definition zero_event :: dae_event where
  "zero_event = \<lparr>ev_timestamp = 0, ev_type = EvBlocked, ev_pid = 0, ev_pname = replicate 16 0,
     ev_outbound = 0, ev_l4proto = 0, ev_sip = In6Addr_zero, ev_dip = In6Addr_zero,
     ev_sport = 0, ev_dport = 0, ev_incarnation = 0\<rparr>"

text \<open>The ring accepts or refuses a reservation; a submitted record is appended.\<close>

definition ring_reserve :: "env \<Rightarrow> dp \<Rightarrow> bool" where
  "ring_reserve e s = ring_accepts e (length (EVENT_RINGBUF s))"

definition send_dae_event ::
  "env \<Rightarrow> dae_event_type \<Rightarrow> u32 \<Rightarrow> u8 list option \<Rightarrow> u8 \<Rightarrow> u8 \<Rightarrow> in6_addr option \<Rightarrow> in6_addr option
   \<Rightarrow> u16 \<Rightarrow> u16 \<Rightarrow> dp \<Rightarrow> int \<times> dp"
where
  "send_dae_event e ty pid pname outbound proto sip dip sport dport s =
     (if \<not> ring_reserve e s then (- 1, s)
      else
        let (now, s1) = bpf_ktime_get_ns e s;
            ev = zero_event\<lparr>ev_timestamp := now, ev_type := ty, ev_pid := pid,
                   ev_outbound := outbound, ev_l4proto := proto, ev_sport := sport,
                   ev_dport := dport,
                   ev_pname := (case pname of Some p \<Rightarrow> p | None \<Rightarrow> replicate 16 0),
                   ev_sip := (case sip of Some a \<Rightarrow> a | None \<Rightarrow> In6Addr_zero),
                   ev_dip := (case dip of Some a \<Rightarrow> a | None \<Rightarrow> In6Addr_zero)\<rparr>
        in (0, s1\<lparr>EVENT_RINGBUF := EVENT_RINGBUF s1 @ [ev]\<rparr>))"

definition send_flow_expired :: "env \<Rightarrow> tuples_key \<Rightarrow> u64 \<Rightarrow> dp \<Rightarrow> dp" where
  "send_flow_expired e key incarnation s =
     (let (now, s1) = bpf_ktime_get_ns e s;
          suppressed = (case FLOW_EXPIRY_HINT s1 key of
             Some previous \<Rightarrow> hint_incarnation previous = incarnation
               \<and> saturating_sub now (last_hint_ns previous) < 1000000000
           | None \<Rightarrow> False) in
      if suppressed then s1
      else if \<not> ring_reserve e s1 then s1
      else
        let ev = zero_event\<lparr>ev_timestamp := now, ev_type := EvFlowExpired,
                   ev_incarnation := incarnation, ev_l4proto := l4proto key,
                   ev_sip := src_ip key, ev_dip := dst_ip key,
                   ev_sport := src_port key, ev_dport := dst_port key\<rparr>;
            s2 = s1\<lparr>EVENT_RINGBUF := EVENT_RINGBUF s1 @ [ev]\<rparr>;
            hint = \<lparr>hint_incarnation = incarnation, last_hint_ns = now\<rparr> in
        case FLOW_EXPIRY_HINT s2 key of
          Some _ \<Rightarrow> s2\<lparr>FLOW_EXPIRY_HINT := (FLOW_EXPIRY_HINT s2)(key \<mapsto> hint)\<rparr>
        | None \<Rightarrow>
            if lru_update_ok e
            then s2\<lparr>FLOW_EXPIRY_HINT := lru_insert (hint_evicted e) key hint (FLOW_EXPIRY_HINT s2)\<rparr>
            else s2)"

end
