(* ===== verification/New_Flow_Limit.thy ===== *)
theory New_Flow_Limit
  imports Datapath_State
begin

text \<open>
  The per-source new-flow budget of \<open>new_flow_limit.rs\<close> (one CPU's slice of the per-CPU map)
  and the per-outbound traffic counters of \<open>stats.rs\<close>.
\<close>

section \<open>The budget\<close>

definition window_second :: "u64 \<Rightarrow> u32" where
  "window_second now = as_u32 (now div 1000000000)"

definition try_acquire :: "env \<Rightarrow> in6_addr \<Rightarrow> dp \<Rightarrow> bool \<times> dp" where
  "try_acquire e src s =
     (let (now, s1) = bpf_ktime_get_ns e s;
          second = window_second now in
      case NEW_FLOW_RATE s1 src of
        None \<Rightarrow>
          (True,
           if lru_update_ok e
           then s1\<lparr>NEW_FLOW_RATE := lru_insert (rate_evicted e) src
                     \<lparr>nf_second = second, nf_count = 1\<rparr> (NEW_FLOW_RATE s1)\<rparr>
           else s1)
      | Some window \<Rightarrow>
          if nf_second window \<noteq> second then
            (True, s1\<lparr>NEW_FLOW_RATE := (NEW_FLOW_RATE s1)(src \<mapsto> \<lparr>nf_second = second, nf_count = 1\<rparr>)\<rparr>)
          else if nf_count window \<ge> NEW_FLOW_LIMIT_PER_CPU_SECOND then (False, s1)
          else
            (True, s1\<lparr>NEW_FLOW_RATE := (NEW_FLOW_RATE s1)(src \<mapsto> window\<lparr>nf_count := nf_count window + 1\<rparr>)\<rparr>))"

definition exceeded :: "env \<Rightarrow> in6_addr \<Rightarrow> dp \<Rightarrow> bool \<times> dp" where
  "exceeded e src s =
     (let (ok, s1) = try_acquire e src s in
      if \<not> ok then (True, increment_bpf_stat NewFlowRateLimited s1) else (False, s1))"

section \<open>Traffic counters\<close>

definition add_tx :: "u64 \<Rightarrow> outbound_counters \<Rightarrow> outbound_counters" where
  "add_tx bytes c = c\<lparr>tx_packets := tx_packets c + 1, tx_bytes := tx_bytes c + bytes\<rparr>"

definition add_rx :: "u64 \<Rightarrow> outbound_counters \<Rightarrow> outbound_counters" where
  "add_rx bytes c = c\<lparr>rx_packets := rx_packets c + 1, rx_bytes := rx_bytes c + bytes\<rparr>"

definition count_tx :: "u32 \<Rightarrow> u8 \<Rightarrow> dp \<Rightarrow> dp" where
  "count_tx len outbound s =
     s\<lparr>OUTBOUND_STATS := (OUTBOUND_STATS s)(outbound := add_tx (as_u64 len) (OUTBOUND_STATS s outbound))\<rparr>"

definition count_rx :: "u32 \<Rightarrow> u8 \<Rightarrow> dp \<Rightarrow> dp" where
  "count_rx len outbound s =
     s\<lparr>OUTBOUND_STATS := (OUTBOUND_STATS s)(outbound := add_rx (as_u64 len) (OUTBOUND_STATS s outbound))\<rparr>"

end
