(* ===== verification/Conntrack.thy ===== *)
theory Conntrack
  imports New_Flow_Limit
begin

text \<open>
  The shared part of connection tracking (\<open>contrack.rs\<close>): the per-packet routing facts, the
  incarnation allocator, the packed routing metadata, reversed tuples and tuple availability.
\<close>

section \<open>Per-packet routing facts\<close>

definition CT_ARGS_HAS_ROUTING :: u8 where [rust_consts]: "CT_ARGS_HAS_ROUTING = 1"
definition CT_ARGS_HAS_MAC :: u8 where [rust_consts]: "CT_ARGS_HAS_MAC = 2"
definition CT_ARGS_HAS_PNAME :: u8 where [rust_consts]: "CT_ARGS_HAS_PNAME = 4"

record conntrack_args =
  ca_flags :: u8
  ca_outbound :: u8
  ca_must :: u8
  ca_dscp :: u8
  ca_mark :: u32
  ca_pid :: u32
  ca_mac :: "u8 list"
  ca_pname :: "u8 list"
  ca_trace_id :: u32
  ca_incarnation :: u64
  ca_tcp_syn_isn :: u32

definition has_routing :: "conntrack_args \<Rightarrow> bool" where
  "has_routing a \<longleftrightarrow> ca_flags a AND CT_ARGS_HAS_ROUTING \<noteq> 0"

definition has_mac :: "conntrack_args \<Rightarrow> bool" where
  "has_mac a \<longleftrightarrow> ca_flags a AND CT_ARGS_HAS_MAC \<noteq> 0"

definition has_pname :: "conntrack_args \<Rightarrow> bool" where
  "has_pname a \<longleftrightarrow> ca_flags a AND CT_ARGS_HAS_PNAME \<noteq> 0"

text \<open>\<open>ConntrackArgs::set\<close> starts from all zero.\<close>

definition set_args ::
  "u8 \<Rightarrow> u32 \<Rightarrow> (u8 \<times> u32 \<times> u8) option \<Rightarrow> u8 list option \<Rightarrow> u8 list option \<Rightarrow> conntrack_args"
where
  "set_args dscp pid routing mac pname =
     (let a0 = \<lparr>ca_flags = 0, ca_outbound = 0, ca_must = 0, ca_dscp = dscp, ca_mark = 0,
                ca_pid = pid, ca_mac = replicate 6 0, ca_pname = replicate 16 0,
                ca_trace_id = 0, ca_incarnation = 0, ca_tcp_syn_isn = 0\<rparr>;
          a1 = (case routing of
                  Some (outbound, mark, must) \<Rightarrow>
                    a0\<lparr>ca_flags := ca_flags a0 OR CT_ARGS_HAS_ROUTING, ca_outbound := outbound,
                        ca_mark := mark, ca_must := must\<rparr>
                | None \<Rightarrow> a0);
          a2 = (case mac of
                  Some m \<Rightarrow> a1\<lparr>ca_flags := ca_flags a1 OR CT_ARGS_HAS_MAC, ca_mac := m\<rparr>
                | None \<Rightarrow> a1)
      in case pname of
           Some p \<Rightarrow> a2\<lparr>ca_flags := ca_flags a2 OR CT_ARGS_HAS_PNAME, ca_pname := p\<rparr>
         | None \<Rightarrow> a2)"

definition zero_conn :: conn_state where
  "zero_conn = \<lparr>is_wan_ingress_direction = 0, cs_state = 0, tcp_syn_flags = 0,
     cs_decision_token = 0, cs_last_seen_ns = 0, cs_meta = 0, cs_mac = replicate 6 0,
     cs_pname = replicate 16 0, cs_pid = 0, cs_trace_id = 0, cs_incarnation = 0, tcp_syn_isn = 0\<rparr>"

definition occupancy_add :: "dp \<Rightarrow> dp" where
  "occupancy_add s = s\<lparr>CONN_STATE_OCCUPANCY := CONN_STATE_OCCUPANCY s + 1\<rparr>"

definition allocate_flow_incarnation :: "dp \<Rightarrow> u64 option \<times> dp" where
  "allocate_flow_incarnation s =
     (let (incarnation, s1) =
        (if FLOW_INCARNATION_SEQUENCE s < FLOW_INCARNATION_MAX
         then (FLOW_INCARNATION_SEQUENCE s + 1,
               s\<lparr>FLOW_INCARNATION_SEQUENCE := FLOW_INCARNATION_SEQUENCE s + 1\<rparr>)
         else (0, s))
      in if incarnation = 0 then (None, s1) else (Some incarnation, s1))"

section \<open>Routing metadata\<close>

definition build_routing_meta_with_offload ::
  "u8 \<Rightarrow> u32 \<Rightarrow> u8 \<Rightarrow> u8 \<Rightarrow> bool \<Rightarrow> routing_meta"
where
  "build_routing_meta_with_offload outbound mark must dscp offload =
     as_u64 outbound
     OR push_bit 8 (as_u64 mark)
     OR push_bit 40 (as_u64 must)
     OR push_bit 48 (as_u64 dscp)
     OR push_bit 56 1
     OR (if offload then ROUTING_META_FLAG_OFFLOAD else 0)"

definition build_routing_meta :: "u8 \<Rightarrow> u32 \<Rightarrow> u8 \<Rightarrow> u8 \<Rightarrow> routing_meta" where
  "build_routing_meta outbound mark must dscp =
     build_routing_meta_with_offload outbound mark must dscp False"

section \<open>Tuples\<close>

definition copy_reversed_tuples :: "tuples_key \<Rightarrow> tuples_key" where
  "copy_reversed_tuples key =
     \<lparr>src_ip = dst_ip key, dst_ip = src_ip key, src_port = dst_port key,
      dst_port = src_port key, l4proto = l4proto key\<rparr>"

definition is_short_lived_udp_traffic :: "tuples_key \<Rightarrow> bool" where
  "is_short_lived_udp_traffic key \<longleftrightarrow>
     l4proto key = IPPROTO_UDP \<and> (dst_port key = 53 \<or> src_port key = 53)"

definition tcp_live_pinned :: "dp \<Rightarrow> u64 \<Rightarrow> bool" where
  "tcp_live_pinned s incarnation \<longleftrightarrow> incarnation \<noteq> 0 \<and> TCP_LIVE_PINS s incarnation \<noteq> None"

text \<open>\<open>Inl ()\<close> is \<open>Err(())\<close>: the tuple refuses this invocation.\<close>

definition available_tuple_lifecycle ::
  "env \<Rightarrow> tuples_key \<Rightarrow> u64 option \<Rightarrow> dp \<Rightarrow> (unit + conn_lifecycle_snap option) \<times> dp"
where
  "available_tuple_lifecycle e key now s =
     (if tuple_retiring s key then (Inl (), s)
      else case conn_lifecycle s key of
        None \<Rightarrow> (Inr None, s)
      | Some state \<Rightarrow>
          let (now, s1) = (case now of Some n \<Rightarrow> (n, s) | None \<Rightarrow> bpf_ktime_get_ns e s);
              expired =
                (if l4proto key = IPPROTO_TCP then
                   cl_state state = tcp_state_u8 TcpStateClosing
                   \<and> saturating_sub now (cl_last_seen_ns state) > TCP_CONN_STATE_CLOSING_TIMEOUT_NS
                   \<and> \<not> tcp_live_pinned s1 (cl_incarnation state)
                 else
                   cl_state state = udp_state_u8 Aborted
                   \<or> saturating_sub now (cl_last_seen_ns state) > UDP_CONN_STATE_TIMEOUT_NS);
              s2 = (if expired then send_flow_expired e key (cl_incarnation state) s1 else s1)
          in if expired \<or> (l4proto key = IPPROTO_UDP \<and> cl_state state = udp_state_u8 Preparing)
             then (Inl (), s2)
             else (Inr (Some state), s2))"

definition tuple_unavailable :: "env \<Rightarrow> tuples_key \<Rightarrow> dp \<Rightarrow> bool \<times> dp" where
  "tuple_unavailable e key s =
     (let (r, s1) = available_tuple_lifecycle e key None s in (isl r, s1))"

end
