(* ===== verification/Udp_Conntrack.thy ===== *)
theory Udp_Conntrack
  imports Conntrack
begin

text \<open>
  UDP connection tracking (\<open>contrack/udp.rs\<close>): the Preparing claim, its publication or abort,
  decision tokens, lookups with lazy renewal, and the learning of reverse flows.
\<close>

definition UDP_CONN_STATE_UPDATE_INTERVAL_NS :: u64 where
  [rust_consts]: "UDP_CONN_STATE_UPDATE_INTERVAL_NS = 1000000000"

section \<open>Claim, publish, abort\<close>

definition claim_udp_preparing :: "env \<Rightarrow> tuples_key \<Rightarrow> u8 list \<Rightarrow> dp \<Rightarrow> u64 option \<times> dp" where
  "claim_udp_preparing e key mac s =
     (if tuple_retiring s key then (None, s)
      else case allocate_flow_incarnation s of
        (None, s1) \<Rightarrow> (None, s1)
      | (Some incarnation, s1) \<Rightarrow>
          let (now, s2) = bpf_ktime_get_ns e s1;
              state = zero_conn\<lparr>cs_state := udp_state_u8 Preparing, cs_incarnation := incarnation,
                                 cs_last_seen_ns := now, cs_mac := mac\<rparr>;
              (ok, m) = insert_noexist (conn_room e key) key state (CONN_STATE_MAP s2);
              s3 = s2\<lparr>CONN_STATE_MAP := m\<rparr> in
          if ok then (Some incarnation, occupancy_add s3)
          else if CONN_STATE_MAP s3 key = None then
            let s4 = increment_bpf_stat UdpConnOverflow s3;
                (_, s5) = send_dae_event e EvUdpConnOverflow 0 None 0 (l4proto key)
                            (Some (src_ip key)) (Some (dst_ip key)) (src_port key) (dst_port key) s4
            in (None, s5)
          else (None, s3))"

definition publish_claimed_udp_state :: "tuples_key \<Rightarrow> conn_state \<Rightarrow> dp \<Rightarrow> bool \<times> dp" where
  "publish_claimed_udp_state key state s =
     (if tuple_retiring s key \<or> cs_incarnation state = 0 then (False, s)
      else case CONN_STATE_MAP s key of
        None \<Rightarrow> (False, s)
      | Some current \<Rightarrow>
          if cs_state current = udp_state_u8 Preparing \<and> cs_decision_token current = 0
             \<and> cs_incarnation current = cs_incarnation state
          then (True, s\<lparr>CONN_STATE_MAP := (CONN_STATE_MAP s)(key \<mapsto> state)\<rparr>)
          else (False, s))"

definition abort_udp_preparing :: "env \<Rightarrow> tuples_key \<Rightarrow> u64 \<Rightarrow> u32 \<Rightarrow> dp \<Rightarrow> dp" where
  "abort_udp_preparing e key incarnation actual_token s =
     (if incarnation = 0 then s
      else case CONN_STATE_MAP s key of
        None \<Rightarrow> s
      | Some current \<Rightarrow>
          if cs_state current = udp_state_u8 Preparing \<and> cs_decision_token current = 0
             \<and> cs_incarnation current = incarnation
          then send_flow_expired e key incarnation
                 (s\<lparr>CONN_STATE_MAP := (CONN_STATE_MAP s)(key \<mapsto>
                     current\<lparr>cs_decision_token := actual_token, cs_state := udp_state_u8 Aborted\<rparr>)\<rparr>)
          else s)"

definition populate_udp_conn_state ::
  "env \<Rightarrow> routing_meta \<Rightarrow> u8 list \<Rightarrow> udp_decision_state \<Rightarrow> u32 \<Rightarrow> u64 \<Rightarrow> dp \<Rightarrow> conn_state \<times> dp"
where
  "populate_udp_conn_state e meta mac state decision_token incarnation s =
     (let (now, s1) = bpf_ktime_get_ns e s in
      (zero_conn\<lparr>cs_state := udp_state_u8 state, cs_decision_token := decision_token,
                  cs_incarnation := incarnation, cs_last_seen_ns := now, cs_meta := meta,
                  cs_mac := mac\<rparr>, s1))"

section \<open>Decision tokens\<close>

text \<open>The locked section of \<open>allocate_udp_decision_token\<close>: the token (zero when none is left),
  whether the generation is now used up, and the new sequence.\<close>

definition next_decision_token :: "udp_sequence \<Rightarrow> u32 \<times> bool \<times> udp_sequence" where
  "next_decision_token q =
     (if seq_exhausted q \<noteq> 0
         \<or> seq_next q AND UDP_DECISION_SEQUENCE_MASK \<ge> UDP_DECISION_SEQUENCE_MASK
      then (0, False, q)
      else
        let next = seq_next q + 1 in
        (next, next AND UDP_DECISION_SEQUENCE_MASK = UDP_DECISION_SEQUENCE_MASK,
         q\<lparr>seq_next := next,
            seq_exhausted := (if next = NFQUEUE_TOKEN_MASK then 1 else seq_exhausted q)\<rparr>))"

definition allocate_udp_decision_token :: "env \<Rightarrow> tuples_key \<Rightarrow> dp \<Rightarrow> u32 option \<times> dp" where
  "allocate_udp_decision_token e key s =
     (let (token, became_exhausted, q) = next_decision_token (UDP_DECISION_SEQUENCE s);
          s1 = s\<lparr>UDP_DECISION_SEQUENCE := q\<rparr>;
          s2 = (if became_exhausted
                then snd (send_dae_event e EvUdpDecisionTokenExhausted 0 None 0 (l4proto key)
                       (Some (src_ip key)) (Some (dst_ip key)) (src_port key) (dst_port key) s1)
                else s1)
      in if token = 0 then (None, s2) else (Some token, s2))"

section \<open>Lookup and renewal\<close>

definition udp_conn_state_expired :: "conn_state \<Rightarrow> u64 \<Rightarrow> bool" where
  "udp_conn_state_expired state now \<longleftrightarrow>
     cs_state state = udp_state_u8 Aborted
     \<or> saturating_sub now (cs_last_seen_ns state) > UDP_CONN_STATE_TIMEOUT_NS"

definition lookup_udp_seen_at :: "env \<Rightarrow> tuples_key \<Rightarrow> u64 \<Rightarrow> dp \<Rightarrow> conn_state option \<times> dp" where
  "lookup_udp_seen_at e key now s =
     (if tuple_retiring s key then (None, s)
      else case CONN_STATE_MAP s key of
        None \<Rightarrow> (None, s)
      | Some state \<Rightarrow>
          let expired = udp_conn_state_expired state now;
              state' =
                (if \<not> expired
                    \<and> cs_state state \<noteq> udp_state_u8 Preparing
                    \<and> cs_state state \<noteq> udp_state_u8 Pending
                    \<and> cs_state state \<noteq> udp_state_u8 DirectArmed
                    \<and> saturating_sub now (cs_last_seen_ns state) > UDP_CONN_STATE_UPDATE_INTERVAL_NS
                 then state\<lparr>cs_last_seen_ns := now\<rparr> else state);
              s1 = s\<lparr>CONN_STATE_MAP := (CONN_STATE_MAP s)(key \<mapsto> state')\<rparr>
          in if expired then (None, send_flow_expired e key (cs_incarnation state') s1)
             else (Some state', s1))"

definition lookup_udp_seen :: "env \<Rightarrow> tuples_key \<Rightarrow> dp \<Rightarrow> conn_state option \<times> dp" where
  "lookup_udp_seen e key s =
     (let (now, s1) = bpf_ktime_get_ns e s in lookup_udp_seen_at e key now s1)"

definition lookup_udp_available ::
  "env \<Rightarrow> tuples_key \<Rightarrow> dp \<Rightarrow> (unit + conn_state option) \<times> dp"
where
  "lookup_udp_available e key s =
     (case lookup_udp_seen e key s of
        (Some state, s1) \<Rightarrow>
          if cs_state state = udp_state_u8 Preparing then (Inl (), s1) else (Inr (Some state), s1)
      | (None, s1) \<Rightarrow>
          if tuple_retiring s1 key \<or> CONN_STATE_MAP s1 key \<noteq> None then (Inl (), s1)
          else (Inr None, s1))"

definition renew_udp_reply ::
  "tuples_key \<Rightarrow> conn_lifecycle_snap \<Rightarrow> redirect_entry \<Rightarrow> u64 \<Rightarrow> dp \<Rightarrow> dp"
where
  "renew_udp_reply key snap redirect now s =
     (if re_incarnation redirect = 0
         \<or> cl_incarnation snap \<noteq> re_incarnation redirect
         \<or> (cl_state snap \<noteq> udp_state_u8 UdpNone \<and> cl_state snap \<noteq> udp_state_u8 Proxy)
         \<or> saturating_sub now (cl_last_seen_ns snap) < UDP_CONN_STATE_UPDATE_INTERVAL_NS
         \<or> tuple_retiring s key
      then s
      else case CONN_STATE_MAP s key of
        None \<Rightarrow> s
      | Some current \<Rightarrow>
          if cs_incarnation current = re_incarnation redirect
             \<and> cs_decision_token current = re_decision_token redirect
             \<and> cs_state current = cl_state snap
             \<and> \<not> udp_conn_state_expired current now
             \<and> saturating_sub now (cs_last_seen_ns current) \<ge> UDP_CONN_STATE_UPDATE_INTERVAL_NS
          then s\<lparr>CONN_STATE_MAP := (CONN_STATE_MAP s)(key \<mapsto> current\<lparr>cs_last_seen_ns := now\<rparr>)\<rparr>
          else s)"

section \<open>First packets and reverse flows\<close>

text \<open>\<open>__mark_udp_seen\<close>; \<open>None\<close> is the null pointer.\<close>

definition mark_udp_seen_args ::
  "env \<Rightarrow> tuples_key \<Rightarrow> u8 \<Rightarrow> conntrack_args \<Rightarrow> u64 \<Rightarrow> dp \<Rightarrow> conn_state option \<times> dp"
where
  "mark_udp_seen_args e key direction args meta_flags s =
     (let (now, s1) = bpf_ktime_get_ns e s in
      if tuple_retiring s1 key then (None, s1)
      else case lookup_udp_seen_at e key now s1 of
        (Some state, s2) \<Rightarrow> if has_routing args then (None, s2) else (Some state, s2)
      | (None, s2) \<Rightarrow>
          let mac = (if has_mac args then ca_mac args else replicate 6 0) in
          (case claim_udp_preparing e key mac s2 of
            (None, s3) \<Rightarrow> (None, s3)
          | (Some incarnation, s3) \<Rightarrow>
              let n0 = zero_conn\<lparr>is_wan_ingress_direction := bool_u8 (direction \<noteq> 0),
                         cs_state := udp_state_u8 UdpNone, cs_incarnation := incarnation,
                         cs_last_seen_ns := now, cs_pid := ca_pid args,
                         cs_trace_id := ca_trace_id args\<rparr>;
                  n1 = (if has_routing args
                        then n0\<lparr>cs_meta := build_routing_meta (ca_outbound args) (ca_mark args)
                                              (ca_must args) (ca_dscp args) OR meta_flags,
                                 cs_mac := (if has_mac args then ca_mac args else cs_mac n0),
                                 cs_pname := (if has_pname args then ca_pname args else cs_pname n0)\<rparr>
                        else n0)
              in case publish_claimed_udp_state key n1 s3 of
                   (True, s4) \<Rightarrow> (Some n1, s4)
                 | (False, s4) \<Rightarrow> (None, abort_udp_preparing e key incarnation 0 s4)))"

definition mark_udp_seen ::
  "env \<Rightarrow> tuples_key \<Rightarrow> u8 \<Rightarrow> u8 option \<Rightarrow> u32 option \<Rightarrow> u8 option \<Rightarrow> u8 list option \<Rightarrow> u8
   \<Rightarrow> u8 list option \<Rightarrow> u32 \<Rightarrow> u32 \<Rightarrow> u64 \<Rightarrow> dp \<Rightarrow> conn_state option \<times> dp"
where
  "mark_udp_seen e key direction outbound mark must mac dscp pname pid trace_id meta_flags s =
     (let routing = (case (outbound, mark, must) of
                       (Some ob, Some mk, Some ms) \<Rightarrow> Some (ob, mk, ms)
                     | _ \<Rightarrow> None);
          args = (set_args dscp pid routing mac pname)\<lparr>ca_trace_id := trace_id\<rparr>
      in mark_udp_seen_args e key direction args meta_flags s)"

definition observe_reverse_udp :: "env \<Rightarrow> tuples_key \<Rightarrow> dp \<Rightarrow> dp" where
  "observe_reverse_udp e key s =
     (if is_short_lived_udp_traffic key then s
      else if admission_pressure s then
        (case lookup_udp_seen e key s of
           (None, s1) \<Rightarrow> increment_bpf_stat UdpReverseLearningSuspended s1
         | (Some _, s1) \<Rightarrow> s1)
      else snd (mark_udp_seen e key 1 None None None None 0 None 0 0 0 s))"

definition reverse_udp_available :: "env \<Rightarrow> tuples_key \<Rightarrow> bool \<Rightarrow> dp \<Rightarrow> bool \<times> dp" where
  "reverse_udp_available e key learn s =
     (case lookup_udp_available e key s of
        (Inl (), s1) \<Rightarrow> (False, s1)
      | (Inr (Some _), s1) \<Rightarrow> (True, s1)
      | (Inr None, s1) \<Rightarrow>
          let s2 = (if learn then observe_reverse_udp e key s1 else s1);
              (unavailable, s3) = tuple_unavailable e key s2
          in (\<not> unavailable, s3))"

definition local_udp_reply_seen :: "env \<Rightarrow> tuples_key \<Rightarrow> dp \<Rightarrow> bool \<times> dp" where
  "local_udp_reply_seen e key s =
     (if is_short_lived_udp_traffic key then (False, s)
      else case lookup_udp_seen e (copy_reversed_tuples key) s of
        (Some state, s1) \<Rightarrow> (is_wan_ingress_direction state \<noteq> 0, s1)
      | (None, s1) \<Rightarrow> (False, s1))"

text \<open>The first component of the result is the caller's \<open>reversed\<close> tuple afterwards.\<close>

definition observe_local_udp_reply :: "env \<Rightarrow> tuples_key \<Rightarrow> tuples_key \<Rightarrow> dp \<Rightarrow> tuples_key \<times> dp" where
  "observe_local_udp_reply e key reversed s =
     (if is_short_lived_udp_traffic key then (reversed, s)
      else case try_acquire e (src_ip key) s of
        (False, s1) \<Rightarrow> (reversed, s1)
      | (True, s1) \<Rightarrow>
          let reversed1 = copy_reversed_tuples key in (reversed1, observe_reverse_udp e reversed1 s1))"

end
