(* ===== verification/Transport.thy ===== *)
theory Transport
  imports Policy
begin

text \<open>
  The packet parser (\<open>honk-ebpf/src/transport.rs\<close>): link-header detection, the fast path on the
  linear head of the packet, the slow path through \<open>bpf_skb_load_bytes\<close>, and the extraction of
  the tuple.

  The header structs belong to the \<open>network_types\<close> crate; \<open>net_types\<close> holds its accessors as
  functions of the raw header bytes. Lengths are the sizes of the wire formats.
\<close>

section \<open>Headers and the packet\<close>

record eth_hdr =
  eth_dst_addr :: "u8 list"
  eth_src_addr :: "u8 list"
  ether_type :: u16

record ipv4_hdr =
  ip4_version :: u8
  ip4_ihl :: u8
  ip4_dscp :: u8
  ip4_id :: u16
  ip4_frags :: u16
  ip4_proto :: u8
  ip4_src_addr :: u32
  ip4_dst_addr :: u32

record ipv6_hdr =
  ip6_next_hdr :: u8
  ip6_dscp :: u8
  ip6_src_addr :: in6_addr
  ip6_dst_addr :: in6_addr

record tcp_hdr =
  tcp_source :: u16
  tcp_dest :: u16
  tcp_seq :: u32
  tcp_syn :: u16
  tcp_ack :: u16
  tcp_fin :: u16
  tcp_rst :: u16

record udp_hdr =
  udp_src :: u16
  udp_dst :: u16

record net_types =
  Ipv4Hdr :: "u8 list \<Rightarrow> ipv4_hdr"
  Ipv6Hdr :: "u8 list \<Rightarrow> ipv6_hdr"
  TcpHdr :: "u8 list \<Rightarrow> tcp_hdr"
  UdpHdr :: "u8 list \<Rightarrow> udp_hdr"
  icmp6_type :: "u8 list \<Rightarrow> u8"
  icmp6_len :: nat

text \<open>
  \<open>__sk_buff\<close>: the whole packet, how much of it is in the linear head, whether
  \<open>bpf_skb_pull_data\<close> succeeds and how long the head then is, the offset of the network header,
  and the metadata the programs read and write. \<open>skb_protocol\<close> is \<open>u16::from_be\<close> of the field.
\<close>

record skb =
  skb_bytes :: "u8 list"
  skb_head :: nat
  pull_ok :: bool
  pulled_head :: nat
  network_offset :: nat
  skb_protocol :: u16
  skb_mark :: u32
  cb0 :: u32
  cb1 :: u32
  cb2 :: u32
  cb3 :: u32
  cb4 :: u32
  skb_priority :: u32
  skb_ifindex :: u32
  skb_ingress_ifindex :: u32
  skb_vlan_tci :: u32
  skb_pkt_type :: u32
  skb_len :: u32

definition bpf_skb_load_bytes :: "skb \<Rightarrow> nat \<Rightarrow> nat \<Rightarrow> u8 list option" where
  "bpf_skb_load_bytes sk off n =
     (if off + n \<le> length (skb_bytes sk) then Some (take n (drop off (skb_bytes sk))) else None)"

text \<open>Direct packet access: the bytes at \<open>off\<close> unless they end after \<open>data_end\<close>.\<close>

definition direct_bytes :: "skb \<Rightarrow> nat \<Rightarrow> nat \<Rightarrow> u8 list option" where
  "direct_bytes sk off n =
     (if off + n > skb_head sk then None else Some (take n (drop off (skb_bytes sk))))"

definition pull_data :: "skb \<Rightarrow> skb option" where
  "pull_data sk = (if pull_ok sk then Some (sk\<lparr>skb_head := pulled_head sk\<rparr>) else None)"

definition eth_of_bytes :: "u8 list \<Rightarrow> eth_hdr" where
  "eth_of_bytes b = \<lparr>eth_dst_addr = take 6 b, eth_src_addr = take 6 (drop 6 b),
                      ether_type = be16 (b ! 12) (b ! 13)\<rparr>"

definition zero_eth :: eth_hdr where
  "zero_eth = \<lparr>eth_dst_addr = replicate 6 0, eth_src_addr = replicate 6 0, ether_type = 0\<rparr>"

section \<open>Constants\<close>

definition ETH_HLEN :: nat where [rust_consts]: "ETH_HLEN = 14"
definition VLAN_VID_MASK :: u32 where [rust_consts]: "VLAN_VID_MASK = 0x0fff"
definition ETH_P_IP :: u16 where [rust_consts]: "ETH_P_IP = 0x0800"
definition ETH_P_IPV6 :: u16 where [rust_consts]: "ETH_P_IPV6 = 0x86DD"
definition IPPROTO_NONE :: u8 where [rust_consts]: "IPPROTO_NONE = 59"
definition IPPROTO_ICMPV6 :: u8 where [rust_consts]: "IPPROTO_ICMPV6 = 58"
definition IPPROTO_HOPOPTS :: u8 where [rust_consts]: "IPPROTO_HOPOPTS = 0"
definition IPPROTO_ROUTING :: u8 where [rust_consts]: "IPPROTO_ROUTING = 43"
definition IPPROTO_FRAGMENT :: u8 where [rust_consts]: "IPPROTO_FRAGMENT = 44"
definition IPPROTO_DSTOPTS :: u8 where [rust_consts]: "IPPROTO_DSTOPTS = 60"
definition IPV6_MAX_EXTENSIONS :: nat where [rust_consts]: "IPV6_MAX_EXTENSIONS = 8"

definition PARSE_FRAGMENT :: int where [rust_consts]: "PARSE_FRAGMENT = 2"
definition ERR_MALFORMED :: int where [rust_consts]: "ERR_MALFORMED = - 14"
definition ERR_FALLBACK :: int where [rust_consts]: "ERR_FALLBACK = - 1"
definition PASS_UNSUPPORTED :: int where [rust_consts]: "PASS_UNSUPPORTED = 1"
definition PASS_NDP_REDIRECT :: int where [rust_consts]: "PASS_NDP_REDIRECT = 3"

definition is_extension_header :: "u8 \<Rightarrow> bool" where
  "is_extension_header nexthdr \<longleftrightarrow>
     nexthdr = IPPROTO_HOPOPTS \<or> nexthdr = IPPROTO_ROUTING \<or> nexthdr = IPPROTO_FRAGMENT
     \<or> nexthdr = IPPROTO_DSTOPTS"

definition ipv6_optlen :: "u8 \<Rightarrow> nat" where
  "ipv6_optlen hdr_ext_len = (unat hdr_ext_len + 1) * 8"

text \<open>\<open>FragHdr\<close> from its eight bytes.\<close>

definition frag_nexthdr :: "u8 list \<Rightarrow> u8" where "frag_nexthdr b = b ! 0"
definition frag_off :: "u8 list \<Rightarrow> u16" where "frag_off b = be16 (b ! 2) (b ! 3)"
definition frag_identification :: "u8 list \<Rightarrow> u32" where
  "frag_identification b = be32 (b ! 4) (b ! 5) (b ! 6) (b ! 7)"

section \<open>Link header\<close>

text \<open>\<open>bpf_skb_load_bytes_relative\<close> from the network header reads up to the linear tail.\<close>

definition load_bytes_relative_ok :: "skb \<Rightarrow> nat \<Rightarrow> nat \<Rightarrow> bool" where
  "load_bytes_relative_ok sk off n \<longleftrightarrow> network_offset sk + off + n \<le> skb_head sk"

definition network_header_at_eth_hlen :: "skb \<Rightarrow> nat \<Rightarrow> nat" where
  "network_header_at_eth_hlen sk head =
     (let offset = head - ETH_HLEN - 1 in
      if \<not> load_bytes_relative_ok sk offset 1 \<or> load_bytes_relative_ok sk offset 2 then 0
      else ETH_HLEN)"

definition l3_link_h_len :: "skb \<Rightarrow> nat" where
  "l3_link_h_len sk =
     (let head = skb_head sk in
      if \<not> (ETH_HLEN + 1 \<le> head \<and> head \<le> ETH_HLEN + 1 + 0xffff) \<or> 14 > head then 0
      else if ether_type (eth_of_bytes (skb_bytes sk)) \<noteq> skb_protocol sk then 0
      else network_header_at_eth_hlen sk head)"

definition is_vlan_tagged :: "skb \<Rightarrow> nat \<Rightarrow> bool" where
  "is_vlan_tagged sk link_h_len \<longleftrightarrow>
     link_h_len = ETH_HLEN \<and> skb_vlan_tci sk AND VLAN_VID_MASK \<noteq> 0"

section \<open>The parse context\<close>

record parse_ctx =
  pc_ethh :: eth_hdr
  pc_iph :: ipv4_hdr
  pc_ipv6h :: ipv6_hdr
  pc_icmp6_type :: u8
  pc_tcph :: tcp_hdr
  pc_udph :: udp_hdr
  pc_ihl :: u8
  pc_l4proto :: u8
  pc_listener_l4proto :: u8
  pc_is_fragmented :: u8
  pc_frag_id :: u32

definition zero_ctx :: "net_types \<Rightarrow> parse_ctx" where
  "zero_ctx nt = \<lparr>pc_ethh = zero_eth, pc_iph = Ipv4Hdr nt (replicate 20 0),
     pc_ipv6h = Ipv6Hdr nt (replicate 40 0),
     pc_icmp6_type = icmp6_type nt (replicate (icmp6_len nt) 0),
     pc_tcph = TcpHdr nt (replicate 20 0), pc_udph = UdpHdr nt (replicate 8 0),
     pc_ihl = 0, pc_l4proto = 0, pc_listener_l4proto = 0, pc_is_fragmented = 0, pc_frag_id = 0\<rparr>"

text \<open>A parse returns \<open>Inl\<close> of its error code or \<open>Inr ()\<close>, with the context it leaves behind.\<close>

type_synonym parse_result = "(int + unit) \<times> parse_ctx"

section \<open>The slow path\<close>

text \<open>The walk over IPv6 extension headers, \<open>for _ in 0..IPV6_MAX_EXTENSIONS\<close>: \<open>Inl\<close> returns from
  the parser with an error, \<open>Inr\<close> leaves the loop with the next header and the offset.\<close>

fun walk_slow :: "skb \<Rightarrow> nat \<Rightarrow> u8 \<Rightarrow> nat \<Rightarrow> parse_ctx \<Rightarrow> (int \<times> parse_ctx) + (u8 \<times> nat \<times> parse_ctx)" where
  "walk_slow sk 0 nexthdr offset c = Inr (nexthdr, offset, c)"
| "walk_slow sk (Suc n) nexthdr offset c =
     (if nexthdr = IPPROTO_NONE then Inl (ERR_MALFORMED, c)
      else if nexthdr = IPPROTO_FRAGMENT then
        (case bpf_skb_load_bytes sk offset 8 of
           None \<Rightarrow> Inl (ERR_MALFORMED, c)
         | Some fragh \<Rightarrow>
             let c1 = c\<lparr>pc_l4proto := frag_nexthdr fragh,
                         pc_frag_id := frag_identification fragh,
                         pc_is_fragmented := pc_is_fragmented c OR as_u8 (frag_off fragh AND 0x0001)\<rparr>
             in if frag_off fragh AND 0xFFF8 \<noteq> 0 then Inl (PARSE_FRAGMENT, c1)
                else walk_slow sk n (frag_nexthdr fragh) (offset + 8) c1)
      else if \<not> is_extension_header nexthdr then Inr (nexthdr, offset, c)
      else
        (case bpf_skb_load_bytes sk offset 1 of
           None \<Rightarrow> Inl (ERR_MALFORMED, c)
         | Some next \<Rightarrow>
             (case bpf_skb_load_bytes sk (offset + 1) 1 of
                None \<Rightarrow> Inl (ERR_MALFORMED, c)
              | Some hdr_ext_len \<Rightarrow>
                  walk_slow sk n (next ! 0) (offset + ipv6_optlen (hdr_ext_len ! 0))
                    (c\<lparr>pc_l4proto := next ! 0\<rparr>))))"

definition load_tcp_slow :: "net_types \<Rightarrow> skb \<Rightarrow> nat \<Rightarrow> parse_ctx \<Rightarrow> parse_result" where
  "load_tcp_slow nt sk offset c =
     (case bpf_skb_load_bytes sk offset 20 of
        None \<Rightarrow> (Inl ERR_MALFORMED, c)
      | Some b \<Rightarrow> (Inr (), c\<lparr>pc_tcph := TcpHdr nt b\<rparr>))"

definition load_udp_slow :: "net_types \<Rightarrow> skb \<Rightarrow> nat \<Rightarrow> parse_ctx \<Rightarrow> parse_result" where
  "load_udp_slow nt sk offset c =
     (case bpf_skb_load_bytes sk offset 8 of
        None \<Rightarrow> (Inl ERR_MALFORMED, c)
      | Some b \<Rightarrow> (Inr (), c\<lparr>pc_udph := UdpHdr nt b, pc_listener_l4proto := IPPROTO_UDP\<rparr>))"

definition parse_ipv4_slow :: "net_types \<Rightarrow> skb \<Rightarrow> nat \<Rightarrow> parse_ctx \<Rightarrow> parse_result" where
  "parse_ipv4_slow nt sk offset c =
     (case bpf_skb_load_bytes sk offset 20 of
        None \<Rightarrow> (Inl ERR_MALFORMED, c)
      | Some b \<Rightarrow>
          let iph = Ipv4Hdr nt b; c1 = c\<lparr>pc_iph := iph\<rparr> in
          if ip4_ihl iph < 20 then (Inl ERR_MALFORMED, c1)
          else
            let c2 = c1\<lparr>pc_ihl := ip4_ihl iph, pc_l4proto := ip4_proto iph,
                         pc_is_fragmented := bool_u8 (ip4_frags iph AND 0x2000 \<noteq> 0),
                         pc_frag_id := as_u32 (ip4_id iph)\<rparr> in
            if ip4_frags iph AND 0x1FFF \<noteq> 0 then (Inl PARSE_FRAGMENT, c2)
            else
              let offset' = offset + unat (ip4_ihl iph) in
              if ip4_proto iph = IPPROTO_TCP then load_tcp_slow nt sk offset' c2
              else if ip4_proto iph = IPPROTO_UDP then load_udp_slow nt sk offset' c2
              else (Inl PASS_UNSUPPORTED, c2))"

definition parse_ipv6_slow :: "net_types \<Rightarrow> skb \<Rightarrow> nat \<Rightarrow> parse_ctx \<Rightarrow> parse_result" where
  "parse_ipv6_slow nt sk offset c =
     (case bpf_skb_load_bytes sk offset 40 of
        None \<Rightarrow> (Inl ERR_MALFORMED, c)
      | Some b \<Rightarrow>
          let ipv6h = Ipv6Hdr nt b;
              c1 = c\<lparr>pc_ipv6h := ipv6h, pc_ihl := 10\<rparr> in
          (case walk_slow sk IPV6_MAX_EXTENSIONS (ip6_next_hdr ipv6h) (offset + 40) c1 of
             Inl (err, c2) \<Rightarrow> (Inl err, c2)
           | Inr (nexthdr, offset', c2) \<Rightarrow>
               if is_extension_header nexthdr then (Inl ERR_MALFORMED, c2)
               else
                 let c3 = c2\<lparr>pc_l4proto := nexthdr\<rparr> in
                 if nexthdr = IPPROTO_TCP then load_tcp_slow nt sk offset' c3
                 else if nexthdr = IPPROTO_UDP then load_udp_slow nt sk offset' c3
                 else if nexthdr = IPPROTO_ICMPV6 then
                   (case bpf_skb_load_bytes sk offset' (icmp6_len nt) of
                      None \<Rightarrow> (Inl ERR_MALFORMED, c3)
                    | Some b \<Rightarrow> (Inr (), c3\<lparr>pc_icmp6_type := icmp6_type nt b\<rparr>))
                 else (Inl PASS_UNSUPPORTED, c3)))"

definition parse_slow :: "net_types \<Rightarrow> skb \<Rightarrow> nat \<Rightarrow> parse_ctx \<Rightarrow> parse_result" where
  "parse_slow nt sk link_h_len c =
     (let eth =
        (if link_h_len = ETH_HLEN then map_option (\<lambda>b. (eth_of_bytes b, 14)) (bpf_skb_load_bytes sk 0 14)
         else Some (zero_eth\<lparr>ether_type := skb_protocol sk\<rparr>, 0)) in
      case eth of
        None \<Rightarrow> (Inl PASS_UNSUPPORTED, c)
      | Some (ethh, offset) \<Rightarrow>
          let c1 = (zero_ctx nt)\<lparr>pc_ethh := ethh, pc_frag_id := pc_frag_id c\<rparr> in
          if ether_type ethh = ETH_P_IP then parse_ipv4_slow nt sk offset c1
          else if ether_type ethh = ETH_P_IPV6 then parse_ipv6_slow nt sk offset c1
          else (Inl PASS_UNSUPPORTED, c1))"

section \<open>The fast path\<close>

fun walk_fast :: "skb \<Rightarrow> nat \<Rightarrow> u8 \<Rightarrow> nat \<Rightarrow> parse_ctx \<Rightarrow> (int \<times> parse_ctx) + (u8 \<times> nat \<times> parse_ctx)" where
  "walk_fast sk 0 nexthdr offset c = Inr (nexthdr, offset, c)"
| "walk_fast sk (Suc n) nexthdr offset c =
     (if nexthdr = IPPROTO_NONE then Inl (ERR_MALFORMED, c)
      else if nexthdr = IPPROTO_FRAGMENT then
        (case direct_bytes sk offset 8 of
           None \<Rightarrow> Inl (ERR_FALLBACK, c)
         | Some fragh \<Rightarrow>
             let c1 = c\<lparr>pc_l4proto := frag_nexthdr fragh,
                         pc_frag_id := frag_identification fragh,
                         pc_is_fragmented := pc_is_fragmented c OR as_u8 (frag_off fragh AND 0x0001)\<rparr>
             in if frag_off fragh AND 0xFFF8 \<noteq> 0 then Inl (PARSE_FRAGMENT, c1)
                else walk_fast sk n (frag_nexthdr fragh) (offset + 8) c1)
      else if \<not> is_extension_header nexthdr then Inr (nexthdr, offset, c)
      else
        (case direct_bytes sk offset 2 of
           None \<Rightarrow> Inl (ERR_FALLBACK, c)
         | Some ext_hdr \<Rightarrow>
             walk_fast sk n (ext_hdr ! 0) (offset + ipv6_optlen (ext_hdr ! 1))
               (c\<lparr>pc_l4proto := ext_hdr ! 0\<rparr>)))"

definition load_tcp_fast :: "net_types \<Rightarrow> skb \<Rightarrow> nat \<Rightarrow> parse_ctx \<Rightarrow> parse_result" where
  "load_tcp_fast nt sk offset c =
     (case direct_bytes sk offset 20 of
        None \<Rightarrow> (Inl ERR_FALLBACK, c)
      | Some b \<Rightarrow> (Inr (), c\<lparr>pc_tcph := TcpHdr nt b\<rparr>))"

definition load_udp_fast :: "net_types \<Rightarrow> skb \<Rightarrow> nat \<Rightarrow> parse_ctx \<Rightarrow> parse_result" where
  "load_udp_fast nt sk offset c =
     (case direct_bytes sk offset 8 of
        None \<Rightarrow> (Inl ERR_FALLBACK, c)
      | Some b \<Rightarrow> (Inr (), c\<lparr>pc_udph := UdpHdr nt b, pc_listener_l4proto := IPPROTO_UDP\<rparr>))"

definition parse_ipv4_fast :: "net_types \<Rightarrow> skb \<Rightarrow> nat \<Rightarrow> parse_ctx \<Rightarrow> parse_result" where
  "parse_ipv4_fast nt sk offset c =
     (case direct_bytes sk offset 20 of
        None \<Rightarrow> (Inl ERR_FALLBACK, c)
      | Some b \<Rightarrow>
          let iph = Ipv4Hdr nt b in
          if ip4_ihl iph < 20 then (Inl ERR_MALFORMED, c)
          else
            let c1 = c\<lparr>pc_iph := iph, pc_ihl := ip4_ihl iph, pc_l4proto := ip4_proto iph,
                        pc_is_fragmented := bool_u8 (ip4_frags iph AND 0x2000 \<noteq> 0),
                        pc_frag_id := as_u32 (ip4_id iph)\<rparr> in
            if ip4_frags iph AND 0x1FFF \<noteq> 0 then (Inl PARSE_FRAGMENT, c1)
            else
              let l4_offset = offset + unat (ip4_ihl iph) in
              if ip4_proto iph = IPPROTO_TCP then load_tcp_fast nt sk l4_offset c1
              else if ip4_proto iph = IPPROTO_UDP then load_udp_fast nt sk l4_offset c1
              else (Inl PASS_UNSUPPORTED, c1))"

definition parse_ipv6_fast :: "net_types \<Rightarrow> skb \<Rightarrow> nat \<Rightarrow> parse_ctx \<Rightarrow> parse_result" where
  "parse_ipv6_fast nt sk offset c =
     (case direct_bytes sk offset 40 of
        None \<Rightarrow> (Inl ERR_FALLBACK, c)
      | Some b \<Rightarrow>
          let ipv6h = Ipv6Hdr nt b;
              c1 = c\<lparr>pc_ipv6h := ipv6h, pc_l4proto := ip6_next_hdr ipv6h, pc_ihl := 10\<rparr> in
          (case walk_fast sk IPV6_MAX_EXTENSIONS (ip6_next_hdr ipv6h) (offset + 40) c1 of
             Inl (err, c2) \<Rightarrow> (Inl err, c2)
           | Inr (nexthdr, offset', c2) \<Rightarrow>
               if is_extension_header nexthdr then (Inl ERR_MALFORMED, c2)
               else
                 let c3 = c2\<lparr>pc_l4proto := nexthdr\<rparr> in
                 if nexthdr = IPPROTO_TCP then load_tcp_fast nt sk offset' c3
                 else if nexthdr = IPPROTO_UDP then load_udp_fast nt sk offset' c3
                 else if nexthdr = IPPROTO_ICMPV6 then
                   (case direct_bytes sk offset' (icmp6_len nt) of
                      None \<Rightarrow> (Inl ERR_FALLBACK, c3)
                    | Some b \<Rightarrow> (Inr (), c3\<lparr>pc_icmp6_type := icmp6_type nt b\<rparr>))
                 else (Inl PASS_UNSUPPORTED, c3)))"

text \<open>The packet after \<open>pull_data\<close> is returned too: later direct accesses see its new head.\<close>

definition parse_fast :: "net_types \<Rightarrow> skb \<Rightarrow> nat \<Rightarrow> parse_ctx \<Rightarrow> parse_result \<times> skb" where
  "parse_fast nt sk link_h_len c =
     (case pull_data sk of
        None \<Rightarrow> ((Inl ERR_FALLBACK, c), sk)
      | Some sk1 \<Rightarrow>
          let eth =
            (if link_h_len = ETH_HLEN
             then map_option (\<lambda>b. (eth_of_bytes b, 14)) (direct_bytes sk1 0 14)
             else Some (zero_eth\<lparr>ether_type := skb_protocol sk1\<rparr>, 0)) in
          ((case eth of
              None \<Rightarrow> (Inl ERR_FALLBACK, zero_ctx nt)
            | Some (ethh, offset) \<Rightarrow>
                let c1 = (zero_ctx nt)\<lparr>pc_ethh := ethh\<rparr> in
                if ether_type ethh = ETH_P_IP then parse_ipv4_fast nt sk1 offset c1
                else if ether_type ethh = ETH_P_IPV6 then parse_ipv6_fast nt sk1 offset c1
                else (Inl PASS_UNSUPPORTED, c1)), sk1))"

definition parse :: "net_types \<Rightarrow> skb \<Rightarrow> nat \<Rightarrow> parse_ctx \<Rightarrow> parse_result \<times> skb" where
  "parse nt sk link_h_len c =
     (case parse_fast nt sk link_h_len c of
        ((r, c1), sk1) \<Rightarrow>
          if r = Inl ERR_FALLBACK then (parse_slow nt sk1 link_h_len c1, sk1) else ((r, c1), sk1))"

section \<open>Tuples and parsed packets\<close>

definition fill_tuples :: "parse_ctx \<Rightarrow> tuples" where
  "fill_tuples c =
     (let (src, dst, dscp) =
        (if ip4_version (pc_iph c) = 4
         then (from_ipv4_mapped (ip4_src_addr (pc_iph c)), from_ipv4_mapped (ip4_dst_addr (pc_iph c)),
               ip4_dscp (pc_iph c))
         else (ip6_src_addr (pc_ipv6h c), ip6_dst_addr (pc_ipv6h c), ip6_dscp (pc_ipv6h c)));
          (sport, dport) =
        (if pc_l4proto c = IPPROTO_TCP then (tcp_source (pc_tcph c), tcp_dest (pc_tcph c))
         else if pc_l4proto c = IPPROTO_UDP then (udp_src (pc_udph c), udp_dst (pc_udph c))
         else (0, 0))
      in \<lparr>five = \<lparr>src_ip = src, dst_ip = dst, src_port = sport, dst_port = dport,
                   l4proto = pc_l4proto c\<rparr>, tup_dscp = dscp\<rparr>)"

text \<open>\<open>ParsedPacket\<close>, the per-CPU scratch of the classifiers.\<close>

record parsed_packet =
  pp_ethh :: eth_hdr
  pp_tuples :: tuples
  pp_tcph :: tcp_hdr
  pp_udph :: udp_hdr
  pp_l4proto :: u8
  pp_listener_l4proto :: u8
  pp_is_fragmented :: u8
  pp_routing_input :: routing_input
  pp_route_witness :: kernel_route_witness
  pp_trace_id :: u32
  pp_frag_id :: u32
  pp_incarnation :: u64

definition parse_packet ::
  "net_types \<Rightarrow> skb \<Rightarrow> nat \<Rightarrow> parse_ctx \<Rightarrow> parsed_packet \<Rightarrow> int \<times> parsed_packet \<times> parse_ctx \<times> skb"
where
  "parse_packet nt sk link_h_len c out =
     (let out0 = out\<lparr>pp_is_fragmented := 0\<rparr>;
          ((r, c1), sk1) = parse nt sk link_h_len c in
      case r of
        Inl err \<Rightarrow>
          (err,
           (if err = PARSE_FRAGMENT
            then out0\<lparr>pp_frag_id := pc_frag_id c1, pp_tuples := fill_tuples c1\<rparr>
            else out0), c1, sk1)
      | Inr _ \<Rightarrow>
          if pc_l4proto c1 = IPPROTO_ICMPV6 then
            (if pc_icmp6_type c1 = 137 then PASS_NDP_REDIRECT else PASS_UNSUPPORTED, out0, c1, sk1)
          else
            (0, out0\<lparr>pp_ethh := pc_ethh c1, pp_tcph := pc_tcph c1, pp_udph := pc_udph c1,
                      pp_l4proto := pc_l4proto c1, pp_listener_l4proto := pc_listener_l4proto c1,
                      pp_is_fragmented := pc_is_fragmented c1, pp_frag_id := pc_frag_id c1,
                      pp_incarnation := 0, pp_tuples := fill_tuples c1\<rparr>, c1, sk1))"

section \<open>Packet classification helpers\<close>

definition dst_is_special :: "parsed_packet \<Rightarrow> nat \<Rightarrow> bool" where
  "dst_is_special pkt link_h_len =
     (if link_h_len = ETH_HLEN \<and> eth_dst_addr (pp_ethh pkt) ! 0 AND 1 \<noteq> 0 then True
      else
        let dst = dst_ip (five (pp_tuples pkt)) in
        if is_v4_mapped dst then
          w3 dst = 0 \<or> w3 dst = 0xFFFFFFFF \<or> w3 dst AND 0xF0000000 = 0xE0000000
        else as_u8 (drop_bit 24 (w0 dst)) = 0xFF)"

text \<open>The walk of \<open>udp_has_quic_long_header\<close>: \<open>None\<close> is its early \<open>return false\<close>.\<close>

fun quic_walk :: "skb \<Rightarrow> nat \<Rightarrow> u8 \<Rightarrow> nat \<Rightarrow> (u8 \<times> nat) option" where
  "quic_walk sk 0 nexthdr offset = Some (nexthdr, offset)"
| "quic_walk sk (Suc n) nexthdr offset =
     (if nexthdr = IPPROTO_UDP then Some (nexthdr, offset)
      else if nexthdr = IPPROTO_FRAGMENT then
        (case bpf_skb_load_bytes sk offset 8 of
           None \<Rightarrow> None
         | Some fragment \<Rightarrow> quic_walk sk n (frag_nexthdr fragment) (offset + 8))
      else if \<not> is_extension_header nexthdr then None
      else
        (case bpf_skb_load_bytes sk offset 2 of
           None \<Rightarrow> None
         | Some extension \<Rightarrow> quic_walk sk n (extension ! 0) (offset + ipv6_optlen (extension ! 1))))"

definition udp_payload_offset :: "skb \<Rightarrow> nat \<Rightarrow> parsed_packet \<Rightarrow> nat option" where
  "udp_payload_offset sk link_h_len pkt =
     (if ether_type (pp_ethh pkt) = ETH_P_IP then
        (case bpf_skb_load_bytes sk link_h_len 1 of
           None \<Rightarrow> None
         | Some b \<Rightarrow>
             let ihl = unat (as_u32 (b ! 0 AND 0x0f)) * 4 in
             if ihl < 20 then None else Some (link_h_len + ihl))
      else if ether_type (pp_ethh pkt) = ETH_P_IPV6 then
        (case bpf_skb_load_bytes sk (link_h_len + 6) 1 of
           None \<Rightarrow> None
         | Some b \<Rightarrow>
             (case quic_walk sk IPV6_MAX_EXTENSIONS (b ! 0) (link_h_len + 40) of
                None \<Rightarrow> None
              | Some (nexthdr, offset) \<Rightarrow> if nexthdr \<noteq> IPPROTO_UDP then None else Some offset))
      else None)"

definition udp_has_quic_long_header :: "skb \<Rightarrow> nat \<Rightarrow> parsed_packet \<Rightarrow> bool" where
  "udp_has_quic_long_header sk link_h_len pkt =
     (if pp_l4proto pkt \<noteq> IPPROTO_UDP then False
      else case udp_payload_offset sk link_h_len pkt of
        None \<Rightarrow> False
      | Some offset \<Rightarrow>
          (case bpf_skb_load_bytes sk (offset + 8) 1 of
             None \<Rightarrow> False
           | Some first \<Rightarrow> first ! 0 AND 0x80 \<noteq> 0))"

text \<open>Two contexts that agree on all that is read after a parse: the fragment identification counts
  only if the packet is fragmented.\<close>

definition ctx_sim :: "parse_ctx \<Rightarrow> parse_ctx \<Rightarrow> bool" where
  "ctx_sim c c' \<longleftrightarrow>
     pc_ethh c = pc_ethh c' \<and> pc_iph c = pc_iph c' \<and> pc_ipv6h c = pc_ipv6h c'
     \<and> pc_icmp6_type c = pc_icmp6_type c' \<and> pc_tcph c = pc_tcph c' \<and> pc_udph c = pc_udph c'
     \<and> pc_ihl c = pc_ihl c' \<and> pc_listener_l4proto c = pc_listener_l4proto c'
     \<and> pc_is_fragmented c = pc_is_fragmented c'
     \<and> (pc_is_fragmented c \<noteq> 0 \<longrightarrow> pc_frag_id c = pc_frag_id c')"

definition result_sim :: "parse_result \<Rightarrow> parse_result \<Rightarrow> bool" where
  "result_sim x y \<longleftrightarrow>
     fst x = fst y
     \<and> (fst x = Inr () \<longrightarrow> ctx_sim (snd x) (snd y) \<and> pc_l4proto (snd x) = pc_l4proto (snd y))
     \<and> (fst x = Inl PARSE_FRAGMENT \<longrightarrow>
          ctx_sim (snd x) (snd y) \<and> pc_l4proto (snd x) = pc_l4proto (snd y)
          \<and> pc_frag_id (snd x) = pc_frag_id (snd y))"

fun walk_sim :: "(int \<times> parse_ctx) + (u8 \<times> nat \<times> parse_ctx) \<Rightarrow>
                  (int \<times> parse_ctx) + (u8 \<times> nat \<times> parse_ctx) \<Rightarrow> bool" where
  "walk_sim (Inl (err, c)) (Inl (err', c')) \<longleftrightarrow> result_sim (Inl err, c) (Inl err', c')"
| "walk_sim (Inr (nh, off, c)) (Inr (nh', off', c')) \<longleftrightarrow> nh = nh' \<and> off = off' \<and> ctx_sim c c'"
| "walk_sim _ _ \<longleftrightarrow> False"

definition not_fallback :: "parse_result \<Rightarrow> bool" where
  "not_fallback x \<longleftrightarrow> fst x \<noteq> Inl ERR_FALLBACK"

definition heads_in_range :: "skb \<Rightarrow> bool" where
  "heads_in_range sk \<longleftrightarrow> skb_head sk \<le> length (skb_bytes sk) \<and> pulled_head sk \<le> length (skb_bytes sk)"

text \<open>Where the accessors of the header structs look on the wire.\<close>

definition wire_offsets :: "net_types \<Rightarrow> bool" where
  "wire_offsets nt \<longleftrightarrow>
     (\<forall>b. ip6_next_hdr (Ipv6Hdr nt b) = b ! 6)
     \<and> (\<forall>b. unat (ip4_ihl (Ipv4Hdr nt b)) = unat (b ! 0 AND 0x0f) * 4)"

text \<open>Sample data for the concrete instances: accessors that follow the wire formats, and packets.\<close>

definition wire_types :: net_types where
  "wire_types = \<lparr>
     Ipv4Hdr = (\<lambda>b. \<lparr>ip4_version = drop_bit 4 (b ! 0), ip4_ihl = (b ! 0 AND 0x0f) * 4,
       ip4_dscp = drop_bit 2 (b ! 1), ip4_id = be16 (b ! 4) (b ! 5), ip4_frags = be16 (b ! 6) (b ! 7),
       ip4_proto = b ! 9, ip4_src_addr = be32 (b ! 12) (b ! 13) (b ! 14) (b ! 15),
       ip4_dst_addr = be32 (b ! 16) (b ! 17) (b ! 18) (b ! 19)\<rparr>),
     Ipv6Hdr = (\<lambda>b. \<lparr>ip6_next_hdr = b ! 6, ip6_dscp = 0,
       ip6_src_addr = \<lparr>w0 = be32 (b ! 8) (b ! 9) (b ! 10) (b ! 11), w1 = be32 (b ! 12) (b ! 13) (b ! 14) (b ! 15),
         w2 = be32 (b ! 16) (b ! 17) (b ! 18) (b ! 19), w3 = be32 (b ! 20) (b ! 21) (b ! 22) (b ! 23)\<rparr>,
       ip6_dst_addr = \<lparr>w0 = be32 (b ! 24) (b ! 25) (b ! 26) (b ! 27), w1 = be32 (b ! 28) (b ! 29) (b ! 30) (b ! 31),
         w2 = be32 (b ! 32) (b ! 33) (b ! 34) (b ! 35), w3 = be32 (b ! 36) (b ! 37) (b ! 38) (b ! 39)\<rparr>\<rparr>),
     TcpHdr = (\<lambda>b. \<lparr>tcp_source = be16 (b ! 0) (b ! 1), tcp_dest = be16 (b ! 2) (b ! 3),
       tcp_seq = be32 (b ! 4) (b ! 5) (b ! 6) (b ! 7), tcp_syn = ucast (drop_bit 1 (b ! 13) AND 1),
       tcp_ack = ucast (drop_bit 4 (b ! 13) AND 1), tcp_fin = ucast (b ! 13 AND 1),
       tcp_rst = ucast (drop_bit 2 (b ! 13) AND 1)\<rparr>),
     UdpHdr = (\<lambda>b. \<lparr>udp_src = be16 (b ! 0) (b ! 1), udp_dst = be16 (b ! 2) (b ! 3)\<rparr>),
     icmp6_type = (\<lambda>b. b ! 0), icmp6_len = 8\<rparr>"

definition raw_skb :: "u8 list \<Rightarrow> skb" where
  "raw_skb b = \<lparr>skb_bytes = b, skb_head = 0, pull_ok = False, pulled_head = 0, network_offset = 0,
     skb_protocol = 0, skb_mark = 0, cb0 = 0, cb1 = 0, cb2 = 0, cb3 = 0, cb4 = 0, skb_priority = 0,
     skb_ifindex = 0, skb_ingress_ifindex = 0, skb_vlan_tci = 0, skb_pkt_type = 0,
     skb_len = of_nat (length b)\<rparr>"

text \<open>An IPv6 UDP datagram behind a hop-by-hop header, on a link without a link-layer header.\<close>

definition udp6_bytes :: "u8 list" where
  "udp6_bytes = [0x60, 0, 0, 0, 0, 17, 0, 64] @ [0x20, 1] @ replicate 13 0 @ [1] @ [0x20, 1] @ replicate 13 0 @ [2]
     @ [17, 0, 1, 4, 0, 0, 0, 0] @ [0x10, 0, 1, 0xbb, 0, 9, 0, 0] @ [0xc3]"

definition udp6_skb :: skb where
  "udp6_skb = (raw_skb udp6_bytes)\<lparr>skb_protocol := ETH_P_IPV6\<rparr>"

definition zero_addr :: in6_addr where
  "zero_addr = \<lparr>w0 = 0, w1 = 0, w2 = 0, w3 = 0\<rparr>"

definition zero_key :: tuples_key where
  "zero_key = \<lparr>src_ip = zero_addr, dst_ip = zero_addr, src_port = 0, dst_port = 0, l4proto = 0\<rparr>"

definition zero_pkt :: "net_types \<Rightarrow> parsed_packet" where
  "zero_pkt nt = \<lparr>pp_ethh = zero_eth, pp_tuples = \<lparr>five = zero_key, tup_dscp = 0\<rparr>,
     pp_tcph = TcpHdr nt (replicate 20 0), pp_udph = UdpHdr nt (replicate 8 0),
     pp_l4proto = 0, pp_listener_l4proto = 0, pp_is_fragmented = 0,
     pp_routing_input = \<lparr>ri_src_ip = zero_addr, ri_dst_ip = zero_addr, ri_mac = replicate 16 0,
       ri_pname = replicate 16 0, ri_src_port = 0, ri_dst_port = 0, ri_l4proto = 0, ri_ip_version = 0,
       ri_dscp = 0, ri_is_wan = 0, ri_pname_len = 0, ri_flags = 0\<rparr>,
     pp_route_witness = \<lparr>kw_output = \<lparr>o_decision = \<lparr>d_outbound = 0, d_mark = 0, d_must = 0, d_domain_final = 0, d_rule_id = 0, d_direct_mark_index = 0\<rparr>,
       o_flags = 0, o_generation = 0, o_policy_id = 0, o_trace = []\<rparr>, kw_tuple = zero_key,
       kw_decision_token = 0, kw_capture_id = 0, kw_observed_ns = 0\<rparr>,
     pp_trace_id = 0, pp_frag_id = 0, pp_incarnation = 0\<rparr>"

section \<open>Both parsers compute one function\<close>

lemma direct_bytes_load:
  assumes "skb_head sk \<le> length (skb_bytes sk)" "direct_bytes sk off n = Some b"
  shows "bpf_skb_load_bytes sk off n = Some b"
  using assms by (auto simp: direct_bytes_def bpf_skb_load_bytes_def split: if_splits)

lemma load_bytes_split2:
  assumes "bpf_skb_load_bytes sk off 2 = Some b"
  shows "bpf_skb_load_bytes sk off 1 = Some [b ! 0]" "bpf_skb_load_bytes sk (off + 1) 1 = Some [b ! 1]"
  using assms
  by (auto simp: bpf_skb_load_bytes_def take_Suc_conv_app_nth numeral_2_eq_2 split: if_splits)

lemma ctx_sim_fragment:
  "ctx_sim c c' \<Longrightarrow>
   ctx_sim (c\<lparr>pc_l4proto := p, pc_frag_id := i, pc_is_fragmented := pc_is_fragmented c OR f\<rparr>)
           (c'\<lparr>pc_l4proto := p, pc_frag_id := i, pc_is_fragmented := pc_is_fragmented c' OR f\<rparr>)"
  by (simp add: ctx_sim_def)

lemma ctx_sim_l4proto [simp]:
  "ctx_sim (c\<lparr>pc_l4proto := p\<rparr>) c' = ctx_sim c c'"
  "ctx_sim c (c'\<lparr>pc_l4proto := p\<rparr>) = ctx_sim c c'"
  by (simp_all add: ctx_sim_def)

lemma walk_slow_sim:
  "ctx_sim c c' \<Longrightarrow> walk_sim (walk_slow sk n nh off c) (walk_slow sk n nh off c')"
proof (induction n arbitrary: nh off c c')
  case (Suc n)
  show ?case
    using Suc.prems 
    by (auto simp: Let_def result_sim_def rust_consts ctx_sim_fragment intro!: Suc.IH split: option.splits)
qed simp

lemma walk_fast_sim:
  assumes "skb_head sk \<le> length (skb_bytes sk)"
  shows "ctx_sim c c' \<Longrightarrow> (\<forall>c2. walk_fast sk n nh off c \<noteq> Inl (ERR_FALLBACK, c2)) \<Longrightarrow>
    walk_sim (walk_fast sk n nh off c) (walk_slow sk n nh off c')"
proof (induction n arbitrary: nh off c c')
  case (Suc n)
  note ld = direct_bytes_load[OF assms]
  show ?case
  proof (cases "nh = IPPROTO_NONE \<or> (nh \<noteq> IPPROTO_FRAGMENT \<and> \<not> is_extension_header nh)")
    case True
    then show ?thesis using Suc.prems by (auto simp: result_sim_def rust_consts)
  next
    case F: False
    show ?thesis
    proof (cases "nh = IPPROTO_FRAGMENT")
      case True
      then obtain b where b: "direct_bytes sk off 8 = Some b"
        using F Suc.prems(2) by (cases "direct_bytes sk off 8") auto
      then show ?thesis
        using True F Suc.prems ld[OF b]
        by (auto simp: Let_def result_sim_def ctx_sim_fragment intro!: Suc.IH)
    next
      case False
      then obtain b where b: "direct_bytes sk off 2 = Some b"
        using F Suc.prems(2) by (cases "direct_bytes sk off 2") auto
      then show ?thesis
        using False F Suc.prems load_bytes_split2[OF ld[OF b]]
        by (auto intro!: Suc.IH)
    qed
  qed
qed simp

lemma load_tcp_sim:
  assumes "ctx_sim c c'" "pc_l4proto c = pc_l4proto c'"
  shows "result_sim (load_tcp_slow nt sk off c) (load_tcp_slow nt sk off c')"
    and "skb_head sk \<le> length (skb_bytes sk) \<Longrightarrow> not_fallback (load_tcp_fast nt sk off c) \<Longrightarrow>
         result_sim (load_tcp_fast nt sk off c) (load_tcp_slow nt sk off c')"
  using assms
  by (auto simp: load_tcp_slow_def load_tcp_fast_def result_sim_def ctx_sim_def not_fallback_def rust_consts
      dest: direct_bytes_load split: option.splits)

lemma load_udp_sim:
  assumes "ctx_sim c c'" "pc_l4proto c = pc_l4proto c'"
  shows "result_sim (load_udp_slow nt sk off c) (load_udp_slow nt sk off c')"
    and "skb_head sk \<le> length (skb_bytes sk) \<Longrightarrow> not_fallback (load_udp_fast nt sk off c) \<Longrightarrow>
         result_sim (load_udp_fast nt sk off c) (load_udp_slow nt sk off c')"
  using assms
  by (auto simp: load_udp_slow_def load_udp_fast_def result_sim_def ctx_sim_def not_fallback_def rust_consts
      dest: direct_bytes_load split: option.splits)

lemma ctx_sim_ipv4:
  "ctx_sim c c' \<Longrightarrow>
   ctx_sim (c\<lparr>pc_iph := h, pc_ihl := l, pc_l4proto := p, pc_is_fragmented := f, pc_frag_id := i\<rparr>)
           (c'\<lparr>pc_iph := h, pc_ihl := l, pc_l4proto := p, pc_is_fragmented := f, pc_frag_id := i\<rparr>)"
  "ctx_sim c c' \<Longrightarrow> ctx_sim (c\<lparr>pc_iph := h\<rparr>) (c'\<lparr>pc_iph := h\<rparr>)"
  "ctx_sim c c' \<Longrightarrow> ctx_sim (c\<lparr>pc_ipv6h := h6, pc_ihl := l\<rparr>) (c'\<lparr>pc_ipv6h := h6, pc_ihl := l\<rparr>)"
  "ctx_sim c c' \<Longrightarrow> ctx_sim (c\<lparr>pc_ipv6h := h6, pc_l4proto := p, pc_ihl := l\<rparr>) (c'\<lparr>pc_ipv6h := h6, pc_ihl := l\<rparr>)"
  by (simp_all add: ctx_sim_def)

lemma result_sim_error: "err \<noteq> PARSE_FRAGMENT \<Longrightarrow> result_sim (Inl err, c) (Inl err, c')"
  by (simp add: result_sim_def)

lemma parse_ipv4_sim:
  assumes "ctx_sim c c'"
  shows "result_sim (parse_ipv4_slow nt sk off c) (parse_ipv4_slow nt sk off c')"
    and "skb_head sk \<le> length (skb_bytes sk) \<Longrightarrow> not_fallback (parse_ipv4_fast nt sk off c) \<Longrightarrow>
         result_sim (parse_ipv4_fast nt sk off c) (parse_ipv4_slow nt sk off c')"
proof -
  show "result_sim (parse_ipv4_slow nt sk off c) (parse_ipv4_slow nt sk off c')"
    unfolding parse_ipv4_slow_def Let_def
    using ctx_sim_ipv4(1)[OF assms]
    by (auto intro!: load_tcp_sim load_udp_sim result_sim_error simp: rust_consts
        simp: result_sim_def[of "(Inl 2, _)"] split: option.splits)
next
  assume h: "skb_head sk \<le> length (skb_bytes sk)" and nf: "not_fallback (parse_ipv4_fast nt sk off c)"
  then obtain b where b: "direct_bytes sk off 20 = Some b"
    by (cases "direct_bytes sk off 20") (auto simp: parse_ipv4_fast_def not_fallback_def)
  show "result_sim (parse_ipv4_fast nt sk off c) (parse_ipv4_slow nt sk off c')"
    using nf b direct_bytes_load[OF h b] ctx_sim_ipv4(1)[OF assms]
    by (auto simp: parse_ipv4_fast_def parse_ipv4_slow_def Let_def result_sim_def[of "(Inl PARSE_FRAGMENT, _)"]
       split: if_splits intro!: load_tcp_sim(2)[OF _ _ h] load_udp_sim(2)[OF _ _ h] result_sim_error)
      (auto simp: rust_consts)
qed

lemma parse_ipv6_slow_sim:
  assumes "ctx_sim c c'"
  shows "result_sim (parse_ipv6_slow nt sk off c) (parse_ipv6_slow nt sk off c')"
proof (cases "bpf_skb_load_bytes sk off 40")
  case None
  then show ?thesis by (simp add: parse_ipv6_slow_def result_sim_def rust_consts)
next
  case (Some b)
  let ?w = "\<lambda>c. walk_slow sk IPV6_MAX_EXTENSIONS (ip6_next_hdr (Ipv6Hdr nt b)) (off + 40) (c\<lparr>pc_ipv6h := Ipv6Hdr nt b, pc_ihl := 10\<rparr>)"
  have "walk_sim (?w c) (?w c')" by (intro walk_slow_sim ctx_sim_ipv4 assms)
  then show ?thesis
    using Some
    by (cases "(?w c, ?w c')" rule: walk_sim.cases)
       (auto simp: parse_ipv6_slow_def Let_def intro!: load_tcp_sim load_udp_sim result_sim_error
         split: option.splits, auto simp: rust_consts result_sim_def ctx_sim_def)
qed

lemma parse_ipv6_fast_sim:
  assumes "ctx_sim c c'" and h: "skb_head sk \<le> length (skb_bytes sk)"
    and nf: "not_fallback (parse_ipv6_fast nt sk off c)"
  shows "result_sim (parse_ipv6_fast nt sk off c) (parse_ipv6_slow nt sk off c')"
proof -
  obtain b where b: "direct_bytes sk off 40 = Some b"
    using nf by (cases "direct_bytes sk off 40") (auto simp: parse_ipv6_fast_def not_fallback_def)
  let ?h = "Ipv6Hdr nt b"
  let ?w = "walk_fast sk IPV6_MAX_EXTENSIONS (ip6_next_hdr ?h) (off + 40)
              (c\<lparr>pc_ipv6h := ?h, pc_l4proto := ip6_next_hdr ?h, pc_ihl := 10\<rparr>)"
  let ?v = "walk_slow sk IPV6_MAX_EXTENSIONS (ip6_next_hdr ?h) (off + 40)
              (c'\<lparr>pc_ipv6h := ?h, pc_ihl := 10\<rparr>)"
  have "\<forall>c2. ?w \<noteq> Inl (ERR_FALLBACK, c2)"
    using nf b by (auto simp: parse_ipv6_fast_def not_fallback_def Let_def)
  then have "walk_sim ?w ?v" by (intro walk_fast_sim h ctx_sim_ipv4 assms)
  then show ?thesis
    using nf b direct_bytes_load[OF h b]
    by (cases "(?w, ?v)" rule: walk_sim.cases)
       (auto simp: parse_ipv6_slow_def parse_ipv6_fast_def Let_def split: if_splits
         intro!: load_tcp_sim(2)[OF _ _ h] load_udp_sim(2)[OF _ _ h] result_sim_error,
        auto simp: rust_consts not_fallback_def result_sim_def ctx_sim_def 
         dest: direct_bytes_load[OF h] split: option.splits)
qed

lemma load_bytes_head [simp]:
  "bpf_skb_load_bytes (sk\<lparr>skb_head := h\<rparr>) = bpf_skb_load_bytes sk"
  by (simp add: fun_eq_iff bpf_skb_load_bytes_def)

lemma load_bytes_cong:
  "skb_bytes sk = skb_bytes sk' \<Longrightarrow> bpf_skb_load_bytes sk = bpf_skb_load_bytes sk'"
  by (simp add: fun_eq_iff bpf_skb_load_bytes_def)

lemma walk_slow_cong:
  assumes "skb_bytes sk = skb_bytes sk'"
  shows "walk_slow sk n nh off c = walk_slow sk' n nh off c"
proof (induction n arbitrary: nh off c)
  case (Suc n)
  then show ?case using load_bytes_cong[OF assms] by (simp add: Let_def split: option.split)
qed simp

lemma parse_slow_cong:
  assumes "skb_bytes sk = skb_bytes sk'" "skb_protocol sk = skb_protocol sk'"
  shows "parse_slow nt sk l c = parse_slow nt sk' l c"
proof -
  note ld = load_bytes_cong[OF assms(1)]
  have l4: "load_tcp_slow nt sk = load_tcp_slow nt sk'" "load_udp_slow nt sk = load_udp_slow nt sk'"
    by (simp_all add: fun_eq_iff load_tcp_slow_def load_udp_slow_def ld)
  have p4: "parse_ipv4_slow nt sk = parse_ipv4_slow nt sk'"
    unfolding fun_eq_iff parse_ipv4_slow_def ld l4 by simp
  have p6: "parse_ipv6_slow nt sk = parse_ipv6_slow nt sk'"
    unfolding fun_eq_iff parse_ipv6_slow_def ld l4 walk_slow_cong[OF assms(1)] by simp
  show ?thesis unfolding parse_slow_def ld assms(2) p4 p6 by simp
qed

lemma parse_slow_sim: "result_sim (parse_slow nt sk l c) (parse_slow nt sk l c')"
proof -
  have "ctx_sim ((zero_ctx nt)\<lparr>pc_ethh := e, pc_frag_id := i\<rparr>) ((zero_ctx nt)\<lparr>pc_ethh := e, pc_frag_id := j\<rparr>)"
    for e i j by (simp add: ctx_sim_def zero_ctx_def)
  then show ?thesis
    by (auto simp: parse_slow_def Let_def intro!: parse_ipv4_sim parse_ipv6_slow_sim result_sim_error
        split: option.splits) (auto simp: rust_consts)
qed

lemma result_sim_trans: "result_sim x y \<Longrightarrow> result_sim y z \<Longrightarrow> result_sim x z"
  by (auto simp: result_sim_def ctx_sim_def)

lemma result_sim_sym: "result_sim x y \<Longrightarrow> result_sim y x"
  by (auto simp: result_sim_def ctx_sim_def)

lemma parse_fast_sim:
  assumes "heads_in_range sk" "not_fallback (fst (parse_fast nt sk l c))"
  shows "result_sim (fst (parse_fast nt sk l c)) (parse_slow nt sk l (zero_ctx nt))"
proof -
  define sk1 where "sk1 = sk\<lparr>skb_head := pulled_head sk\<rparr>"
  have p: "pull_data sk = Some sk1"
    using assms(2) by (auto simp: parse_fast_def pull_data_def not_fallback_def sk1_def split: if_splits)
  have h: "skb_head sk1 \<le> length (skb_bytes sk1)"
    using assms(1) by (simp add: sk1_def heads_in_range_def)
  have slow: "parse_slow nt sk l (zero_ctx nt) = parse_slow nt sk1 l (zero_ctx nt)"
    by (rule parse_slow_cong) (simp_all add: sk1_def)
  define eth where "eth = (if l = ETH_HLEN
     then map_option (\<lambda>b. (eth_of_bytes b, 14)) (direct_bytes sk1 0 14)
     else Some (zero_eth\<lparr>ether_type := skb_protocol sk1\<rparr>, 0::nat))"
  obtain e off where e: "eth = Some (e, off)"
    using assms(2) p unfolding parse_fast_def not_fallback_def Let_def
    by (cases "direct_bytes sk1 0 14") (auto simp: eth_def split: if_splits)
  then have e': "(if l = ETH_HLEN
     then map_option (\<lambda>b. (eth_of_bytes b, 14)) (bpf_skb_load_bytes sk1 0 14)
     else Some (zero_eth\<lparr>ether_type := skb_protocol sk1\<rparr>, 0)) = Some (e, off)"
    using direct_bytes_load[OF h] by (auto simp: eth_def split: if_splits)
  have c: "ctx_sim ((zero_ctx nt)\<lparr>pc_ethh := e\<rparr>) ((zero_ctx nt)\<lparr>pc_ethh := e\<rparr>)"
    by (simp add: ctx_sim_def)
  have "fst (parse_fast nt sk l c) =
      (if ether_type e = ETH_P_IP then parse_ipv4_fast nt sk1 off ((zero_ctx nt)\<lparr>pc_ethh := e\<rparr>)
       else if ether_type e = ETH_P_IPV6 then parse_ipv6_fast nt sk1 off ((zero_ctx nt)\<lparr>pc_ethh := e\<rparr>)
       else (Inl PASS_UNSUPPORTED, (zero_ctx nt)\<lparr>pc_ethh := e\<rparr>))"
    using p e by (auto simp: parse_fast_def Let_def eth_def split: if_splits)
  moreover have "parse_slow nt sk l (zero_ctx nt) =
      (let c1 = (zero_ctx nt)\<lparr>pc_ethh := e\<rparr> in
       if ether_type e = ETH_P_IP then parse_ipv4_slow nt sk1 off c1
       else if ether_type e = ETH_P_IPV6 then parse_ipv6_slow nt sk1 off c1
       else (Inl PASS_UNSUPPORTED, c1))"
    unfolding slow unfolding parse_slow_def e' by simp
  moreover have "PASS_UNSUPPORTED \<noteq> PARSE_FRAGMENT" by (simp add: rust_consts)
  ultimately show ?thesis
    using assms(2) parse_ipv4_sim(2)[OF c h] parse_ipv6_fast_sim[OF c h]
    by (auto simp: not_fallback_def Let_def intro!: result_sim_error split: if_splits)
qed

lemma parse_sim:
  assumes "heads_in_range sk"
  shows "result_sim (fst (parse nt sk l c)) (parse_slow nt sk l (zero_ctx nt))"
proof (cases "not_fallback (fst (parse_fast nt sk l c))")
  case True
  then show ?thesis
    using parse_fast_sim[OF assms True]
    by (auto simp: parse_def not_fallback_def split: prod.splits)
next
  case False
  obtain r c1 sk1 where f: "parse_fast nt sk l c = ((r, c1), sk1)" by (metis prod.exhaust_sel)
  then have "skb_bytes sk1 = skb_bytes sk" "skb_protocol sk1 = skb_protocol sk"
    by (auto simp: parse_fast_def pull_data_def Let_def split: option.splits if_splits)
  then have "parse_slow nt sk1 l c1 = parse_slow nt sk l c1" by (rule parse_slow_cong)
  then show ?thesis using False f parse_slow_sim by (simp add: parse_def not_fallback_def)
qed

lemma ctx_sim_tuples: "ctx_sim c c' \<Longrightarrow> pc_l4proto c = pc_l4proto c' \<Longrightarrow> fill_tuples c = fill_tuples c'"
  by (simp add: ctx_sim_def fill_tuples_def)

text \<open>C3. The fast path over the linear head, the slow path through \<open>bpf_skb_load_bytes\<close> and the
  fallback from one to the other compute one function of the packet: two copies of a packet that
  differ in how much of it is linear, in whether \<open>bpf_skb_pull_data\<close> succeeds and in what earlier
  packets left in the per-CPU scratch context get the same verdict and the same parsed packet. The
  fragment identification alone may be stale, and only where the packet is not a fragment.\<close>

theorem parse_packet_deterministic:
  assumes "heads_in_range sk" "heads_in_range sk'"
    and "skb_bytes sk = skb_bytes sk'" "skb_protocol sk = skb_protocol sk'"
    and "parse_packet nt sk l c out = (ret, pkt, c1, sk1)"
    and "parse_packet nt sk' l c' out = (ret', pkt', c1', sk1')"
  shows "ret = ret' \<and> pkt\<lparr>pp_frag_id := 0\<rparr> = pkt'\<lparr>pp_frag_id := 0\<rparr>
     \<and> (ret = PARSE_FRAGMENT \<or> pp_is_fragmented pkt \<noteq> 0 \<longrightarrow> pp_frag_id pkt = pp_frag_id pkt')"
proof -
  have "result_sim (fst (parse nt sk l c)) (fst (parse nt sk' l c'))"
    using parse_sim[OF assms(1)] parse_sim[OF assms(2)] parse_slow_cong[OF assms(3,4)]
    by (metis result_sim_sym result_sim_trans)
  moreover obtain r c2 sk2 where p: "parse nt sk l c = ((r, c2), sk2)" by (metis prod.exhaust_sel)
  moreover obtain r' c2' sk2' where p': "parse nt sk' l c' = ((r', c2'), sk2')" by (metis prod.exhaust_sel)
  ultimately have sim: "result_sim (r, c2) (r', c2')" by simp
  show ?thesis
  proof (cases r)
    case (Inl err)
    then show ?thesis
      using assms(5,6) p p' sim
      by (auto simp: parse_packet_def Let_def result_sim_def ctx_sim_tuples)
  next
    case (Inr u)
    then have "r = Inr ()" "r' = Inr ()" "ctx_sim c2 c2'" "pc_l4proto c2 = pc_l4proto c2'"
      using sim by (auto simp: result_sim_def)
    moreover have "(0::int) \<noteq> PARSE_FRAGMENT" "PASS_UNSUPPORTED \<noteq> PARSE_FRAGMENT"
      "PASS_NDP_REDIRECT \<noteq> PARSE_FRAGMENT" by (simp_all add: rust_consts)
    ultimately show ?thesis
      using assms(5,6) p p' ctx_sim_tuples[of c2 c2']
      by (cases "pc_l4proto c2' = IPPROTO_ICMPV6"; cases "pc_icmp6_type c2' = 137")
        (auto simp: parse_packet_def Let_def ctx_sim_def)
  qed
qed

lemma load_prefix:
  assumes "bpf_skb_load_bytes sk off n = Some b" "i < n"
  shows "bpf_skb_load_bytes sk (off + i) 1 = Some [b ! i]"
  using assms by (auto simp: bpf_skb_load_bytes_def take_Suc_conv_app_nth split: if_splits)

lemma load_join2:
  assumes "bpf_skb_load_bytes sk off 1 = Some x" "bpf_skb_load_bytes sk (off + 1) 1 = Some y"
  shows "\<exists>b. bpf_skb_load_bytes sk off 2 = Some b \<and> b ! 0 = x ! 0 \<and> b ! 1 = y ! 0"
  using assms by (auto simp: bpf_skb_load_bytes_def split: if_splits)

lemma walk_slow_quic:
  "walk_slow sk n nh off c = Inr (IPPROTO_UDP, off', c') \<Longrightarrow>
   quic_walk sk n nh off = Some (IPPROTO_UDP, off')"
proof (induction n arbitrary: nh off c)
  case (Suc n)
  have udp: "IPPROTO_UDP \<noteq> IPPROTO_NONE" "IPPROTO_UDP \<noteq> IPPROTO_FRAGMENT" "\<not> is_extension_header IPPROTO_UDP"
    by (simp_all add: rust_consts is_extension_header_def)
  show ?case
  proof (cases "is_extension_header nh \<and> nh \<noteq> IPPROTO_FRAGMENT")
    case False
    then show ?thesis using Suc udp by (auto simp: Let_def split: option.splits if_splits)
  next
    case True
    then obtain x y where "bpf_skb_load_bytes sk off 1 = Some x" "bpf_skb_load_bytes sk (off + 1) 1 = Some y"
      using Suc.prems by (auto split: option.splits if_splits)
    with load_join2[OF this] True Suc udp show ?thesis by (auto split: if_splits)
  qed
qed simp

lemma walk_slow_frame:
  "walk_slow sk n nh off c = Inr (nh', off', c') \<Longrightarrow> pc_ethh c' = pc_ethh c"
proof (induction n arbitrary: nh off c)
  case (Suc n)
  then show ?case by (auto simp: Let_def split: option.splits if_splits dest!: Suc.IH)
qed simp

lemma walk_slow_udp:
  "walk_slow sk n nh off c = Inr (IPPROTO_UDP, off', c') \<Longrightarrow>
   quic_walk sk n nh off = Some (IPPROTO_UDP, off') \<and> pc_ethh c' = pc_ethh c"
  using walk_slow_quic walk_slow_frame by blast

lemma parse_ipv4_slow_udp:
  assumes "parse_ipv4_slow nt sk off c = (Inr (), c')" "pc_l4proto c' = IPPROTO_UDP"
  shows "\<exists>b h. bpf_skb_load_bytes sk off 20 = Some b \<and> \<not> ip4_ihl (Ipv4Hdr nt b) < 20
     \<and> bpf_skb_load_bytes sk (off + unat (ip4_ihl (Ipv4Hdr nt b))) 8 = Some h
     \<and> pc_udph c' = UdpHdr nt h \<and> pc_ethh c' = pc_ethh c"
proof -
  have tu: "IPPROTO_TCP \<noteq> IPPROTO_UDP" by (simp add: rust_consts)
  show ?thesis
    using assms tu
    by (auto simp: parse_ipv4_slow_def load_tcp_slow_def load_udp_slow_def Let_def
        split: option.splits if_splits)
qed

lemma parse_ipv6_slow_udp:
  assumes "parse_ipv6_slow nt sk off c = (Inr (), c')" "pc_l4proto c' = IPPROTO_UDP"
  shows "\<exists>b off' h. bpf_skb_load_bytes sk off 40 = Some b
     \<and> quic_walk sk IPV6_MAX_EXTENSIONS (ip6_next_hdr (Ipv6Hdr nt b)) (off + 40) = Some (IPPROTO_UDP, off')
     \<and> bpf_skb_load_bytes sk off' 8 = Some h
     \<and> pc_udph c' = UdpHdr nt h \<and> pc_ethh c' = pc_ethh c"
proof -
  have tu: "IPPROTO_TCP \<noteq> IPPROTO_UDP" "IPPROTO_ICMPV6 \<noteq> IPPROTO_UDP" by (simp_all add: rust_consts)
  show ?thesis
    using assms tu
    by (auto simp: parse_ipv6_slow_def load_tcp_slow_def load_udp_slow_def Let_def
        dest!: walk_slow_udp split: option.splits if_splits sum.splits prod.splits)
qed

lemma parse_slow_udp_offset:
  assumes nt: "wire_offsets nt" and l: "l = 0 \<or> l = ETH_HLEN"
    and p: "parse_slow nt sk l c = (Inr (), c')" "pc_l4proto c' = IPPROTO_UDP"
    and e: "pp_ethh pkt = pc_ethh c'"
  shows "\<exists>off h. udp_payload_offset sk l pkt = Some off \<and> bpf_skb_load_bytes sk off 8 = Some h
     \<and> pc_udph c' = UdpHdr nt h"
proof -
  let ?c = "\<lambda>e. (zero_ctx nt)\<lparr>pc_ethh := e, pc_frag_id := pc_frag_id c\<rparr>"
  obtain ethh c1 where c1: "pc_ethh c1 = ethh"
    and r: "(if ether_type ethh = ETH_P_IP then parse_ipv4_slow nt sk l c1
          else if ether_type ethh = ETH_P_IPV6 then parse_ipv6_slow nt sk l c1
          else (Inl PASS_UNSUPPORTED, c1)) = (Inr (), c')"
  proof (cases "l = ETH_HLEN")
    case True
    then obtain b where "bpf_skb_load_bytes sk 0 14 = Some b"
      using p(1) by (auto simp: parse_slow_def split: option.splits)
    then show ?thesis
      using that[of "?c (eth_of_bytes b)" "eth_of_bytes b"] p(1) True[unfolded ETH_HLEN_def]
      unfolding True[unfolded ETH_HLEN_def] by (simp add: parse_slow_def ETH_HLEN_def Let_def)
  next
    case False
    with l have l0: "l = 0" by simp
    then show ?thesis
      unfolding l0 using False that[unfolded l0, of "?c (zero_eth\<lparr>ether_type := skb_protocol sk\<rparr>)"] p(1) by (simp add: parse_slow_def Let_def)
  qed
  show ?thesis
  proof (cases "ether_type ethh = ETH_P_IP")
    case True
    then obtain b h where b: "bpf_skb_load_bytes sk l 20 = Some b" "\<not> ip4_ihl (Ipv4Hdr nt b) < 20"
      "bpf_skb_load_bytes sk (l + unat (ip4_ihl (Ipv4Hdr nt b))) 8 = Some h"
      "pc_udph c' = UdpHdr nt h" "pc_ethh c' = ethh"
      using r c1 parse_ipv4_slow_udp[of nt sk l c1, OF _ p(2)] by (auto split: if_splits)
    have "\<not> unat (b ! 0 AND 0x0f) * 4 < 20"
      using b(2) nt by (simp add: wire_offsets_def word_less_nat_alt)
    then show ?thesis
      using b load_prefix[OF b(1), of 0] True e nt
      by (simp add: udp_payload_offset_def wire_offsets_def)
  next
    case False
    have 6: "ETH_P_IPV6 \<noteq> ETH_P_IP" by (simp add: rust_consts)
    from False obtain b off h where b: "bpf_skb_load_bytes sk l 40 = Some b"
      "quic_walk sk IPV6_MAX_EXTENSIONS (ip6_next_hdr (Ipv6Hdr nt b)) (l + 40) = Some (IPPROTO_UDP, off)"
      "bpf_skb_load_bytes sk off 8 = Some h"
      "pc_udph c' = UdpHdr nt h" "pc_ethh c' = ethh" and t: "ether_type ethh = ETH_P_IPV6"
      using r c1 parse_ipv6_slow_udp[of nt sk l c1, OF _ p(2)] by (auto split: if_splits)
    show ?thesis
      using b load_prefix[OF b(1), of 6] 6 t e nt
      by (simp add: udp_payload_offset_def wire_offsets_def)
  qed
qed

lemma walk_slow_errors:
  "walk_slow sk n nh off c = Inl (err, c') \<Longrightarrow> err \<in> {ERR_MALFORMED, PARSE_FRAGMENT}"
proof (induction n arbitrary: nh off c)
  case (Suc n)
  then show ?case by (auto simp: Let_def split: option.splits if_splits)
qed simp

lemma parse_slow_errors:
  assumes "fst (parse_slow nt sk l c) = Inl err"
  shows "err \<in> {ERR_MALFORMED, PARSE_FRAGMENT, PASS_UNSUPPORTED}"
proof -
  have 4: "fst (parse_ipv4_slow nt sk off c) = Inl err \<Longrightarrow> ?thesis" for off c
    by (auto simp: parse_ipv4_slow_def load_tcp_slow_def load_udp_slow_def Let_def
        split: option.splits if_splits)
  have 6: "fst (parse_ipv6_slow nt sk off c) = Inl err \<Longrightarrow> ?thesis" for off c
    by (auto simp: parse_ipv6_slow_def load_tcp_slow_def load_udp_slow_def Let_def
        dest!: walk_slow_errors split: option.splits if_splits sum.splits prod.splits)
  show ?thesis
    using assms 4 6 by (auto simp: parse_slow_def Let_def split: option.splits if_splits)
qed

lemma walk_fast_errors:
  "walk_fast sk n nh off c = Inl (err, c') \<Longrightarrow> err \<in> {ERR_MALFORMED, PARSE_FRAGMENT, ERR_FALLBACK}"
proof (induction n arbitrary: nh off c)
  case (Suc n)
  then show ?case by (auto simp: Let_def split: option.splits if_splits)
qed simp

lemma parse_fast_errors:
  assumes "fst (fst (parse_fast nt sk l c)) = Inl err"
  shows "err \<in> {ERR_MALFORMED, PARSE_FRAGMENT, PASS_UNSUPPORTED, ERR_FALLBACK}"
proof -
  have 4: "fst (parse_ipv4_fast nt sk off c) = Inl err \<Longrightarrow> ?thesis" for off c sk
    by (auto simp: parse_ipv4_fast_def load_tcp_fast_def load_udp_fast_def Let_def
        split: option.splits if_splits)
  have 6: "fst (parse_ipv6_fast nt sk off c) = Inl err \<Longrightarrow> ?thesis" for off c sk
    by (auto simp: parse_ipv6_fast_def load_tcp_fast_def load_udp_fast_def Let_def
        dest!: walk_fast_errors split: option.splits if_splits sum.splits prod.splits)
  show ?thesis
    using assms 4 6 by (auto simp: parse_fast_def Let_def split: option.splits if_splits)
qed

lemma parse_errors:
  assumes "fst (fst (parse nt sk l c)) = Inl err"
  shows "err \<in> {ERR_MALFORMED, PARSE_FRAGMENT, PASS_UNSUPPORTED}"
proof -
  obtain r c1 sk1 where f: "parse_fast nt sk l c = ((r, c1), sk1)" by (metis prod.exhaust_sel)
  then show ?thesis
    using assms parse_fast_errors[of nt sk l c err] parse_slow_errors[of nt sk1 l c1 err]
    by (auto simp: parse_def split: if_splits)
qed

lemma parse_packet_ok:
  assumes "parse_packet nt sk l c out = (0, pkt, c1, sk1)"
  shows "parse nt sk l c = ((Inr (), c1), sk1)" "pc_l4proto c1 \<noteq> IPPROTO_ICMPV6"
    "pp_l4proto pkt = pc_l4proto c1" "pp_tuples pkt = fill_tuples c1"
    "pp_ethh pkt = pc_ethh c1" "pp_udph pkt = pc_udph c1" "pp_incarnation pkt = 0"
    "l4proto (five (pp_tuples pkt)) = pp_l4proto pkt"
proof -
  have "parse nt sk l c = ((Inr (), c1), sk1) \<and> pc_l4proto c1 \<noteq> IPPROTO_ICMPV6
     \<and> pp_l4proto pkt = pc_l4proto c1 \<and> pp_tuples pkt = fill_tuples c1
     \<and> pp_ethh pkt = pc_ethh c1 \<and> pp_udph pkt = pc_udph c1 \<and> pp_incarnation pkt = 0"
    using assms parse_errors[of nt sk l c]
    by (auto simp: parse_packet_def Let_def PASS_UNSUPPORTED_def PASS_NDP_REDIRECT_def PARSE_FRAGMENT_def
        ERR_MALFORMED_def split: prod.splits sum.splits if_splits)
  moreover have "l4proto (five (fill_tuples c1)) = pc_l4proto c1"
    by (simp add: fill_tuples_def split: prod.split)
  ultimately show "parse nt sk l c = ((Inr (), c1), sk1)" "pc_l4proto c1 \<noteq> IPPROTO_ICMPV6"
    "pp_l4proto pkt = pc_l4proto c1" "pp_tuples pkt = fill_tuples c1"
    "pp_ethh pkt = pc_ethh c1" "pp_udph pkt = pc_udph c1" "pp_incarnation pkt = 0"
    "l4proto (five (pp_tuples pkt)) = pp_l4proto pkt" by auto
qed

lemma parse_bytes: "skb_bytes (snd (parse nt sk l c)) = skb_bytes sk"
  by (simp add: parse_def parse_fast_def pull_data_def Let_def split: prod.split option.split)

lemma quic_walk_cong:
  assumes "skb_bytes sk = skb_bytes sk'"
  shows "quic_walk sk n nh off = quic_walk sk' n nh off"
proof (induction n arbitrary: nh off)
  case (Suc n)
  then show ?case using load_bytes_cong[OF assms] by (simp split: option.split)
qed simp

text \<open>C13. The QUIC probe walks the packet on its own, without the offsets of the parser. For every UDP
  datagram the parser accepts, its walk ends at the UDP header the parser read, so that the probe
  tests exactly the first payload byte of that datagram, and says no if the payload is empty. The
  hypothesis on the header accessors is the wire format: next header in byte 6 of the IPv6 header,
  header length in the low nibble of byte 0 of the IPv4 header.\<close>

theorem quic_probe_reads_parsed_datagram:
  assumes "heads_in_range sk" "wire_offsets nt" "l = 0 \<or> l = ETH_HLEN"
    and "parse_packet nt sk l c out = (0, pkt, c1, sk1)" "pp_l4proto pkt = IPPROTO_UDP"
  shows "\<exists>off h. udp_payload_offset sk1 l pkt = Some off \<and> bpf_skb_load_bytes sk off 8 = Some h
     \<and> pp_udph pkt = UdpHdr nt h
     \<and> udp_has_quic_long_header sk1 l pkt =
         (off + 8 < length (skb_bytes sk) \<and> skb_bytes sk ! (off + 8) AND 0x80 \<noteq> 0)"
proof -
  have pr: "parse nt sk l c = ((Inr (), c1), sk1)" and ld: "pp_ethh pkt = pc_ethh c1"
     "pp_udph pkt = pc_udph c1" "pc_l4proto c1 = IPPROTO_UDP"
    using parse_packet_ok[OF assms(4)] assms(5) by simp_all
  obtain c2 where s: "parse_slow nt sk l (zero_ctx nt) = (Inr (), c2)" and sim: "ctx_sim c1 c2"
     "pc_l4proto c2 = IPPROTO_UDP"
    using parse_sim[OF assms(1), of nt l c] pr ld(3)
    by (cases "parse_slow nt sk l (zero_ctx nt)") (auto simp: result_sim_def)
  have b: "skb_bytes sk1 = skb_bytes sk"
    using parse_bytes[of nt sk l c] pr by simp
  obtain off h where o: "udp_payload_offset sk l pkt = Some off" "bpf_skb_load_bytes sk off 8 = Some h"
     "pc_udph c2 = UdpHdr nt h"
    using parse_slow_udp_offset[OF assms(2,3) s sim(2), of pkt] ld(1) sim(1) that by (auto simp: ctx_sim_def)
  have "udp_payload_offset sk1 l pkt = udp_payload_offset sk l pkt"
    unfolding udp_payload_offset_def load_bytes_cong[OF b] quic_walk_cong[OF b] by simp
  then show ?thesis
    using o ld sim(1) b assms(5)
    by (auto simp: udp_has_quic_long_header_def ctx_sim_def bpf_skb_load_bytes_def split: if_splits)
qed

theorem parse_packet_deterministic_witness:
  "let sk = udp6_skb; sk' = sk\<lparr>pull_ok := True, pulled_head := 57\<rparr>;
       c = zero_ctx wire_types; c' = c\<lparr>pc_frag_id := 7\<rparr>;
       r = parse_packet wire_types sk 0 c (zero_pkt wire_types);
       r' = parse_packet wire_types sk' 0 c' (zero_pkt wire_types)
   in fst r = 0 \<and> fst r = fst r'
      \<and> (fst (snd r))\<lparr>pp_frag_id := 0\<rparr> = (fst (snd r'))\<lparr>pp_frag_id := 0\<rparr>"
proof -
  let ?sk = udp6_skb and ?sk' = "udp6_skb\<lparr>pull_ok := True, pulled_head := 57\<rparr>"
  let ?c = "zero_ctx wire_types" and ?c' = "(zero_ctx wire_types)\<lparr>pc_frag_id := 7\<rparr>"
  have "heads_in_range ?sk" "heads_in_range ?sk'" "skb_bytes ?sk = skb_bytes ?sk'"
    "skb_protocol ?sk = skb_protocol ?sk'" by code_simp+
  then have "\<And>ret pkt c1 sk1 ret' pkt' c1' sk1'.
     parse_packet wire_types ?sk 0 ?c (zero_pkt wire_types) = (ret, pkt, c1, sk1) \<Longrightarrow>
     parse_packet wire_types ?sk' 0 ?c' (zero_pkt wire_types) = (ret', pkt', c1', sk1') \<Longrightarrow>
     ret = ret' \<and> pkt\<lparr>pp_frag_id := 0\<rparr> = pkt'\<lparr>pp_frag_id := 0\<rparr>"
    using parse_packet_deterministic[of ?sk ?sk' wire_types 0 ?c "zero_pkt wire_types" _ _ _ _ ?c'] by blast
  moreover have "fst (parse_packet wire_types ?sk 0 ?c (zero_pkt wire_types)) = 0" by code_simp
  ultimately show ?thesis by (simp add: Let_def) (metis prod.exhaust_sel)
qed

theorem quic_probe_reads_parsed_datagram_witness:
  "\<exists>pkt c1 sk1. parse_packet wire_types udp6_skb 0 (zero_ctx wire_types) (zero_pkt wire_types) = (0, pkt, c1, sk1)
     \<and> udp_has_quic_long_header sk1 0 pkt"
proof -
  let ?r = "parse_packet wire_types udp6_skb 0 (zero_ctx wire_types) (zero_pkt wire_types)"
  have "wire_offsets wire_types"
    by (simp add: wire_offsets_def wire_types_def unat_ihl)
  moreover have "heads_in_range udp6_skb" by code_simp
  moreover have r: "fst ?r = 0" by code_simp
  moreover have u: "pp_l4proto (fst (snd ?r)) = IPPROTO_UDP" by code_simp
  moreover obtain pkt c1 sk1 where e: "?r = (0, pkt, c1, sk1)" using r by (metis prod.exhaust_sel)
  ultimately obtain off where o: "udp_payload_offset sk1 0 pkt = Some off"
    "udp_has_quic_long_header sk1 0 pkt =
         (off + 8 < length (skb_bytes udp6_skb) \<and> skb_bytes udp6_skb ! (off + 8) AND 0x80 \<noteq> 0)"
    using quic_probe_reads_parsed_datagram[of udp6_skb wire_types 0 "zero_ctx wire_types" "zero_pkt wire_types" pkt c1 sk1]
    by auto
  have "udp_payload_offset (snd (snd (snd ?r))) 0 (fst (snd ?r)) = Some 48" by code_simp
  then have "off = 48" using o(1) e by simp
  moreover have "48 + 8 < length (skb_bytes udp6_skb) \<and> skb_bytes udp6_skb ! (48 + 8) AND 0x80 \<noteq> 0" by code_simp
  ultimately show ?thesis using o(2) e by auto
qed

lemma parse_slow_l4:
  assumes "parse_slow nt sk l c = (Inr (), c')"
  shows "pc_l4proto c' \<in> {IPPROTO_TCP, IPPROTO_UDP, IPPROTO_ICMPV6}"
proof -
  have 4: "parse_ipv4_slow nt sk off c = (Inr (), c') \<Longrightarrow> ?thesis" for off c
    by (auto simp: parse_ipv4_slow_def load_tcp_slow_def load_udp_slow_def Let_def
        split: option.splits if_splits)
  have 6: "parse_ipv6_slow nt sk off c = (Inr (), c') \<Longrightarrow> ?thesis" for off c
    by (auto simp: parse_ipv6_slow_def load_tcp_slow_def load_udp_slow_def Let_def
        split: option.splits if_splits sum.splits prod.splits)
  show ?thesis
    using assms 4 6 by (auto simp: parse_slow_def Let_def split: option.splits if_splits)
qed

text \<open>C20. The parser returns one of five codes: the internal fallback code never escapes. It returns 0
  only for TCP and UDP, with the tuple's protocol that of the packet and the incarnation cleared.\<close>

theorem parse_packet_verdicts:
  assumes "heads_in_range sk" "parse_packet nt sk l c out = (ret, pkt, c1, sk1)"
  shows "ret \<in> {0, PASS_UNSUPPORTED, PARSE_FRAGMENT, PASS_NDP_REDIRECT, ERR_MALFORMED}
     \<and> (ret = 0 \<longrightarrow> pp_l4proto pkt \<in> {IPPROTO_TCP, IPPROTO_UDP}
           \<and> l4proto (five (pp_tuples pkt)) = pp_l4proto pkt \<and> pp_incarnation pkt = 0)"
proof
  show "ret \<in> {0, PASS_UNSUPPORTED, PARSE_FRAGMENT, PASS_NDP_REDIRECT, ERR_MALFORMED}"
    using assms(2) parse_errors[of nt sk l c]
    by (auto simp: parse_packet_def Let_def split: prod.splits sum.splits if_splits)
  show "ret = 0 \<longrightarrow> pp_l4proto pkt \<in> {IPPROTO_TCP, IPPROTO_UDP}
           \<and> l4proto (five (pp_tuples pkt)) = pp_l4proto pkt \<and> pp_incarnation pkt = 0"
  proof
    assume "ret = 0"
    then have p: "parse_packet nt sk l c out = (0, pkt, c1, sk1)" using assms(2) by simp
    obtain c3 where "parse_slow nt sk l (zero_ctx nt) = (Inr (), c3)" "pc_l4proto c1 = pc_l4proto c3"
      using parse_sim[OF assms(1), of nt l c] parse_packet_ok(1)[OF p]
      by (cases "parse_slow nt sk l (zero_ctx nt)") (auto simp: result_sim_def)
    then show "pp_l4proto pkt \<in> {IPPROTO_TCP, IPPROTO_UDP}
           \<and> l4proto (five (pp_tuples pkt)) = pp_l4proto pkt \<and> pp_incarnation pkt = 0"
      using parse_slow_l4[of nt sk l "zero_ctx nt" c3] parse_packet_ok[OF p] by auto
  qed
qed

theorem parse_packet_verdicts_witness:
  "let r = parse_packet wire_types udp6_skb 0 (zero_ctx wire_types) (zero_pkt wire_types)
   in fst r = 0 \<and> pp_l4proto (fst (snd r)) \<in> {IPPROTO_TCP, IPPROTO_UDP}"
proof -
  let ?r = "parse_packet wire_types udp6_skb 0 (zero_ctx wire_types) (zero_pkt wire_types)"
  have h: "heads_in_range udp6_skb" and r: "fst ?r = 0" by code_simp+
  have "?r = (fst ?r, fst (snd ?r), fst (snd (snd ?r)), snd (snd (snd ?r)))" by simp
  from parse_packet_verdicts[OF h this] r show ?thesis by (simp add: Let_def)
qed

end
