(* ===== verification/Tcp_Conntrack.thy ===== *)
theory Tcp_Conntrack
  imports Udp_Conntrack Transport
begin

text \<open>
  TCP connection tracking (\<open>contrack/tcp.rs\<close>), the age test of auxiliary metadata it relies on
  (\<open>auxiliary.rs\<close>) and the ownership proof of accepted children (\<open>tcp_binding.rs\<close>).
\<close>

definition TCP_CONN_STATE_UPDATE_INTERVAL_NS :: u64 where
  [rust_consts]: "TCP_CONN_STATE_UPDATE_INTERVAL_NS = 1000000000"
definition EEXIST :: int where [rust_consts]: "EEXIST = 17"

definition is_new_tcp_connection :: "tcp_hdr \<Rightarrow> bool" where
  "is_new_tcp_connection tcph \<longleftrightarrow> tcp_syn tcph \<noteq> 0 \<and> tcp_ack tcph = 0"

definition auxiliary_expired :: "env \<Rightarrow> tuples_key \<Rightarrow> u64 \<Rightarrow> u64 \<Rightarrow> bool \<Rightarrow> dp \<Rightarrow> bool \<times> dp" where
  "auxiliary_expired e key incarnation elapsed_ns handoff s =
     (let old = elapsed_ns > (if handoff then ROUTING_HANDOFF_TIMEOUT_NS else REDIRECT_TRACK_TIMEOUT_NS);
          expired = old \<and> \<not> (\<not> handoff \<and> l4proto key = IPPROTO_TCP \<and> tcp_live_pinned s incarnation)
      in (expired, if expired then send_flow_expired e key incarnation s else s))"

section \<open>Ownership proof of accepted children\<close>

definition same_tuple :: "tuples_key \<Rightarrow> tuples_key \<Rightarrow> bool" where
  "same_tuple left right \<longleftrightarrow>
     src_ip left = src_ip right \<and> dst_ip left = dst_ip right
     \<and> src_port left = src_port right \<and> dst_port left = dst_port right
     \<and> l4proto left = l4proto right"

definition valid_proof ::
  "env \<Rightarrow> tcp_socket_binding \<Rightarrow> tuples_key \<Rightarrow> u32 \<Rightarrow> dp \<Rightarrow> bool \<times> dp"
where
  "valid_proof e binding tuples isn s =
     (let (now, s1) = bpf_ktime_get_ns e s;
          incarnation = he_incarnation (tb_handoff binding);
          seen = he_last_seen_ns (tb_handoff binding) in
      if tb_kind binding \<noteq> TCP_BINDING_CHILD
         \<or> \<not> same_tuple (tb_tuples binding) tuples
         \<or> tb_syn_isn binding \<noteq> isn
         \<or> now < seen
         \<or> now - seen > TCP_CONN_STATE_ESTABLISHED_TIMEOUT_NS
         \<or> incarnation = 0
         \<or> tuple_retiring s1 tuples
      then (False, s1)
      else case CONN_STATE_MAP s1 tuples of
        None \<Rightarrow> (False, s1)
      | Some state \<Rightarrow>
          (cs_incarnation state = incarnation
           \<and> tcp_syn_isn state = isn
           \<and> tcp_syn_flags state AND TCP_SYN_ORIGINAL_INTERCEPT \<noteq> 0
           \<and> \<not> tuple_retiring s1 tuples
           \<and> handoff_incarnation s1 tuples = Some incarnation
           \<and> redirect_incarnation s1 (from_tuples tuples) = Some incarnation, s1))"

definition SYN_OWNER_ABSENT :: u64 where [rust_consts]: "SYN_OWNER_ABSENT = 0"
definition SYN_OWNER_FRESH :: u64 where [rust_consts]: "SYN_OWNER_FRESH = - 2"
definition SYN_OWNER_REFUSE :: u64 where [rust_consts]: "SYN_OWNER_REFUSE = - 1"

definition inspect_syn_owner :: "env \<Rightarrow> tcp_sock \<Rightarrow> tuples_key \<Rightarrow> u32 \<Rightarrow> dp \<Rightarrow> u64 \<times> dp" where
  "inspect_syn_owner e sk tuples isn s =
     (if sk_state sk = 6 then (SYN_OWNER_FRESH, s)
      else if sk_state sk = 10 \<or> sk_state sk = 12 then (SYN_OWNER_ABSENT, s)
      else if \<not> sk_full sk then (SYN_OWNER_REFUSE, s)
      else case sk_binding sk of
        None \<Rightarrow> (SYN_OWNER_REFUSE, s)
      | Some binding \<Rightarrow>
          if tb_kind binding \<noteq> TCP_BINDING_CHILD then (SYN_OWNER_REFUSE, s)
          else if tb_syn_isn binding \<noteq> isn then (SYN_OWNER_FRESH, s)
          else
            let (ok, s1) = valid_proof e binding tuples isn s in
            if \<not> ok then (SYN_OWNER_REFUSE, s1)
            else (he_incarnation (tb_handoff binding), s1))"

definition native_syn_owner :: "env \<Rightarrow> tuples_key \<Rightarrow> u32 \<Rightarrow> dp \<Rightarrow> u64 \<times> dp" where
  "native_syn_owner e tuples isn s =
     (if tcp_daens_netns_id (param e) < 0 \<or> tuple_retiring s tuples then (SYN_OWNER_REFUSE, s)
      else case skc_lookup_tcp e (is_v4_mapped (src_ip tuples)) tuples of
        None \<Rightarrow> (SYN_OWNER_ABSENT, s)
      | Some sk \<Rightarrow> inspect_syn_owner e sk tuples isn s)"

text \<open>
  The sock-ops context as \<open>bind_child\<close> reads it; network-order fields are after
  \<open>from_be\<close>. \<open>so_create_ok\<close> says whether the kernel can create socket storage; creation keeps a
  binding that already exists.
\<close>

record sock_ops =
  so_passive_established :: bool
  so_netns_cookie :: u64
  so_has_sk :: bool
  so_family :: u32
  so_remote_ip4 :: u32
  so_local_ip4 :: u32
  so_remote_ip6 :: in6_addr
  so_local_ip6 :: in6_addr
  so_remote_port :: u16
  so_local_port :: u32
  so_rcv_nxt :: u32
  so_create_ok :: bool

definition AF_INET :: u32 where [rust_consts]: "AF_INET = 2"
definition AF_INET6 :: u32 where [rust_consts]: "AF_INET6 = 10"

definition sock_ops_key :: "sock_ops \<Rightarrow> tuples_key option" where
  "sock_ops_key ops =
     (let key = \<lparr>src_ip = In6Addr_zero, dst_ip = In6Addr_zero, src_port = so_remote_port ops,
                 dst_port = as_u16 (so_local_port ops), l4proto = IPPROTO_TCP\<rparr> in
      if so_family ops = AF_INET
      then Some (key\<lparr>src_ip := from_ipv4_mapped (so_remote_ip4 ops),
                     dst_ip := from_ipv4_mapped (so_local_ip4 ops)\<rparr>)
      else if so_family ops = AF_INET6
      then Some (key\<lparr>src_ip := so_remote_ip6 ops, dst_ip := so_local_ip6 ops\<rparr>)
      else None)"

definition bind_child ::
  "env \<Rightarrow> u64 \<Rightarrow> sock_ops \<Rightarrow> tcp_socket_binding option \<Rightarrow> dp \<Rightarrow> tcp_socket_binding option \<times> dp"
where
  "bind_child e owned ops storage s =
     (if owned = 0 \<or> so_netns_cookie ops \<noteq> owned then (storage, s)
      else if \<not> so_has_sk ops then (storage, s)
      else case sock_ops_key ops of
        None \<Rightarrow> (storage, s)
      | Some key \<Rightarrow>
          (case ROUTING_HANDOFF_MAP s key of
             None \<Rightarrow> (storage, s)
           | Some handoff \<Rightarrow>
               let isn = so_rcv_nxt ops - 1;
                   binding = \<lparr>tb_tuples = key, tb_handoff = handoff, tb_kind = TCP_BINDING_CHILD,
                              tb_syn_isn = isn\<rparr>;
                   (ok, s1) = valid_proof e binding key isn s in
               if \<not> ok then (storage, s1)
               else case storage of
                 Some b \<Rightarrow> (Some b, s1)
               | None \<Rightarrow>
                   if so_create_ok ops then (Some binding, s1)
                   else (None, increment_bpf_stat TcpChildProofStorageFailure s1)))"

definition honk_tcp_passive ::
  "env \<Rightarrow> u64 \<Rightarrow> sock_ops \<Rightarrow> tcp_socket_binding option \<Rightarrow> dp
   \<Rightarrow> u32 \<times> tcp_socket_binding option \<times> dp"
where
  "honk_tcp_passive e owned ops storage s =
     (if so_passive_established ops then (1, bind_child e owned ops storage s)
      else (1, storage, s))"

section \<open>The SYN publisher\<close>

datatype tcp_syn_kind = NonSyn | Fresh | Cached

record tcp_publisher =
  tp_key :: tuples_key
  tp_incarnation :: u64
  tp_expected_incarnation :: u64
  tp_syn :: tcp_syn_kind
  tp_claimed :: bool

definition TcpPublisher_new :: "tuples_key \<Rightarrow> tcp_publisher" where
  "TcpPublisher_new key = \<lparr>tp_key = key, tp_incarnation = 0, tp_expected_incarnation = 0,
                            tp_syn = NonSyn, tp_claimed = False\<rparr>"

definition publisher_claim :: "env \<Rightarrow> tcp_publisher \<Rightarrow> dp \<Rightarrow> bool \<times> tcp_publisher \<times> dp" where
  "publisher_claim e p s =
     (let key = tp_key p in
      if tp_claimed p \<or> tuple_retiring s key then (False, p, s)
      else
        let err = (if TCP_PUBLISHING s key \<noteq> None then Some (- EEXIST) else publishing_errno e key) in
        case err of
          Some error \<Rightarrow>
            (False, p, if error \<noteq> - EEXIST then increment_bpf_stat TcpPublisherClaimFailure s else s)
        | None \<Rightarrow>
            let s1 = s\<lparr>TCP_PUBLISHING := (TCP_PUBLISHING s)(key \<mapsto> 0)\<rparr> in
            (True, p\<lparr>tp_claimed := True,
                      tp_expected_incarnation := (case conn_incarnation s1 key of Some i \<Rightarrow> i | None \<Rightarrow> 0)\<rparr>, s1))"

definition select_fresh :: "tcp_publisher \<Rightarrow> dp \<Rightarrow> bool \<times> tcp_publisher \<times> dp" where
  "select_fresh p s =
     (case allocate_flow_incarnation s of
        (None, s1) \<Rightarrow> (False, p, s1)
      | (Some incarnation, s1) \<Rightarrow>
          (case TCP_PUBLISHING s1 (tp_key p) of
             None \<Rightarrow> (False, p, s1)
           | Some _ \<Rightarrow>
               (True, p\<lparr>tp_incarnation := incarnation, tp_syn := Fresh\<rparr>,
                s1\<lparr>TCP_PUBLISHING := (TCP_PUBLISHING s1)(tp_key p \<mapsto> incarnation)\<rparr>)))"

definition is_fresh :: "tcp_publisher \<Rightarrow> bool" where
  "is_fresh p \<longleftrightarrow> tp_syn p = Fresh"

datatype publication = PubValid | PubStale | PubMissing

definition pending_syn_publication :: "env \<Rightarrow> tuples_key \<Rightarrow> u64 \<Rightarrow> dp \<Rightarrow> publication \<times> dp" where
  "pending_syn_publication e key incarnation s =
     (if tuple_retiring s key then (PubMissing, s)
      else case (handoff_identity s key, redirect_identity s (from_tuples key)) of
        (Some handoff, Some redirect) \<Rightarrow>
          let (now, s1) = bpf_ktime_get_ns e s in
          if incarnation = 0
             \<or> ai_incarnation handoff \<noteq> incarnation
             \<or> ai_incarnation redirect \<noteq> incarnation
             \<or> ai_decision_token handoff \<noteq> 0
             \<or> ai_decision_token redirect \<noteq> 0
             \<or> now < ai_last_seen_ns handoff
             \<or> now < ai_last_seen_ns redirect
          then (PubMissing, s1)
          else
            let (stale1, s2) = auxiliary_expired e key incarnation (now - ai_last_seen_ns handoff) True s1 in
            if stale1 then (PubStale, s2)
            else
              let (stale2, s3) =
                auxiliary_expired e key incarnation (now - ai_last_seen_ns redirect) False s2
              in (if stale2 then PubStale else PubValid, s3)
      | _ \<Rightarrow> (PubMissing, s))"

definition publisher_acquire :: "env \<Rightarrow> tcp_hdr \<Rightarrow> tcp_publisher \<Rightarrow> dp \<Rightarrow> bool \<times> tcp_publisher \<times> dp" where
  "publisher_acquire e tcph p s =
     (if \<not> is_new_tcp_connection tcph \<or> tcp_daens_netns_id (param e) < 0 then (False, p, s)
      else case publisher_claim e p s of
        (False, p1, s1) \<Rightarrow> (False, p1, s1)
      | (True, p1, s1) \<Rightarrow>
          (case tcp_syn_state s1 (tp_key p1) of
             None \<Rightarrow> select_fresh p1 s1
           | Some state \<Rightarrow>
               if ts_incarnation state \<noteq> tp_expected_incarnation p1 then (False, p1, s1)
               else if \<not> ts_published state \<or> ts_syn_flags state AND TCP_SYN_ORIGINAL_INTERCEPT = 0
               then select_fresh p1 s1
               else
                 let isn = tcp_seq tcph;
                     (owner, s2) = native_syn_owner e (tp_key p1) isn s1 in
                 if owner = SYN_OWNER_REFUSE then (False, p1, s2)
                 else if owner = SYN_OWNER_FRESH then select_fresh p1 s2
                 else if owner = SYN_OWNER_ABSENT then
                   (if ts_syn_isn state \<noteq> isn \<or> ts_state state \<noteq> tcp_state_u8 TcpStateActive
                       \<or> tcp_live_pinned s2 (ts_incarnation state)
                    then select_fresh p1 s2
                    else case pending_syn_publication e (tp_key p1) (ts_incarnation state) s2 of
                      (PubMissing, s3) \<Rightarrow> (False, p1, s3)
                    | (PubStale, s3) \<Rightarrow> select_fresh p1 s3
                    | (PubValid, s3) \<Rightarrow>
                        (True, p1\<lparr>tp_incarnation := ts_incarnation state, tp_syn := Cached\<rparr>, s3))
                 else if ts_incarnation state \<noteq> owner \<or> ts_syn_isn state \<noteq> isn then (False, p1, s2)
                 else (True, p1\<lparr>tp_incarnation := owner, tp_syn := Cached\<rparr>, s2)))"

definition publisher_drop :: "tcp_publisher \<Rightarrow> dp \<Rightarrow> dp" where
  "publisher_drop p s =
     (if \<not> tp_claimed p then s
      else
        let claim = (if is_fresh p then tp_incarnation p else 0) in
        if TCP_PUBLISHING s (tp_key p) = Some claim
        then s\<lparr>TCP_PUBLISHING := remove_key (tp_key p) (TCP_PUBLISHING s)\<rparr>
        else s)"

section \<open>Connection entries\<close>

definition update_tcp_locked :: "conntrack_args \<Rightarrow> u64 \<Rightarrow> bool \<Rightarrow> conn_state \<Rightarrow> conn_state" where
  "update_tcp_locked args now fin_rst state =
     (let c1 = (if saturating_sub now (cs_last_seen_ns state) > TCP_CONN_STATE_UPDATE_INTERVAL_NS
                then state\<lparr>cs_last_seen_ns := now\<rparr> else state);
          c2 = (if fin_rst then c1\<lparr>cs_state := tcp_state_u8 TcpStateClosing\<rparr> else c1)
      in if has_routing args
         then c2\<lparr>cs_mac := (if has_mac args then ca_mac args else cs_mac c2),
                  cs_pname := (if has_pname args then ca_pname args else cs_pname c2),
                  cs_pid := ca_pid args, cs_trace_id := ca_trace_id args,
                  cs_meta := build_routing_meta (ca_outbound args) (ca_mark args) (ca_must args) (ca_dscp args)\<rparr>
         else c2)"

definition syn_owner_holds :: "conn_state \<Rightarrow> conntrack_args \<Rightarrow> tcp_syn_kind \<Rightarrow> bool" where
  "syn_owner_holds state args syn \<longleftrightarrow>
     syn = NonSyn
     \<or> (cs_incarnation state = ca_incarnation args
        \<and> tcp_syn_isn state = ca_tcp_syn_isn args
        \<and> tcp_syn_flags state AND TCP_SYN_ORIGINAL_INTERCEPT \<noteq> 0)"

definition observe_tcp ::
  "env \<Rightarrow> tuples_key \<Rightarrow> conntrack_args \<Rightarrow> u64 \<Rightarrow> bool \<Rightarrow> tcp_syn_kind \<Rightarrow> dp \<Rightarrow> conn_state option \<times> dp"
where
  "observe_tcp e key args now fin_rst syn s =
     (case CONN_STATE_MAP s key of
        None \<Rightarrow> (None, s)
      | Some state \<Rightarrow>
          if \<not> syn_owner_holds state args syn then (None, s)
          else
            let expired = tcp_conn_state_expired (cs_state state)
                            (saturating_sub now (cs_last_seen_ns state));
                state1 = (if \<not> expired then update_tcp_locked args now fin_rst state else state);
                s1 = s\<lparr>CONN_STATE_MAP := (CONN_STATE_MAP s)(key \<mapsto> state1)\<rparr>;
                incarnation = cs_incarnation state1 in
            if expired then
              (if \<not> tcp_live_pinned s1 incarnation
               then (None, send_flow_expired e key incarnation s1)
               else case CONN_STATE_MAP s1 key of
                 None \<Rightarrow> (None, s1)
               | Some state2 \<Rightarrow>
                   if cs_incarnation state2 = incarnation \<and> syn_owner_holds state2 args syn then
                     let state3 = update_tcp_locked args now fin_rst state2 in
                     (Some state3, s1\<lparr>CONN_STATE_MAP := (CONN_STATE_MAP s1)(key \<mapsto> state3)\<rparr>)
                   else (None, s1))
            else (Some state1, s1))"

definition publish_fresh_tcp ::
  "env \<Rightarrow> tuples_key \<Rightarrow> conntrack_args \<Rightarrow> u64 \<Rightarrow> u64 \<Rightarrow> dp \<Rightarrow> conn_state option \<times> dp"
where
  "publish_fresh_tcp e key args now expected_incarnation s =
     (let incarnation = ca_incarnation args in
      if incarnation = 0 \<or> TCP_PUBLISHING s key \<noteq> Some incarnation then (None, s)
      else
        let n0 = zero_conn\<lparr>cs_incarnation := incarnation, tcp_syn_isn := ca_tcp_syn_isn args,
                   cs_state := tcp_state_u8 TcpStateActive, cs_last_seen_ns := now,
                   cs_pid := ca_pid args,
                   cs_trace_id := (if has_routing args then ca_trace_id args
                                   else if CONN_STATE_MAP s key \<noteq> None then - 1 else 0)\<rparr>;
            n1 = (if has_routing args then update_tcp_locked args now False n0 else n0) in
        case CONN_STATE_MAP s key of
          Some current \<Rightarrow>
            if cs_incarnation current = expected_incarnation
            then (Some n1, s\<lparr>CONN_STATE_MAP := (CONN_STATE_MAP s)(key \<mapsto> n1)\<rparr>)
            else (None, s)
        | None \<Rightarrow>
            if expected_incarnation \<noteq> 0 then (None, s)
            else
              let (ok, m) = insert_noexist (conn_room e key) key n1 (CONN_STATE_MAP s) in
              if ok then (Some n1, occupancy_add (s\<lparr>CONN_STATE_MAP := m\<rparr>))
              else
                let s1 = increment_bpf_stat TcpConnOverflow s;
                    (_, s2) = send_dae_event e EvTcpConnOverflow (ca_pid args)
                      (if has_pname args then Some (ca_pname args) else None) 0 (l4proto key)
                      (Some (src_ip key)) (Some (dst_ip key)) (src_port key) (dst_port key) s1
                in (None, s2))"

definition mark_tcp_seen_args ::
  "env \<Rightarrow> tuples_key \<Rightarrow> tcp_syn_kind \<Rightarrow> bool \<Rightarrow> conntrack_args \<Rightarrow> u64 \<Rightarrow> dp \<Rightarrow> conn_state option \<times> dp"
where
  "mark_tcp_seen_args e key syn fin_rst args expected_incarnation s =
     (if tuple_retiring s key then (None, s)
      else
        let (now, s1) = bpf_ktime_get_ns e s in
        case syn of
          Fresh \<Rightarrow> publish_fresh_tcp e key args now expected_incarnation s1
        | _ \<Rightarrow> observe_tcp e key args now fin_rst syn s1)"

definition publish_tcp_routing :: "tuples_key \<Rightarrow> conn_state \<Rightarrow> dp \<Rightarrow> bool \<times> dp" where
  "publish_tcp_routing key snap s =
     (if tuple_retiring s key \<or> cs_incarnation snap = 0
         \<or> TCP_PUBLISHING s key \<noteq> Some (cs_incarnation snap)
      then (False, s)
      else case CONN_STATE_MAP s key of
        None \<Rightarrow> (False, s)
      | Some current \<Rightarrow>
          if cs_incarnation current = cs_incarnation snap
          then (True, s\<lparr>CONN_STATE_MAP := (CONN_STATE_MAP s)(key \<mapsto>
                 current\<lparr>cs_meta := cs_meta snap, cs_trace_id := cs_trace_id snap,
                          cs_mac := cs_mac snap\<rparr>)\<rparr>)
          else (False, s))"

definition commit_tcp_intercept :: "tuples_key \<Rightarrow> u32 \<Rightarrow> u64 \<Rightarrow> dp \<Rightarrow> bool \<times> dp" where
  "commit_tcp_intercept key syn_isn incarnation s =
     (if l4proto key \<noteq> IPPROTO_TCP \<or> incarnation = 0 \<or> tuple_retiring s key
         \<or> TCP_PUBLISHING s key \<noteq> Some incarnation
      then (False, s)
      else case (handoff_identity s key, redirect_identity s (from_tuples key)) of
        (Some handoff, Some redirect) \<Rightarrow>
          if ai_incarnation handoff \<noteq> incarnation \<or> ai_incarnation redirect \<noteq> incarnation
             \<or> ai_decision_token handoff \<noteq> 0 \<or> ai_decision_token redirect \<noteq> 0
          then (False, s)
          else (case CONN_STATE_MAP s key of
            None \<Rightarrow> (False, s)
          | Some current \<Rightarrow>
              if cs_incarnation current = incarnation \<and> tcp_syn_isn current = syn_isn
                 \<and> tcp_syn_flags current = 0 \<and> cs_meta current AND ROUTING_META_FLAG_PUBLISHED \<noteq> 0
              then (True, s\<lparr>CONN_STATE_MAP := (CONN_STATE_MAP s)(key \<mapsto>
                     current\<lparr>tcp_syn_flags := TCP_SYN_ORIGINAL_INTERCEPT\<rparr>)\<rparr>)
              else (False, s))
      | _ \<Rightarrow> (False, s))"

definition mark_tcp_seen ::
  "env \<Rightarrow> tuples_key \<Rightarrow> tcp_hdr \<Rightarrow> u8 option \<Rightarrow> u32 option \<Rightarrow> u8 option \<Rightarrow> u8 list option \<Rightarrow> u8
   \<Rightarrow> u8 list option \<Rightarrow> u32 \<Rightarrow> u32 \<Rightarrow> tcp_publisher \<Rightarrow> dp \<Rightarrow> conn_state option \<times> dp"
where
  "mark_tcp_seen e key tcph outbound mark must mac dscp pname pid trace_id p s =
     (let routing = (case (outbound, mark, must) of
                       (Some ob, Some mk, Some ms) \<Rightarrow> Some (ob, mk, ms)
                     | _ \<Rightarrow> None);
          args = (set_args dscp pid routing mac pname)\<lparr>ca_trace_id := trace_id\<rparr> in
      if is_new_tcp_connection tcph = (tp_syn p = NonSyn) then (None, s)
      else if tp_syn p \<noteq> NonSyn \<and> \<not> is_fresh p \<and> has_routing args then (None, s)
      else
        let args1 = (if tp_syn p \<noteq> NonSyn
                     then args\<lparr>ca_incarnation := tp_incarnation p, ca_tcp_syn_isn := tcp_seq tcph\<rparr>
                     else args);
            expected = (if tp_syn p \<noteq> NonSyn then tp_expected_incarnation p else 0)
        in mark_tcp_seen_args e key (tp_syn p) (tcp_fin tcph \<noteq> 0 \<or> tcp_rst tcph \<noteq> 0) args1 expected s)"

end
