(* ===== verification/Auxiliary.thy ===== *)
theory Auxiliary
  imports Tcp_Conntrack
begin

text \<open>
  Publication and refresh of the tuple-owned auxiliary maps (\<open>auxiliary.rs\<close>): the redirect
  entries the reply path needs and the hand-off entries userspace reads. The error values are
  the negative codes of the source; \<open>UdpDecisionScratch\<close> is the record of what one invocation
  prepares before it publishes.
\<close>

definition IDENTITY_MISMATCH :: int where [rust_consts]: "IDENTITY_MISMATCH = - 2"
definition AUXILIARY_MAP_REFRESH_INTERVAL_NS :: u64 where
  [rust_consts]: "AUXILIARY_MAP_REFRESH_INTERVAL_NS = 1000000000"

definition stateless_publication :: "tuples_key \<Rightarrow> u32 \<Rightarrow> u64 \<Rightarrow> bool" where
  "stateless_publication key token incarnation \<longleftrightarrow>
     token = 0 \<and> incarnation = 0 \<and> is_short_lived_udp_traffic key"

text \<open>The key is projected to the client side: destination zeroed, owner fields cleared.\<close>

definition publish_client_reply :: "env \<Rightarrow> tuples_key \<Rightarrow> redirect_tuple \<Rightarrow> redirect_entry \<Rightarrow> dp \<Rightarrow> dp" where
  "publish_client_reply e key rkey redirect s =
     (if l4proto key \<noteq> IPPROTO_UDP \<or> dst_port key = 53 \<or> re_from_wan redirect \<noteq> 0 then s
      else if lru_update_ok e then
        s\<lparr>CLIENT_REPLY_TRACK := lru_insert (reply_evicted e)
            (rkey\<lparr>rt_dst_ip := In6Addr_zero, rt_dst_port := 0\<rparr>)
            (redirect\<lparr>re_decision_token := 0, re_incarnation := 0\<rparr>) (CLIENT_REPLY_TRACK s)\<rparr>
      else s)"

section \<open>Redirect entries\<close>

definition touch_redirect ::
  "env \<Rightarrow> tuples_key \<Rightarrow> redirect_tuple \<Rightarrow> auxiliary_identity \<Rightarrow> u64 \<Rightarrow> dp \<Rightarrow> (int + unit) \<times> dp"
where
  "touch_redirect e key rkey snap now s =
     (let age = saturating_sub now (ai_last_seen_ns snap);
          (expired, s1) = auxiliary_expired e key (ai_incarnation snap) age False s in
      if expired then (Inl IDENTITY_MISMATCH, s1)
      else if age < AUXILIARY_MAP_REFRESH_INTERVAL_NS then (Inr (), s1)
      else
        let scratch = (l4proto key = IPPROTO_UDP \<and> dst_port key \<noteq> 53) in
        case REDIRECT_TRACK s1 rkey of
          None \<Rightarrow> (Inl IDENTITY_MISMATCH, s1)
        | Some current \<Rightarrow>
            let owned = (re_incarnation current = ai_incarnation snap
                         \<and> re_decision_token current = ai_decision_token snap);
                refreshed = (owned \<and> saturating_sub now (re_last_seen_ns current)
                                      \<ge> AUXILIARY_MAP_REFRESH_INTERVAL_NS);
                renew_client = (refreshed \<and> re_from_wan current = 0);
                current1 = (if refreshed then current\<lparr>re_last_seen_ns := now\<rparr> else current);
                s2 = s1\<lparr>REDIRECT_TRACK := (REDIRECT_TRACK s1)(rkey \<mapsto> current1)\<rparr>;
                s3 = (if renew_client \<and> scratch then publish_client_reply e key rkey current1 s2 else s2)
            in (if owned then Inr () else Inl IDENTITY_MISMATCH, s3))"

definition refresh_redirect ::
  "env \<Rightarrow> tuples_key \<Rightarrow> redirect_tuple \<Rightarrow> u32 \<Rightarrow> u64 \<Rightarrow> u64 \<Rightarrow> dp \<Rightarrow> (int + bool) \<times> dp"
where
  "refresh_redirect e key rkey token incarnation now s =
     (if tuple_retiring s key then (Inl IDENTITY_MISMATCH, s)
      else if stateless_publication key token incarnation then (Inr False, s)
      else case redirect_identity s rkey of
        None \<Rightarrow> (Inr False, s)
      | Some snap \<Rightarrow>
          if ai_decision_token snap \<noteq> token \<or> ai_incarnation snap \<noteq> incarnation
          then (Inl IDENTITY_MISMATCH, s)
          else case touch_redirect e key rkey snap now s of
            (Inl err, s1) \<Rightarrow> (Inl err, s1)
          | (Inr (), s1) \<Rightarrow> (Inr True, s1))"

definition reverse_redirect ::
  "env \<Rightarrow> tuples_key \<Rightarrow> redirect_tuple \<Rightarrow> u64 \<Rightarrow> dp \<Rightarrow> (int + redirect_entry option) \<times> dp"
where
  "reverse_redirect e key rkey now s =
     (if tuple_retiring s key then (Inl IDENTITY_MISMATCH, s)
      else case REDIRECT_TRACK s rkey of
        None \<Rightarrow> (Inr None, s)
      | Some snap \<Rightarrow>
          (case touch_redirect e key rkey
                  \<lparr>ai_incarnation = re_incarnation snap, ai_last_seen_ns = re_last_seen_ns snap,
                   ai_decision_token = re_decision_token snap\<rparr> now s of
             (Inl err, s1) \<Rightarrow> (Inl err, s1)
           | (Inr (), s1) \<Rightarrow> (Inr (Some snap), s1)))"

section \<open>Hand-off entries\<close>

definition refresh_handoff ::
  "tuples_key \<Rightarrow> u32 \<Rightarrow> u64 \<Rightarrow> u64 \<Rightarrow> dp \<Rightarrow> (int + bool) \<times> dp"
where
  "refresh_handoff key token incarnation now s =
     (if tuple_retiring s key then (Inl IDENTITY_MISMATCH, s)
      else if stateless_publication key token incarnation then (Inr False, s)
      else case handoff_identity s key of
        None \<Rightarrow> (Inr False, s)
      | Some snap \<Rightarrow>
          if ai_decision_token snap \<noteq> token \<or> ai_incarnation snap \<noteq> incarnation
          then (Inl IDENTITY_MISMATCH, s)
          else if saturating_sub now (ai_last_seen_ns snap) < AUXILIARY_MAP_REFRESH_INTERVAL_NS
          then (Inr True, s)
          else case ROUTING_HANDOFF_MAP s key of
            None \<Rightarrow> (Inl IDENTITY_MISMATCH, s)
          | Some current \<Rightarrow>
              let owned = (he_incarnation current = ai_incarnation snap
                           \<and> rr_decision_token (he_result current) = ai_decision_token snap);
                  current1 = (if owned \<and> saturating_sub now (he_last_seen_ns current)
                                           \<ge> AUXILIARY_MAP_REFRESH_INTERVAL_NS
                              then current\<lparr>he_last_seen_ns := now\<rparr> else current)
              in (if owned then Inr True else Inl IDENTITY_MISMATCH,
                  s\<lparr>ROUTING_HANDOFF_MAP := (ROUTING_HANDOFF_MAP s)(key \<mapsto> current1)\<rparr>))"

definition syn_publisher :: "dp \<Rightarrow> tuples_key \<Rightarrow> u64 \<Rightarrow> bool" where
  "syn_publisher s key incarnation \<longleftrightarrow>
     l4proto key = IPPROTO_TCP \<and> incarnation \<noteq> 0
     \<and> TCP_PUBLISHING s key = Some incarnation
     \<and> conn_incarnation s key = Some incarnation"

section \<open>Publication\<close>

text \<open>The prepared entry and its key are arguments; a stateless refresh younger than one second
  keeps the old time stamp.\<close>

definition publish_redirect ::
  "env \<Rightarrow> tuples_key \<Rightarrow> redirect_tuple \<Rightarrow> redirect_entry \<Rightarrow> bool \<Rightarrow> dp \<Rightarrow> (int + unit) \<times> dp"
where
  "publish_redirect e key rkey redirect replace s =
     (if tuple_retiring s key then (Inl IDENTITY_MISMATCH, s)
      else if stateless_publication key (re_decision_token redirect) (re_incarnation redirect)
              \<and> REDIRECT_TRACK s rkey \<noteq> None then
        (case REDIRECT_TRACK s rkey of
           None \<Rightarrow> (Inl IDENTITY_MISMATCH, s)
         | Some current \<Rightarrow>
             if re_incarnation current = 0 \<and> re_decision_token current = 0 then
               let refreshed = (saturating_sub (re_last_seen_ns redirect) (re_last_seen_ns current)
                                \<ge> AUXILIARY_MAP_REFRESH_INTERVAL_NS);
                   redirect1 = (if refreshed then redirect
                                else redirect\<lparr>re_last_seen_ns := re_last_seen_ns current\<rparr>);
                   s1 = s\<lparr>REDIRECT_TRACK := (REDIRECT_TRACK s)(rkey \<mapsto> redirect1)\<rparr>
               in (Inr (), if refreshed then publish_client_reply e key rkey redirect1 s1 else s1)
             else (Inl IDENTITY_MISMATCH, s))
      else if replace \<and> \<not> syn_publisher s key (re_incarnation redirect)
      then (Inl IDENTITY_MISMATCH, s)
      else if replace \<and> redirect_identity s rkey \<noteq> None then
        (case (redirect_identity s rkey, REDIRECT_TRACK s rkey) of
           (Some snap, Some current) \<Rightarrow>
             if re_incarnation current = ai_incarnation snap
                \<and> re_decision_token current = ai_decision_token snap
             then (Inr (), s\<lparr>REDIRECT_TRACK := (REDIRECT_TRACK s)(rkey \<mapsto> redirect)\<rparr>)
             else (Inl IDENTITY_MISMATCH, s)
         | _ \<Rightarrow> (Inl IDENTITY_MISMATCH, s))
      else
        let (ok, m) = insert_noexist (redirect_room e rkey) rkey redirect (REDIRECT_TRACK s) in
        if \<not> ok then (Inl (- 1), increment_bpf_stat RedirectTrackInsertFailure s)
        else
          let s1 = s\<lparr>REDIRECT_TRACK := m, AUX_REDIRECT_INSERTS := AUX_REDIRECT_INSERTS s + 1\<rparr>
          in (Inr (), publish_client_reply e key rkey redirect s1))"

definition publish_handoff ::
  "env \<Rightarrow> tuples_key \<Rightarrow> routing_handoff_entry \<Rightarrow> bool \<Rightarrow> dp \<Rightarrow> (int + unit) \<times> dp"
where
  "publish_handoff e key handoff replace s =
     (if tuple_retiring s key then (Inl IDENTITY_MISMATCH, s)
      else if stateless_publication key (rr_decision_token (he_result handoff)) (he_incarnation handoff)
              \<and> ROUTING_HANDOFF_MAP s key \<noteq> None then
        (case ROUTING_HANDOFF_MAP s key of
           None \<Rightarrow> (Inl IDENTITY_MISMATCH, s)
         | Some current \<Rightarrow>
             if he_incarnation current = 0 \<and> rr_decision_token (he_result current) = 0
             then (Inr (), s\<lparr>ROUTING_HANDOFF_MAP := (ROUTING_HANDOFF_MAP s)(key \<mapsto> handoff)\<rparr>)
             else (Inl IDENTITY_MISMATCH, s))
      else if replace \<and> \<not> syn_publisher s key (he_incarnation handoff)
      then (Inl IDENTITY_MISMATCH, s)
      else if replace \<and> handoff_identity s key \<noteq> None then
        (case (handoff_identity s key, ROUTING_HANDOFF_MAP s key) of
           (Some snap, Some current) \<Rightarrow>
             if he_incarnation current = ai_incarnation snap
                \<and> rr_decision_token (he_result current) = ai_decision_token snap
             then (Inr (), s\<lparr>ROUTING_HANDOFF_MAP := (ROUTING_HANDOFF_MAP s)(key \<mapsto> handoff)\<rparr>)
             else (Inl IDENTITY_MISMATCH, s)
         | _ \<Rightarrow> (Inl IDENTITY_MISMATCH, s))
      else
        let (ok, m) = insert_noexist (handoff_room e key) key handoff (ROUTING_HANDOFF_MAP s) in
        if \<not> ok then (Inl (- 1), increment_bpf_stat RoutingHandoffInsertFailure s)
        else (Inr (), s\<lparr>ROUTING_HANDOFF_MAP := m, AUX_HANDOFF_INSERTS := AUX_HANDOFF_INSERTS s + 1\<rparr>))"

section \<open>How one packet may touch the auxiliary maps\<close>

datatype aux_prep = PrepPublish | PrepRefresh | PrepExisting | PrepRedirectOnly

definition AuxPrep_tcp :: "tcp_publisher \<Rightarrow> aux_prep" where
  "AuxPrep_tcp p =
     (if is_fresh p then PrepPublish
      else if tp_syn p = NonSyn then PrepRedirectOnly
      else PrepExisting)"

definition require_handoff :: "dp \<Rightarrow> tuples_key \<Rightarrow> u64 \<Rightarrow> int + unit" where
  "require_handoff s key incarnation =
     (if handoff_incarnation s key = Some incarnation then Inr () else Inl IDENTITY_MISMATCH)"

fun handoff_needs_publish ::
  "aux_prep \<Rightarrow> tuples_key \<Rightarrow> u32 \<Rightarrow> u64 \<Rightarrow> u64 \<Rightarrow> dp \<Rightarrow> (int + bool) \<times> dp"
where
  "handoff_needs_publish PrepPublish key token incarnation now s = (Inr True, s)"
| "handoff_needs_publish PrepRefresh key token incarnation now s =
     (let (r, s1) = refresh_handoff key token incarnation now s in
      (case r of Inl err \<Rightarrow> Inl err | Inr hit \<Rightarrow> Inr (\<not> hit), s1))"
| "handoff_needs_publish PrepExisting key token incarnation now s =
     (case require_handoff s key incarnation of Inl err \<Rightarrow> Inl err | Inr _ \<Rightarrow> Inr False, s)"
| "handoff_needs_publish PrepRedirectOnly key token incarnation now s = (Inr False, s)"

definition redirect_needs_publish ::
  "env \<Rightarrow> tuples_key \<Rightarrow> redirect_tuple \<Rightarrow> aux_prep \<Rightarrow> u32 \<Rightarrow> u64 \<Rightarrow> u64 \<Rightarrow> dp \<Rightarrow> (int + bool) \<times> dp"
where
  "redirect_needs_publish e key rkey prep token incarnation now s =
     (if prep = PrepPublish then (Inr True, s)
      else case refresh_redirect e key rkey token incarnation now s of
        (Inl err, s1) \<Rightarrow> (Inl err, s1)
      | (Inr True, s1) \<Rightarrow> (Inr False, s1)
      | (Inr False, s1) \<Rightarrow>
          if prep = PrepExisting then (Inl IDENTITY_MISMATCH, s1) else (Inr True, s1))"

section \<open>Preparing a packet for the control plane\<close>

text \<open>
  \<open>bpf_skb_store_bytes\<close> overwrites bytes of the packet, \<open>bpf_skb_change_head\<close> prepends room;
  \<open>change_head\<close> is the latter's return value. The packet's protocol field is written back as its
  two wire bytes.
\<close>

definition store_bytes :: "nat \<Rightarrow> u8 list \<Rightarrow> u8 list \<Rightarrow> u8 list" where
  "store_bytes off b bytes =
     (if off + length b \<le> length bytes then take off bytes @ b @ drop (off + length b) bytes else bytes)"

definition rewrite_link_header :: "env \<Rightarrow> int \<Rightarrow> nat \<Rightarrow> skb \<Rightarrow> int \<times> skb" where
  "rewrite_link_header e change_head link_h_len sk =
     (if link_h_len = 0 \<and> change_head \<noteq> 0 then (change_head, sk)
      else
        let sk1 = (if link_h_len = 0
                   then sk\<lparr>skb_bytes := store_bytes 6
                              (replicate 6 0 @ [as_u8 (drop_bit 8 (skb_protocol sk)), as_u8 (skb_protocol sk)])
                              (replicate 14 0 @ skb_bytes sk),
                            skb_len := skb_len sk + 14, skb_head := skb_head sk + 14,
                            network_offset := network_offset sk + 14\<rparr>
                   else sk)
        in (0, sk1\<lparr>skb_bytes := store_bytes 0 (dae0peer_mac (param e)) (skb_bytes sk1)\<rparr>))"

definition prep_redirect_to_control_plane ::
  "env \<Rightarrow> int \<Rightarrow> nat \<Rightarrow> tuples \<Rightarrow> eth_hdr \<Rightarrow> u8 \<Rightarrow> aux_prep \<Rightarrow> u8 \<Rightarrow> u32 \<Rightarrow> u64 \<Rightarrow> skb \<Rightarrow> dp
   \<Rightarrow> int \<times> skb \<times> dp"
where
  "prep_redirect_to_control_plane e change_head link_h_len tuples ethh from_wan mode outbound
     decision_token incarnation sk s =
     (if l4proto (five tuples) = IPPROTO_TCP \<and> tcp_daens_netns_id (param e) < 0
      then (IDENTITY_MISMATCH, sk, s)
      else if mode = PrepExisting \<and> isl (require_handoff s (five tuples) incarnation)
      then (IDENTITY_MISMATCH, sk, s)
      else
        let use_peer = (use_redirect_peer (param e) \<noteq> 0 \<and> from_wan = 0);
            (err, sk1) = (if use_peer then (0, sk) else rewrite_link_header e change_head link_h_len sk) in
        if err \<noteq> 0 then (err, sk1, s)
        else
          let rkey = from_tuples (five tuples);
              (now, s1) = bpf_ktime_get_ns e s in
          case redirect_needs_publish e (five tuples) rkey mode decision_token incarnation now s1 of
            (Inl error, s2) \<Rightarrow> (error, sk1, s2)
          | (Inr False, s2) \<Rightarrow> (0, sk1, s2)
          | (Inr True, s2) \<Rightarrow>
              let entry = \<lparr>re_last_seen_ns = now,
                    re_dmac = (if link_h_len = ETH_HLEN then eth_dst_addr ethh else replicate 6 0),
                    re_smac = (if link_h_len = ETH_HLEN then eth_src_addr ethh else replicate 6 0),
                    re_from_wan = from_wan, re_outbound = outbound, re_ifindex = skb_ifindex sk,
                    re_decision_token = decision_token, re_incarnation = incarnation\<rparr>
              in (case publish_redirect e (five tuples) rkey entry (mode = PrepPublish) s2 of
                    (Inr (), s3) \<Rightarrow> (0, sk1, s3)
                  | (Inl error, s3) \<Rightarrow> (error, sk1, s3)))"

end
