(* ===== verification/Process_Name.thy ===== *)
theory Process_Name
  imports Prelude
begin

text \<open>
  The bounded process-name normalizer of \<open>routing_policy.rs\<close> and the sixteen-step loop
  around it in \<open>honk-ebpf/src/route.rs\<close>. The input is the fixed sixteen-byte
  \<open>comm\<close>/\<open>argv0\<close> field; the output buffer has forty-eight bytes.
\<close>

definition TASK_COMM_LEN :: nat where [rust_consts]: "TASK_COMM_LEN = 16"
definition ROUTING_PROCESS_MAX_LEN :: nat where [rust_consts]: "ROUTING_PROCESS_MAX_LEN = 48"

section \<open>The normalizer\<close>

record normalizer =
  pos :: nat
  written :: nat
  trimmed :: nat

definition normalizer_default :: normalizer where
  "normalizer_default = \<lparr>pos = 0, written = 0, trimmed = 0\<rparr>"

definition normalized_len :: "normalizer \<Rightarrow> nat" where
  "normalized_len s = min (trimmed s) ROUTING_PROCESS_MAX_LEN"

text \<open>Offsets are masked to the field width, as the code does for the BPF verifier.\<close>

definition read_name_byte :: "u8 list \<Rightarrow> nat \<Rightarrow> u8" where
  "read_name_byte input offset = input ! (offset mod TASK_COMM_LEN)"

definition write_name_byte :: "nat \<Rightarrow> u8 \<Rightarrow> u8 list \<Rightarrow> u8 list" where
  "write_name_byte offset b output =
     (if offset < ROUTING_PROCESS_MAX_LEN then output[offset := b] else output)"

definition is_unicode_whitespace :: "u32 \<Rightarrow> bool" where
  "is_unicode_whitespace c =
     (if c < 0x80 then (0x09 \<le> c \<and> c \<le> 0x0D) \<or> c = 0x20
      else c = 0x85 \<or> c = 0xA0 \<or> c = 0x1680 \<or> (0x2000 \<le> c \<and> c \<le> 0x200A)
           \<or> c = 0x2028 \<or> c = 0x2029 \<or> c = 0x202F \<or> c = 0x205F \<or> c = 0x3000)"

definition utf8_width :: "u8 \<Rightarrow> nat option" where
  "utf8_width b =
     (if 0xC2 \<le> b \<and> b \<le> 0xDF then Some 2
      else if 0xE0 \<le> b \<and> b \<le> 0xEF then Some 3
      else if 0xF0 \<le> b \<and> b \<le> 0xF4 then Some 4
      else None)"

definition second_valid :: "u8 \<Rightarrow> u8 \<Rightarrow> bool" where
  "second_valid b c =
     (if b = 0xE0 then 0xA0 \<le> c \<and> c \<le> 0xBF
      else if b = 0xED then 0x80 \<le> c \<and> c \<le> 0x9F
      else if b = 0xF0 then 0x90 \<le> c \<and> c \<le> 0xBF
      else if b = 0xF4 then 0x80 \<le> c \<and> c \<le> 0x8F
      else c AND 0xC0 = 0x80)"

definition decode_lossy :: "u8 list \<Rightarrow> nat \<Rightarrow> nat \<Rightarrow> u32 \<times> nat" where
  "decode_lossy input p limit =
     (let first = read_name_byte input p in
      if first < 0x80 then (as_u32 first, 1)
      else case utf8_width first of
        None \<Rightarrow> (0xFFFD, 1)
      | Some width \<Rightarrow>
          if p + 1 \<ge> limit then (0xFFFD, limit - p)
          else let second = read_name_byte input (p + 1) in
          if \<not> second_valid first second then (0xFFFD, 1)
          else let c2 = push_bit 6 (as_u32 (first AND drop_bit width 0x7F))
                        OR as_u32 (second AND 0x3F) in
          if width = 2 then (c2, 2)
          else if p + 2 \<ge> limit then (0xFFFD, limit - p)
          else let third = read_name_byte input (p + 2) in
          if third AND 0xC0 \<noteq> 0x80 then (0xFFFD, 2)
          else let c3 = push_bit 6 c2 OR as_u32 (third AND 0x3F) in
          if width = 3 then (c3, 3)
          else if p + 3 \<ge> limit then (0xFFFD, limit - p)
          else let fourth = read_name_byte input (p + 3) in
          if fourth AND 0xC0 \<noteq> 0x80 then (0xFFFD, 3)
          else (push_bit 6 c3 OR as_u32 (fourth AND 0x3F), 4))"

text \<open>The bytes one code point stores at \<open>written\<close>.\<close>

definition store_codepoint :: "u8 list \<Rightarrow> nat \<Rightarrow> u32 \<Rightarrow> nat \<Rightarrow> nat \<Rightarrow> u8 list \<Rightarrow> u8 list" where
  "store_codepoint input p codepoint consumed w output =
     (if codepoint = 0xFFFD
      then write_name_byte (w + 2) 0xBD (write_name_byte (w + 1) 0xBF
             (write_name_byte w 0xEF output))
      else
        let o1 = write_name_byte w (read_name_byte input p) output;
            o2 = (if consumed > 1 then write_name_byte (w + 1) (read_name_byte input (p + 1)) o1 else o1);
            o3 = (if consumed > 2 then write_name_byte (w + 2) (read_name_byte input (p + 2)) o2 else o2)
        in if consumed > 3 then write_name_byte (w + 3) (read_name_byte input (p + 3)) o3 else o3)"

text \<open>\<open>advance\<close>: \<open>None\<close> is the return value \<open>false\<close>, which leaves state and output alone.\<close>

definition advance :: "u8 list \<Rightarrow> normalizer \<times> u8 list \<Rightarrow> (normalizer \<times> u8 list) option" where
  "advance input so =
     (let (s, output) = so;
          limit = min (length input) TASK_COMM_LEN in
      if pos s \<ge> limit \<or> written s > length output \<or> input ! pos s = 0 then None
      else
        let (codepoint, consumed) = decode_lossy input (pos s) limit;
            whitespace = is_unicode_whitespace codepoint in
        if written s \<noteq> 0 \<or> \<not> whitespace then
          let len = (if codepoint = 0xFFFD then 3 else consumed) in
          if written s + len > length output then None
          else
            let output' = store_codepoint input (pos s) codepoint consumed (written s) output;
                w' = written s + len in
            Some (s\<lparr>pos := pos s + consumed, written := w',
                     trimmed := (if \<not> whitespace then w' else trimmed s)\<rparr>, output')
        else Some (s\<lparr>pos := pos s + consumed\<rparr>, output))"

text \<open>\<open>normalize_process_name\<close> loops until \<open>advance\<close> returns \<open>false\<close>.\<close>

partial_function (option) normalize_loop ::
  "u8 list \<Rightarrow> normalizer \<times> u8 list \<Rightarrow> (normalizer \<times> u8 list) option"
where
  "normalize_loop input so =
     (case advance input so of None \<Rightarrow> Some so | Some so' \<Rightarrow> normalize_loop input so')"

definition normalize_process_name :: "u8 list \<Rightarrow> (nat \<times> u8 list) option" where
  "normalize_process_name input =
     map_option (\<lambda>(s, output). (normalized_len s, output))
       (normalize_loop input (normalizer_default, replicate ROUTING_PROCESS_MAX_LEN 0))"

text \<open>\<open>honk_normalize_process_name\<close>: at most sixteen steps, each a call of
  \<open>honk_normalize_process_step\<close>. Its arguments are pointers, \<open>None\<close> is null; the caller's buffer of
  48 bytes is cleared first. The second component of the result is the buffer afterwards. The null checks of
  the step function never apply, since the pointers are checked before the first step.\<close>

fun normalize_steps :: "nat \<Rightarrow> u8 list \<Rightarrow> normalizer \<times> u8 list \<Rightarrow> normalizer \<times> u8 list" where
  "normalize_steps 0 input so = so"
| "normalize_steps (Suc n) input so =
     (case advance input so of None \<Rightarrow> so | Some so' \<Rightarrow> normalize_steps n input so')"

definition honk_normalize_process_name :: "u8 list option \<Rightarrow> u8 list option \<Rightarrow> nat \<times> u8 list option" where
  "honk_normalize_process_name input output =
     (case (input, output) of
        (Some name, Some _) \<Rightarrow>
          let (s, out) = normalize_steps 16 name (normalizer_default, replicate ROUTING_PROCESS_MAX_LEN 0)
          in (normalized_len s, Some out)
      | _ \<Rightarrow> (0, output))"

section \<open>Both loops agree\<close>

lemma decode_consumes: "p < limit \<Longrightarrow> 0 < snd (decode_lossy input p limit)"
  by (auto simp: decode_lossy_def Let_def split: option.split)

lemma length_store_codepoint: "length (store_codepoint input p c n w output) = length output"
  by (simp add: store_codepoint_def write_name_byte_def Let_def)

lemma advance_progress:
  assumes "advance input (s, output) = Some (s', output')"
  shows "pos s < pos s'" "pos s < min (length input) TASK_COMM_LEN" "length output' = length output"
proof -
  let ?limit = "min (length input) TASK_COMM_LEN"
  obtain c n where d: "decode_lossy input (pos s) ?limit = (c, n)" by (cases "decode_lossy input (pos s) ?limit")
  have p: "pos s < ?limit" using assms by (auto simp: advance_def Let_def split: if_splits)
  have "0 < n" using decode_consumes[OF p, of input] d by simp
  then show "pos s < pos s'" "length output' = length output"
    using assms d by (auto simp: advance_def Let_def length_store_codepoint split: if_splits)
  show "pos s < ?limit" by (rule p)
qed

lemma loop_steps:
  "min (length input) TASK_COMM_LEN - pos (fst so) \<le> n \<Longrightarrow> normalize_loop input so = Some (normalize_steps n input so)"
proof (induction n arbitrary: so)
  case 0
  have "advance input so = None"
    using 0 advance_progress(2)[of input "fst so" "snd so"] by (cases "advance input so") (auto simp: not_less)
  then show ?case by (simp add: normalize_loop.simps)
next
  case (Suc n)
  show ?case
  proof (cases "advance input so")
    case None
    then show ?thesis by (simp add: normalize_loop.simps)
  next
    case (Some so')
    then have "pos (fst so) < pos (fst so')"
      using advance_progress(1)[of input "fst so" "snd so" "fst so'" "snd so'"] by simp
    then have "normalize_loop input so' = Some (normalize_steps n input so')" using Suc.prems by (intro Suc.IH) simp
    with Some show ?thesis by (simp add: normalize_loop.simps)
  qed
qed

lemma length_normalize_steps: "length (snd (normalize_steps n input so)) = length (snd so)"
proof (induction n arbitrary: so)
  case (Suc n)
  show ?case
    using Suc.IH advance_progress(3)[of input "fst so" "snd so"] by (cases "advance input so") auto
qed simp

lemma normalized_some:
  "\<exists>len out. honk_normalize_process_name (Some name) (Some buffer) = (len, Some out) \<and> length out = 48 \<and> len \<le> 48"
  using length_normalize_steps[of 16 name "(normalizer_default, replicate ROUTING_PROCESS_MAX_LEN 0)"]
  by (auto simp: honk_normalize_process_name_def normalized_len_def rust_consts split: prod.splits)

text \<open>C14. \<open>normalize_process_name\<close> terminates on every name, and the sixteen steps to which
  \<open>honk_normalize_process_name\<close> is bounded for the verifier cut nothing off: whatever its buffer held,
  it computes the same name, in a field of 48 bytes. With a null pointer it returns 0 and leaves
  the buffer alone.\<close>

theorem normalizer_terminates:
  "(\<exists>len out. normalize_process_name name = Some (len, out)
      \<and> (\<forall>buffer. honk_normalize_process_name (Some name) (Some buffer) = (len, Some out))
      \<and> length out = 48 \<and> len \<le> 48)
   \<and> honk_normalize_process_name None output = (0, output) \<and> honk_normalize_process_name input None = (0, None)"
proof -
  let ?so = "(normalizer_default, replicate ROUTING_PROCESS_MAX_LEN (0 :: u8))"
  have loop: "normalize_loop name ?so = Some (normalize_steps 16 name ?so)" by (rule loop_steps) (simp add: rust_consts)
  obtain len out where "honk_normalize_process_name (Some name) (Some []) = (len, Some out)" "length out = 48" "len \<le> 48"
    using normalized_some by metis
  then show ?thesis
    using loop by (auto simp: normalize_process_name_def honk_normalize_process_name_def split: option.split prod.splits)
qed

end
