(* ===== verification/Route.thy ===== *)
theory Route
  imports Auxiliary Process_Name
begin

text \<open>
  The static side of routing (\<open>route.rs\<close>): the input handed to the generated functions, the
  evaluation of the committed policy, the capture of trace witnesses; and the fate of later
  fragments (\<open>fragment.rs\<close>).
\<close>

definition EFAULT :: int where [rust_consts]: "EFAULT = 14"
definition EINVAL :: int where [rust_consts]: "EINVAL = 22"

definition OUTBOUND_DIRECT :: u8 where [rust_consts]: "OUTBOUND_DIRECT = 0"
definition OUTBOUND_BLOCK :: u8 where [rust_consts]: "OUTBOUND_BLOCK = 1"
definition OUTBOUND_CONTROL_PLANE_ROUTING :: u8 where
  [rust_consts]: "OUTBOUND_CONTROL_PLANE_ROUTING = 0xFD"

datatype l4_proto_type = L4Tcp | L4Udp
datatype ip_version_type = V4 | V6 | AnyVersion

fun l4_proto_u8 :: "l4_proto_type \<Rightarrow> u8" where
  "l4_proto_u8 L4Tcp = 1" | "l4_proto_u8 L4Udp = 2"

fun ip_version_u8 :: "ip_version_type \<Rightarrow> u8" where
  "ip_version_u8 V4 = 1" | "ip_version_u8 V6 = 2" | "ip_version_u8 AnyVersion = 3"

section \<open>Policy evaluation\<close>

definition build_input ::
  "tuples \<Rightarrow> u8 list option \<Rightarrow> u8 \<Rightarrow> u8 \<Rightarrow> bool \<Rightarrow> routing_input"
where
  "build_input tuples mac proto ip_version is_wan =
     (let i0 = RoutingInput_default
            \<lparr>ri_src_ip := src_ip (five tuples), ri_dst_ip := dst_ip (five tuples),
             ri_src_port := as_u32 (src_port (five tuples)),
             ri_dst_port := as_u32 (dst_port (five tuples)),
             ri_l4proto := as_u32 proto, ri_ip_version := as_u32 ip_version,
             ri_dscp := as_u32 (tup_dscp tuples), ri_is_wan := (if is_wan then 1 else 0)\<rparr>
      in case mac of
           Some m \<Rightarrow> i0\<lparr>ri_mac := replicate 10 0 @ m, ri_flags := ROUTING_INPUT_MAC_PRESENT\<rparr>
         | None \<Rightarrow> i0)"

text \<open>The input as \<open>evaluate_policy\<close> completes it before the call.\<close>

definition complete_input ::
  "policy_descriptor \<Rightarrow> u8 list option \<Rightarrow> bool \<Rightarrow> u32 \<Rightarrow> routing_input \<Rightarrow> routing_input"
where
  "complete_input descriptor pname canonical flags input =
     (let i1 =
        (if canonical then input
         else case (ri_is_wan input \<noteq> 0 \<and> pd_features descriptor AND ROUTING_FEATURE_PROCESS \<noteq> 0, pname) of
           (True, Some p) \<Rightarrow>
             let (len, output) = honk_normalize_process_name (Some p) (Some (ri_pname input)) in
             input\<lparr>ri_pname := the output, ri_pname_len := of_nat len\<rparr>
         | _ \<Rightarrow> input\<lparr>ri_pname := replicate ROUTING_PROCESS_MAX_LEN 0, ri_pname_len := 0\<rparr>)
      in i1\<lparr>ri_flags := (ri_flags i1 AND ROUTING_INPUT_MAC_PRESENT)
                         OR (if flags AND DATAPATH_FLAG_OFFLOAD_RULE_DIRECT \<noteq> 0
                             then ROUTING_INPUT_ALLOW_DIRECT_FINALITY else 0)\<rparr>)"

definition evaluate_policy ::
  "env \<Rightarrow> u8 list option \<Rightarrow> bool \<Rightarrow> u32 \<Rightarrow> routing_input \<Rightarrow> kernel_route_output
   \<Rightarrow> (int \<times> routing_decision \<times> u64) \<times> routing_input \<times> kernel_route_output"
where
  "evaluate_policy e pname canonical flags input output =
     (let o0 = output\<lparr>o_flags := 0\<rparr> in
      case policy_root e of
        None \<Rightarrow> ((- EFAULT, RoutingDecision_default, 0), input, o0)
      | Some descriptor \<Rightarrow>
          let trace_enabled = (pd_trace_policy descriptor \<noteq> 0
                               \<and> flags AND DATAPATH_FLAG_TRACE_ENABLED \<noteq> 0);
              input1 = complete_input descriptor pname canonical flags input;
              o1 = (if trace_enabled then o0\<lparr>o_flags := ROUTE_TRACE_VERSION OR ROUTE_TRACE_ENABLED\<rparr> else o0);
              (status, o2) =
                (if pd_slot descriptor = 0 then route_slot0 e input1 o1
                 else if pd_slot descriptor = 1 then route_slot1 e input1 o1
                 else (- EINVAL, o1));
              o3 = (if trace_enabled
                    then o2\<lparr>o_generation := pd_generation descriptor, o_policy_id := pd_trace_policy descriptor\<rparr>
                    else o2);
              decision = o_decision o3;
              dns = (status = 0 \<and> ri_dst_port input1 = 53
                     \<and> (ri_l4proto input1 = as_u32 (l4_proto_u8 L4Tcp)
                        \<or> ri_l4proto input1 = as_u32 (l4_proto_u8 L4Udp))
                     \<and> d_must decision = 0)
          in ((status,
               if dns then decision\<lparr>d_outbound := as_u32 OUTBOUND_CONTROL_PLANE_ROUTING\<rparr> else decision,
               pd_generation descriptor),
              input1,
              if dns \<and> trace_enabled then o3\<lparr>o_flags := o_flags o3 OR ROUTE_TRACE_DNS_OVERRIDE\<rparr> else o3))"

definition route ::
  "env \<Rightarrow> u8 list option \<Rightarrow> u32 \<Rightarrow> routing_input \<Rightarrow> kernel_route_output
   \<Rightarrow> (int + routing_decision \<times> u64) \<times> routing_input \<times> kernel_route_output"
where
  "route e pname flags input output =
     (let ((status, decision, generation), input1, output1) =
        evaluate_policy e pname False flags input output
      in (if status = 0 then Inr (decision, generation)
          else if status < 0 then Inl status
          else Inl (- EINVAL), input1, output1))"

section \<open>Trace witnesses\<close>

definition capture ::
  "env \<Rightarrow> tuples_key \<Rightarrow> u32 \<Rightarrow> bool \<Rightarrow> kernel_route_witness \<Rightarrow> dp \<Rightarrow> u32 \<times> kernel_route_witness \<times> dp"
where
  "capture e tuple token ambiguous w s =
     (if o_flags (kw_output w) AND ROUTE_TRACE_ENABLED = 0 then (0, w, s)
      else if o_policy_id (kw_output w) = - 1 then (ROUTE_TRACE_LOST, w, s)
      else
        let (id, s1) =
          (if ROUTE_TRACE_SEQUENCE s \<ge> ROUTE_TRACE_LOST - 1 then (ROUTE_TRACE_LOST, s)
           else (ROUTE_TRACE_SEQUENCE s + 1, s\<lparr>ROUTE_TRACE_SEQUENCE := ROUTE_TRACE_SEQUENCE s + 1\<rparr>)) in
        if id = ROUTE_TRACE_LOST then (id, w, s1)
        else
          let (now, s2) = bpf_ktime_get_ns e s1;
              w1 = w\<lparr>kw_tuple := tuple, kw_capture_id := id, kw_decision_token := token,
                      kw_observed_ns := now\<rparr>;
              w2 = (if ambiguous
                    then w1\<lparr>kw_output := (kw_output w1)
                              \<lparr>o_flags := o_flags (kw_output w1) OR ROUTE_TRACE_AMBIGUOUS\<rparr>\<rparr>
                    else w1) in
          if ROUTE_TRACE_MAP s2 id \<noteq> None \<or> \<not> lru_update_ok e then (ROUTE_TRACE_LOST, w2, s2)
          else (id, w2, s2\<lparr>ROUTE_TRACE_MAP := lru_insert (trace_evicted e) id w2 (ROUTE_TRACE_MAP s2)\<rparr>))"

definition captured_generation :: "dp \<Rightarrow> u32 \<Rightarrow> u64" where
  "captured_generation s trace_id =
     (if trace_id = 0 \<or> trace_id = ROUTE_TRACE_LOST then 0
      else case ROUTE_TRACE_MAP s trace_id of
        None \<Rightarrow> 0
      | Some w \<Rightarrow> o_generation (kw_output w))"

section \<open>Fragments\<close>

definition TC_ACT_OK :: int where [rust_consts]: "TC_ACT_OK = 0"
definition TC_ACT_SHOT :: int where [rust_consts]: "TC_ACT_SHOT = 2"
definition TC_ACT_REDIRECT :: int where [rust_consts]: "TC_ACT_REDIRECT = 7"
definition TC_ACT_UNSPEC :: int where [rust_consts]: "TC_ACT_UNSPEC = - 1"

text \<open>\<open>Verdict = Result<c_long, c_long>\<close>; \<open>Inl\<close> is \<open>Err\<close>, an early exit.\<close>

type_synonym verdict = "int + int"

fun flatten :: "verdict \<Rightarrow> int" where
  "flatten (Inl a) = a"
| "flatten (Inr a) = a"

definition fragment_key_of :: "parsed_packet \<Rightarrow> fragment_key" where
  "fragment_key_of pkt =
     (let k = five (pp_tuples pkt) in
      \<lparr>fk_src_ip = src_ip k, fk_dst_ip = dst_ip k, fk_id = pp_frag_id pkt,
       fk_l4proto = (if is_v4_mapped (src_ip k) then l4proto k else 0)\<rparr>)"

definition condemned :: "env \<Rightarrow> parsed_packet \<Rightarrow> dp \<Rightarrow> bool \<times> dp" where
  "condemned e pkt s =
     (case FRAG_VERDICT s (fragment_key_of pkt) of
        None \<Rightarrow> (False, s)
      | Some recorded \<Rightarrow>
          let (now, s1) = bpf_ktime_get_ns e s in
          (now - fv_ktime_ns recorded \<le> FRAGMENT_VERDICT_TTL_NS, s1))"

definition record_verdict :: "env \<Rightarrow> parsed_packet \<Rightarrow> int \<Rightarrow> dp \<Rightarrow> int \<times> dp" where
  "record_verdict e pkt verdict s =
     (if pp_is_fragmented pkt = 0 then (verdict, s)
      else if verdict \<noteq> TC_ACT_SHOT \<and> verdict \<noteq> TC_ACT_REDIRECT
      then (verdict, s\<lparr>FRAG_VERDICT := remove_key (fragment_key_of pkt) (FRAG_VERDICT s)\<rparr>)
      else if l4proto (five (pp_tuples pkt)) = IPPROTO_UDP
              \<and> is_short_lived_udp_traffic (five (pp_tuples pkt))
      then (verdict, s)
      else
        let (now, s1) = bpf_ktime_get_ns e s;
            value = \<lparr>fv_verdict = word_of_int verdict, fv_ktime_ns = now\<rparr> in
        (verdict,
         if lru_update_ok e
         then s1\<lparr>FRAG_VERDICT := lru_insert (frag_evicted e) (fragment_key_of pkt) value (FRAG_VERDICT s1)\<rparr>
         else s1))"

end
