(* ===== verification/Sk_Lookup.thy ===== *)
theory Sk_Lookup
  imports Route
begin

text \<open>
  Socket selection: the flow-consistent spread over the parallel UDP listeners and the
  \<open>sk_lookup\<close> program (\<open>sk_lookup.rs\<close>), the listener key chosen from a redirect site's marker
  (\<open>ingress.rs\<close>), the UDP socket probe (\<open>sk.rs\<close>, \<open>routing.rs\<close>); and the state of one
  classifier run.
\<close>

section \<open>UDP listeners\<close>

definition KEY_TCP4 :: u32 where [rust_consts]: "KEY_TCP4 = 0"
definition KEY_TCP6 :: u32 where [rust_consts]: "KEY_TCP6 = 1"
definition KEY_UDP4_BASE :: u32 where [rust_consts]: "KEY_UDP4_BASE = 2"
definition UDP_LISTENER_COUNT :: u32 where [rust_consts]: "UDP_LISTENER_COUNT = 4"
definition KEY_UDP6_BASE :: u32 where [rust_consts]: "KEY_UDP6_BASE = KEY_UDP4_BASE + UDP_LISTENER_COUNT"
definition UDP_LISTENER_MARKER :: u32 where [rust_consts]: "UDP_LISTENER_MARKER = 0x100"
definition SK_DROP :: u32 where [rust_consts]: "SK_DROP = 0"
definition SK_PASS :: u32 where [rust_consts]: "SK_PASS = 1"

definition rotate_left32 :: "nat \<Rightarrow> u32 \<Rightarrow> u32" where
  "rotate_left32 n x = push_bit n x OR drop_bit (32 - n) x"

definition udp_listener_index :: "u32 \<Rightarrow> u32 \<Rightarrow> u16 \<Rightarrow> u16 \<Rightarrow> u32" where
  "udp_listener_index src dst sport dport =
     (let ports = push_bit 16 (as_u32 sport) OR as_u32 dport in
      (src + rotate_left32 8 dst + rotate_left32 16 ports) mod UDP_LISTENER_COUNT)"

definition udp_listener_marker :: "tuples_key \<Rightarrow> u32" where
  "udp_listener_marker k =
     UDP_LISTENER_MARKER OR udp_listener_index (w3 (src_ip k)) (w3 (dst_ip k)) (src_port k) (dst_port k)"

definition udp_assign_key :: "u16 \<Rightarrow> u32 \<Rightarrow> u32 option" where
  "udp_assign_key protocol marker =
     (let index = marker - UDP_LISTENER_MARKER in
      if index \<ge> UDP_LISTENER_COUNT then None
      else Some (if protocol = ETH_P_IPV6 then KEY_UDP6_BASE + index else KEY_UDP4_BASE + index))"

section \<open>The sk-lookup program\<close>

text \<open>\<open>bpf_sk_lookup\<close>; network-order fields are after \<open>from_be\<close>.\<close>

record sk_lookup_ctx =
  sl_family :: u32
  sl_protocol :: u32
  sl_remote_ip4 :: u32
  sl_local_ip4 :: u32
  sl_remote_ip6 :: in6_addr
  sl_local_ip6 :: in6_addr
  sl_remote_port :: u16
  sl_local_port :: u32

definition udp_listener_key_v4 :: "sk_lookup_ctx \<Rightarrow> u32" where
  "udp_listener_key_v4 c = KEY_UDP4_BASE
     + udp_listener_index (sl_remote_ip4 c) (sl_local_ip4 c) (sl_remote_port c) (as_u16 (sl_local_port c))"

definition udp_listener_key_v6 :: "sk_lookup_ctx \<Rightarrow> u32" where
  "udp_listener_key_v6 c = KEY_UDP6_BASE
     + udp_listener_index (w3 (sl_remote_ip6 c)) (w3 (sl_local_ip6 c)) (sl_remote_port c)
         (as_u16 (sl_local_port c))"

text \<open>The listener key the program selects; \<open>Inl\<close> is its verdict when it selects none.\<close>

definition sk_lookup_key :: "u8 \<Rightarrow> sk_lookup_ctx \<Rightarrow> u32 + u32" where
  "sk_lookup_key ipv6_available c =
     (let protocol = as_u8 (sl_protocol c); family = sl_family c in
      if family = AF_INET6 \<and> ipv6_available = 0 then Inl SK_DROP
      else if family = AF_INET \<and> protocol = IPPROTO_TCP then Inr KEY_TCP4
      else if family = AF_INET6 \<and> protocol = IPPROTO_TCP then Inr KEY_TCP6
      else if protocol = IPPROTO_UDP then
        (if family = AF_INET then Inr (udp_listener_key_v4 c)
         else if family = AF_INET6 then Inr (udp_listener_key_v6 c)
         else Inl SK_DROP)
      else Inl SK_PASS)"

definition do_tproxy_sk_lookup :: "u8 \<Rightarrow> (u32 \<Rightarrow> bool) \<Rightarrow> sk_lookup_ctx \<Rightarrow> u32" where
  "do_tproxy_sk_lookup ipv6_available listener_ok c =
     (case sk_lookup_key ipv6_available c of
        Inl v \<Rightarrow> v
      | Inr key \<Rightarrow> if listener_ok key then SK_PASS else SK_DROP)"

section \<open>One classifier run\<close>

text \<open>A UDP socket found by \<open>bpf_sk_lookup_udp\<close>.\<close>

record udp_sock =
  us_family :: u32
  us_src_ip4 :: u32
  us_src_ip6 :: in6_addr
  us_full :: bool
  us_mark :: u32

text \<open>
  What the kernel answers to a classifier about one packet: the identity stored with the
  packet's socket, the UDP socket of a tuple (the flag says IPv4), the FIB lookup of a family,
  tuple, protocol, interface, length and TOS, the return values of the redirect helpers and of
  \<open>bpf_skb_change_head\<close>, and whether a listener slot holds an assignable socket.
\<close>

record packet_env =
  sk_identity :: "(u32 \<times> u8 list) option"
  sk_lookup_udp :: "bool \<Rightarrow> tuples_key \<Rightarrow> udp_sock option"
  fib_lookup :: "u32 \<Rightarrow> tuples_key \<Rightarrow> u8 \<Rightarrow> u32 \<Rightarrow> u16 \<Rightarrow> u8 \<Rightarrow> int"
  bpf_redirect :: "u32 \<Rightarrow> u64 \<Rightarrow> int"
  bpf_redirect_peer :: "u32 \<Rightarrow> u64 \<Rightarrow> int"
  change_head :: int
  listener_ok :: "u32 \<Rightarrow> bool"
  IPV6_SOCKETS_AVAILABLE :: u8

text \<open>The maps, the packet, the per-CPU scratch, and the effect of the last redirect helper
  (interface, flags, whether to the peer) and socket assignment.\<close>

record tc =
  tc_dp :: dp
  tc_skb :: skb
  tc_pkt :: parsed_packet
  tc_pctx :: parse_ctx
  tc_target :: "(u32 \<times> u64 \<times> bool) option"
  tc_assigned :: "u32 option"

definition on_dp :: "(dp \<Rightarrow> 'a \<times> dp) \<Rightarrow> tc \<Rightarrow> 'a \<times> tc" where
  "on_dp f t = (let (r, s) = f (tc_dp t) in (r, t\<lparr>tc_dp := s\<rparr>))"

definition upd_dp :: "(dp \<Rightarrow> dp) \<Rightarrow> tc \<Rightarrow> tc" where
  "upd_dp f t = t\<lparr>tc_dp := f (tc_dp t)\<rparr>"

definition upd_skb :: "(skb \<Rightarrow> skb) \<Rightarrow> tc \<Rightarrow> tc" where
  "upd_skb f t = t\<lparr>tc_skb := f (tc_skb t)\<rparr>"

definition upd_pkt :: "(parsed_packet \<Rightarrow> parsed_packet) \<Rightarrow> tc \<Rightarrow> tc" where
  "upd_pkt f t = t\<lparr>tc_pkt := f (tc_pkt t)\<rparr>"

definition set_mark :: "u32 \<Rightarrow> tc \<Rightarrow> tc" where
  "set_mark m t = upd_skb (\<lambda>sk. sk\<lparr>skb_mark := m\<rparr>) t"

definition run_parse_packet :: "net_types \<Rightarrow> nat \<Rightarrow> tc \<Rightarrow> int \<times> tc" where
  "run_parse_packet nt link_h_len t =
     (let (ret, pkt, c, sk) = parse_packet nt (tc_skb t) link_h_len (tc_pctx t) (tc_pkt t)
      in (ret, t\<lparr>tc_pkt := pkt, tc_pctx := c, tc_skb := sk\<rparr>))"

definition redirect_to :: "packet_env \<Rightarrow> bool \<Rightarrow> u32 \<Rightarrow> u64 \<Rightarrow> tc \<Rightarrow> verdict \<times> tc" where
  "redirect_to pe peer ifindex flags t =
     (Inr (if peer then bpf_redirect_peer pe ifindex flags else bpf_redirect pe ifindex flags),
      t\<lparr>tc_target := Some (ifindex, flags, peer)\<rparr>)"

section \<open>Socket probe\<close>

record sk_probe =
  is_dae_socket :: bool
  is_wildcard :: bool

definition bpf_sock_is_dae_socket :: "env \<Rightarrow> udp_sock \<Rightarrow> bool" where
  "bpf_sock_is_dae_socket e sk \<longleftrightarrow> us_full sk \<and> us_mark sk = dae_socket_mark (param e)"

definition probe_udp_socket :: "env \<Rightarrow> packet_env \<Rightarrow> bool \<Rightarrow> tuples_key \<Rightarrow> sk_probe option" where
  "probe_udp_socket e pe v4 key =
     (case sk_lookup_udp pe v4 key of
        None \<Rightarrow> None
      | Some sk \<Rightarrow>
          Some \<lparr>is_dae_socket = bpf_sock_is_dae_socket e sk,
                is_wildcard =
                  (if us_family sk = AF_INET then us_src_ip4 sk = 0
                   else if us_family sk = AF_INET6 \<and> IPV6_SOCKETS_AVAILABLE pe \<noteq> 0
                   then us_src_ip6 sk = In6Addr_zero
                   else True)\<rparr>)"

section \<open>Outbound health\<close>

definition wan_outbound_key :: "u16 \<Rightarrow> u8 \<Rightarrow> u8 \<Rightarrow> u32" where
  "wan_outbound_key protocol outbound proto =
     (let domain_idx = (if proto = IPPROTO_UDP then 2 else 0);
          ip_idx = (if protocol = ETH_P_IP then 0 else 1)
      in as_u32 outbound * 6 + domain_idx * 2 + ip_idx)"

definition wan_outbound_is_alive :: "dp \<Rightarrow> skb \<Rightarrow> u8 \<Rightarrow> u8 \<Rightarrow> u16 \<Rightarrow> bool" where
  "wan_outbound_is_alive s sk outbound proto dport =
     (if dport = 53 then True
      else
        let key = unat (wan_outbound_key (skb_protocol sk) outbound proto) in
        if key < 1536 then OUTBOUND_CONNECTIVITY_MAP s key \<noteq> 0 else True)"

end
