(* ===== verification/Lan_Ingress.thy ===== *)
theory Lan_Ingress
  imports Sk_Lookup
begin

text \<open>
  The LAN ingress classifier (\<open>ingress.rs\<close>): admission, cached TCP and UDP decisions, local
  services, routing of new flows, staging for NFQUEUE and the redirect to the control plane.
  \<open>do_tproxy_lan_ingress\<close> is divided along its phases.
\<close>

section \<open>Redirect to the control plane\<close>

definition dns_route_mark :: "parsed_packet \<Rightarrow> routing_meta \<Rightarrow> u64 \<Rightarrow> u32 option" where
  "dns_route_mark pkt meta generation =
     (if pp_l4proto pkt = IPPROTO_UDP \<and> dst_port (five (pp_tuples pkt)) = 53 then
        (case UdpDnsRoute_new (meta_outbound meta) generation of
           None \<Rightarrow> None
         | Some r \<Rightarrow> Some (if pp_is_fragmented pkt \<noteq> 0 then to_nfqueue_mark r else to_mark r))
      else Some 0)"

text \<open>The carrier a redirected packet takes across the link (\<open>mark\<close> and \<open>cb[0..4]\<close>).\<close>

definition write_carrier :: "parsed_packet \<Rightarrow> u32 \<Rightarrow> u32 \<Rightarrow> u64 \<Rightarrow> skb \<Rightarrow> skb" where
  "write_carrier pkt route_mark trace_id incarnation sk =
     (let syn = (pp_l4proto pkt = IPPROTO_TCP \<and> is_new_tcp_connection (pp_tcph pkt));
          (c3, c4) =
            (if syn then (as_u32 incarnation, as_u32 (drop_bit 32 incarnation))
             else if pp_l4proto pkt = IPPROTO_UDP
             then (trace_id, udp_listener_marker (five (pp_tuples pkt)))
             else (0, 0))
      in sk\<lparr>skb_mark := TPROXY_MARK OR as_u32 (pp_listener_l4proto pkt),
             cb0 := TPROXY_MARK, cb1 := as_u32 (pp_listener_l4proto pkt), cb2 := route_mark,
             cb3 := c3, cb4 := c4\<rparr>)"

definition lan_handoff ::
  "dp \<Rightarrow> parsed_packet \<Rightarrow> routing_meta \<Rightarrow> u64 \<Rightarrow> u32 \<Rightarrow> u64 \<Rightarrow> u32 \<Rightarrow> u64 \<Rightarrow> routing_handoff_entry"
where
  "lan_handoff s pkt meta now decision_token generation trace_id incarnation =
     \<lparr>he_last_seen_ns = now,
      he_result = \<lparr>rr_mark = meta_mark meta, rr_must = meta_must meta,
        rr_mac = eth_src_addr (pp_ethh pkt), rr_outbound = meta_outbound meta,
        rr_pname = replicate 16 0, rr_pid = 0, rr_dscp = meta_dscp meta,
        rr_decision_token = decision_token\<rparr>,
      he_routing_generation = (if generation \<noteq> 0 then generation else captured_generation s trace_id),
      he_trace_id = trace_id, he_incarnation = incarnation\<rparr>"

definition lan_redirect_entry ::
  "skb \<Rightarrow> parsed_packet \<Rightarrow> u8 \<Rightarrow> u64 \<Rightarrow> u32 \<Rightarrow> u64 \<Rightarrow> redirect_entry"
where
  "lan_redirect_entry sk pkt outbound now decision_token incarnation =
     \<lparr>re_last_seen_ns = now, re_dmac = eth_dst_addr (pp_ethh pkt),
      re_smac = eth_src_addr (pp_ethh pkt), re_from_wan = 0, re_outbound = outbound,
      re_ifindex = skb_ifindex sk, re_decision_token = decision_token,
      re_incarnation = incarnation\<rparr>"

text \<open>The auxiliary publications of a redirect: hand-off, redirect entry and, for a fresh SYN,
  the interception commit. \<open>False\<close> is an early \<open>Err(TC_ACT_SHOT)\<close>.\<close>

definition publish_lan_handoff ::
  "env \<Rightarrow> parsed_packet \<Rightarrow> routing_meta \<Rightarrow> aux_prep \<Rightarrow> u32 \<Rightarrow> u64 \<Rightarrow> u32 \<Rightarrow> u64 \<Rightarrow> u64 \<Rightarrow> dp \<Rightarrow> bool \<times> dp"
where
  "publish_lan_handoff e pkt meta policy decision_token generation trace_id incarnation now s =
     (let key = five (pp_tuples pkt) in
      case handoff_needs_publish policy key decision_token incarnation now s of
        (Inl _, s1) \<Rightarrow> (False, s1)
      | (Inr False, s1) \<Rightarrow> (True, s1)
      | (Inr True, s1) \<Rightarrow>
          (case publish_handoff e key
                  (lan_handoff s1 pkt meta now decision_token generation trace_id incarnation)
                  (policy = PrepPublish) s1 of
             (Inl _, s2) \<Rightarrow> (False, s2)
           | (Inr (), s2) \<Rightarrow> (True, s2)))"

definition publish_lan_redirect ::
  "env \<Rightarrow> skb \<Rightarrow> parsed_packet \<Rightarrow> routing_meta \<Rightarrow> aux_prep \<Rightarrow> u32 \<Rightarrow> u64 \<Rightarrow> u64 \<Rightarrow> dp \<Rightarrow> bool \<times> dp"
where
  "publish_lan_redirect e sk pkt meta policy decision_token incarnation now s =
     (let key = five (pp_tuples pkt); rkey = from_tuples key in
      case redirect_needs_publish e key rkey policy decision_token incarnation now s of
        (Inl _, s1) \<Rightarrow> (False, s1)
      | (Inr False, s1) \<Rightarrow> (True, s1)
      | (Inr True, s1) \<Rightarrow>
          (case publish_redirect e key rkey
                  (lan_redirect_entry sk pkt (meta_outbound meta) now decision_token incarnation)
                  (policy = PrepPublish) s1 of
             (Inl _, s2) \<Rightarrow> (False, s2)
           | (Inr (), s2) \<Rightarrow> (True, s2)))"

definition redirect_lan_packet_to_control_plane ::
  "env \<Rightarrow> packet_env \<Rightarrow> parsed_packet \<Rightarrow> routing_meta \<Rightarrow> aux_prep \<Rightarrow> u32 \<Rightarrow> u64 \<Rightarrow> u32 \<Rightarrow> u64 \<Rightarrow> tc
   \<Rightarrow> verdict \<times> tc"
where
  "redirect_lan_packet_to_control_plane e pe pkt meta policy decision_token generation trace_id
     incarnation t =
     (if pp_l4proto pkt = IPPROTO_TCP \<and> tcp_daens_netns_id (param e) < 0 then (Inl TC_ACT_SHOT, t)
      else case dns_route_mark pkt meta generation of
        None \<Rightarrow> (Inl TC_ACT_SHOT, t)
      | Some route_mark \<Rightarrow>
          let dns_fragment = (route_mark AND NFQUEUE_SIGNATURE_MARK \<noteq> 0);
              (now, t1) = on_dp (bpf_ktime_get_ns e) t;
              t2 = upd_dp (count_tx (skb_len (tc_skb t1)) (meta_outbound meta)) t1;
              t3 = (if \<not> dns_fragment
                    then upd_skb (write_carrier pkt route_mark trace_id incarnation) t2 else t2);
              raw_must_dns = (route_mark \<noteq> 0 \<and> meta_must meta \<noteq> 0);
              (ok1, t4) =
                (if raw_must_dns then (True, t3)
                 else on_dp (publish_lan_handoff e pkt meta policy decision_token generation trace_id
                               incarnation now) t3) in
          if \<not> ok1 then (Inl TC_ACT_SHOT, t4)
          else
            let (ok2, t5) = on_dp (publish_lan_redirect e (tc_skb t4) pkt meta policy decision_token
                                     incarnation now) t4 in
            if \<not> ok2 then (Inl TC_ACT_SHOT, t5)
            else
              let (ok3, t6) =
                (if policy = PrepPublish
                 then on_dp (commit_tcp_intercept (five (pp_tuples pkt)) (tcp_seq (pp_tcph pkt)) incarnation) t5
                 else (True, t5)) in
              if \<not> ok3 then (Inl TC_ACT_SHOT, t6)
              else if dns_fragment
              then (Inl TC_ACT_OK, upd_skb (\<lambda>sk. sk\<lparr>skb_mark := route_mark, skb_priority := trace_id\<rparr>) t6)
              else redirect_to pe (use_redirect_peer (param e) \<noteq> 0) (dae0_ifindex (param e)) 0 t6)"

definition pass_through_classified :: "tc \<Rightarrow> verdict \<times> tc" where
  "pass_through_classified t =
     (Inl TC_ACT_OK, set_mark (skb_mark (tc_skb t) OR CLASSIFIED_MARK) t)"

section \<open>Staging a UDP decision\<close>

definition abort_and_shoot :: "env \<Rightarrow> u32 \<Rightarrow> tc \<Rightarrow> verdict \<times> tc" where
  "abort_and_shoot e token t =
     (Inl TC_ACT_SHOT,
      upd_dp (abort_udp_preparing e (five (pp_tuples (tc_pkt t))) (pp_incarnation (tc_pkt t)) token) t)"

definition run_capture :: "env \<Rightarrow> u32 \<Rightarrow> bool \<Rightarrow> tc \<Rightarrow> u32 \<times> tc" where
  "run_capture e token ambiguous t =
     (let (id, w, s) = capture e (five (pp_tuples (tc_pkt t))) token ambiguous
                         (pp_route_witness (tc_pkt t)) (tc_dp t)
      in (id, t\<lparr>tc_dp := s, tc_pkt := (tc_pkt t)\<lparr>pp_route_witness := w, pp_trace_id := id\<rparr>\<rparr>))"

definition stage_udp_decision :: "env \<Rightarrow> routing_meta \<Rightarrow> u64 \<Rightarrow> tc \<Rightarrow> verdict \<times> tc" where
  "stage_udp_decision e meta generation t =
     (let key = five (pp_tuples (tc_pkt t)); incarnation = pp_incarnation (tc_pkt t) in
      case on_dp (allocate_udp_decision_token e key) t of
        (None, t1) \<Rightarrow> abort_and_shoot e 0 t1
      | (Some token, t1) \<Rightarrow>
          let (trace_id, t2) = run_capture e token False t1;
              pkt = tc_pkt t2;
              (now, t3) = on_dp (bpf_ktime_get_ns e) t2 in
          (case on_dp (publish_redirect e key (from_tuples key)
                         (lan_redirect_entry (tc_skb t3) pkt OUTBOUND_CONTROL_PLANE_ROUTING now token incarnation)
                         False) t3 of
             (Inl _, t4) \<Rightarrow> abort_and_shoot e token t4
           | (Inr (), t4) \<Rightarrow>
               (case on_dp (publish_handoff e key
                       \<lparr>he_last_seen_ns = now,
                        he_result = \<lparr>rr_mark = meta_mark meta, rr_must = meta_must meta,
                          rr_mac = eth_src_addr (pp_ethh pkt), rr_outbound = meta_outbound meta,
                          rr_pname = replicate 16 0, rr_pid = 0, rr_dscp = tup_dscp (pp_tuples pkt),
                          rr_decision_token = token\<rparr>,
                        he_routing_generation = generation, he_trace_id = trace_id,
                        he_incarnation = incarnation\<rparr> False) t4 of
                  (Inl _, t5) \<Rightarrow> abort_and_shoot e token t5
                | (Inr (), t5) \<Rightarrow>
                    let (state, t6) = on_dp (populate_udp_conn_state e meta (eth_src_addr (pp_ethh pkt))
                                               Pending token incarnation) t5 in
                    (case on_dp (publish_claimed_udp_state key (state\<lparr>cs_trace_id := trace_id\<rparr>)) t6 of
                       (False, t7) \<Rightarrow> abort_and_shoot e token t7
                     | (True, t7) \<Rightarrow>
                         (Inl TC_ACT_OK, set_mark (NFQUEUE_SIGNATURE_MARK OR token) t7)))))"

section \<open>Cached decisions\<close>

definition cached_udp_decision :: "env \<Rightarrow> packet_env \<Rightarrow> conn_state \<Rightarrow> tc \<Rightarrow> verdict \<times> tc" where
  "cached_udp_decision e pe state t =
     (let pkt = tc_pkt t in
      if is_wan_ingress_direction state \<noteq> 0 then pass_through_classified t
      else if cs_state state = udp_state_u8 Preparing \<or> cs_state state = udp_state_u8 Aborted
      then (Inl TC_ACT_SHOT, t)
      else if cs_state state = udp_state_u8 Pending \<or> cs_state state = udp_state_u8 DirectArmed then
        let flags = datapath_flags (tc_dp t) in
        (case (flags AND DATAPATH_FLAG_NFQ_ENABLED \<noteq> 0 \<and> flags AND DATAPATH_FLAG_NFQ_READY \<noteq> 0,
               pack_nfqueue_mark (cs_decision_token state)) of
           (True, Some mark) \<Rightarrow> (Inl TC_ACT_OK, set_mark mark t)
         | _ \<Rightarrow> (Inl TC_ACT_SHOT, t))
      else if cs_state state = udp_state_u8 UdpBlock then (Inl TC_ACT_SHOT, t)
      else if cs_state state \<noteq> udp_state_u8 UdpNone \<and> cs_state state \<noteq> udp_state_u8 Proxy
      then (Inl TC_ACT_SHOT, t)
      else
        let meta = cs_meta state in
        if drop_bit 56 meta AND 1 = 0 then pass_through_classified t
        else
          let outbound = meta_outbound meta; mark = meta_mark meta; must = meta_must meta;
              offload = (meta AND ROUTING_META_FLAG_OFFLOAD \<noteq> 0) in
          if cs_state state = udp_state_u8 Proxy then
            (if cs_decision_token state = 0 then (Inl TC_ACT_SHOT, t)
             else redirect_lan_packet_to_control_plane e pe pkt meta PrepRedirectOnly
                    (cs_decision_token state) 0 (cs_trace_id state) (cs_incarnation state) t)
          else if cs_decision_token state \<noteq> 0 \<and> (outbound \<noteq> OUTBOUND_DIRECT \<or> \<not> offload \<or> must \<noteq> 0)
          then (Inl TC_ACT_SHOT, t)
          else if outbound = OUTBOUND_DIRECT \<and> (must \<noteq> 0 \<or> offload) then
            (Inl TC_ACT_OK, set_mark (mark OR CLASSIFIED_MARK)
                              (upd_dp (count_tx (skb_len (tc_skb t)) outbound) t))
          else if \<not> wan_outbound_is_alive (tc_dp t) (tc_skb t) outbound (pp_l4proto pkt)
                      (dst_port (five (pp_tuples pkt)))
          then (Inl TC_ACT_SHOT, t)
          else redirect_lan_packet_to_control_plane e pe pkt meta PrepRefresh
                 (cs_decision_token state) 0 (cs_trace_id state) (cs_incarnation state) t)"

definition lan_tcp_cached :: "env \<Rightarrow> packet_env \<Rightarrow> tcp_publisher \<Rightarrow> tc \<Rightarrow> verdict \<times> tc" where
  "lan_tcp_cached e pe p t =
     (let pkt = tc_pkt t; key = five (pp_tuples pkt) in
      case on_dp (mark_tcp_seen e key (pp_tcph pkt) None None None None 0 None 0 0 p) t of
        (None, t1) \<Rightarrow>
          if is_new_tcp_connection (pp_tcph pkt) then (Inl TC_ACT_SHOT, t1)
          else
            let (unavailable, t2) = on_dp (tuple_unavailable e key) t1 in
            if unavailable then (Inl TC_ACT_SHOT, t2) else pass_through_classified t2
      | (Some state, t1) \<Rightarrow>
          if drop_bit 56 (cs_meta state) AND 1 = 0 then pass_through_classified t1
          else
            let outbound = meta_outbound (cs_meta state); mark = meta_mark (cs_meta state);
                must = meta_must (cs_meta state);
                offload = (cs_meta state AND ROUTING_META_FLAG_OFFLOAD \<noteq> 0) in
            if dst_port key = 53 \<and> outbound = OUTBOUND_BLOCK then (Inl TC_ACT_SHOT, t1)
            else if outbound = OUTBOUND_DIRECT \<and> (must \<noteq> 0 \<or> offload) then
              (Inl TC_ACT_OK, set_mark (mark OR CLASSIFIED_MARK)
                                (upd_dp (count_tx (skb_len (tc_skb t1)) outbound) t1))
            else redirect_lan_packet_to_control_plane e pe pkt (cs_meta state) (AuxPrep_tcp p) 0 0
                   (cs_trace_id state) (cs_incarnation state) t1)"

section \<open>Admission\<close>

text \<open>Everything before the TCP publisher exists; \<open>Some v\<close> is an early return.\<close>

definition lan_admission :: "env \<Rightarrow> net_types \<Rightarrow> nat \<Rightarrow> tc \<Rightarrow> verdict option \<times> tc" where
  "lan_admission e nt link_h_len t =
     (let t0 = upd_pkt (\<lambda>p. p\<lparr>pp_is_fragmented := 0\<rparr>) t in
      if \<not> datapath_ready (tc_dp t0) then (Some (Inl TC_ACT_UNSPEC), t0)
      else if is_vlan_tagged (tc_skb t0) link_h_len then (Some (Inl TC_ACT_UNSPEC), t0)
      else if skb_mark (tc_skb t0) AND (CLASSIFIED_MARK OR NFQUEUE_PENDING_MARK) \<noteq> 0
      then (Some (Inl TC_ACT_OK), t0)
      else
        let (ret, t1) = run_parse_packet nt link_h_len t0 in
        if ret \<noteq> 0 then
          (let (dead, t2) =
             (if ret = PARSE_FRAGMENT then on_dp (condemned e (tc_pkt t1)) t1 else (False, t1)) in
           if dead then (Some (Inl TC_ACT_SHOT), t2)
           else if ret = PASS_UNSUPPORTED then (Some (Inl TC_ACT_UNSPEC), t2)
           else (let (v, t3) = pass_through_classified t2 in (Some v, t3)))
        else if dst_is_special (tc_pkt t1) link_h_len
        then (let (v, t2) = pass_through_classified t1 in (Some v, t2))
        else
          let proto = pp_l4proto (tc_pkt t1);
              bypass_mark = dae_socket_mark (param e) in
          if (proto = IPPROTO_TCP \<or> proto = IPPROTO_UDP) \<and> bypass_mark \<noteq> 0
             \<and> skb_mark (tc_skb t1) = bypass_mark
          then (let (v, t2) = pass_through_classified t1 in (Some v, t2))
          else
            let key = five (pp_tuples (tc_pkt t1));
                (refused, t2) =
                  (if proto \<noteq> IPPROTO_TCP \<and> (proto \<noteq> IPPROTO_UDP \<or> is_short_lived_udp_traffic key)
                   then on_dp (tuple_unavailable e key) t1 else (False, t1)) in
            if refused then (Some (Inl TC_ACT_SHOT), t2) else (None, t2))"

section \<open>Local services\<close>

definition BPF_FIB_LKUP_RET_NOT_FWDED :: int where [rust_consts]: "BPF_FIB_LKUP_RET_NOT_FWDED = 4"

definition wildcard_socket_destination_is_local :: "packet_env \<Rightarrow> tc \<Rightarrow> bool" where
  "wildcard_socket_destination_is_local pe t \<longleftrightarrow>
     (let pkt = tc_pkt t;
          family = (if ether_type (pp_ethh pkt) = ETH_P_IP then AF_INET else AF_INET6) in
      fib_lookup pe family (five (pp_tuples pkt)) (pp_l4proto pkt) (skb_ifindex (tc_skb t))
        (as_u16 (skb_len (tc_skb t)))
        (if family = AF_INET then push_bit 2 (tup_dscp (pp_tuples pkt)) else 0)
      = BPF_FIB_LKUP_RET_NOT_FWDED)"

text \<open>A UDP packet to a local service or answering one passes; \<open>None\<close> continues to routing.\<close>

definition lan_local_service :: "env \<Rightarrow> packet_env \<Rightarrow> tc \<Rightarrow> verdict option \<times> tc" where
  "lan_local_service e pe t =
     (let pkt = tc_pkt t; key = five (pp_tuples pkt) in
      if pp_l4proto pkt = IPPROTO_UDP \<and> dst_port key \<noteq> 53 then
        (case on_dp (local_udp_reply_seen e key) t of
           (True, t1) \<Rightarrow> (let (v, t2) = pass_through_classified t1 in (Some v, t2))
         | (False, t1) \<Rightarrow>
             (case probe_udp_socket e pe (ether_type (pp_ethh pkt) = ETH_P_IP) key of
                None \<Rightarrow> (None, t1)
              | Some probe \<Rightarrow>
                  if \<not> is_dae_socket probe
                     \<and> (\<not> is_wildcard probe \<or> wildcard_socket_destination_is_local pe t1)
                  then
                    let (r, t2) = on_dp (observe_local_udp_reply e key (kw_tuple (pp_route_witness pkt))) t1;
                        t3 = upd_pkt (\<lambda>p. p\<lparr>pp_route_witness := (pp_route_witness p)\<lparr>kw_tuple := r\<rparr>\<rparr>) t2;
                        (v, t4) = pass_through_classified t3
                    in (Some v, t4)
                  else (None, t1)))
      else (None, t))"

section \<open>Routing a new flow\<close>

text \<open>The route decision as the classifier uses it.\<close>

record lan_decision =
  ld_outbound :: u8
  ld_mark :: u32
  ld_must :: u8
  ld_domain_final :: bool
  ld_offload_direct :: bool
  ld_meta_outbound :: u8
  ld_generation :: u64

definition lan_decision_of :: "u32 \<Rightarrow> u16 \<Rightarrow> routing_decision \<Rightarrow> u64 \<Rightarrow> lan_decision" where
  "lan_decision_of flags dport raw generation =
     (let d = apply_mode_flags flags dport raw;
          outbound = as_u8 (d_outbound d); must = as_u8 (d_must d);
          domain_final = (d_domain_final d \<noteq> 0);
          offload_direct =
            (dport \<noteq> 53 \<and> must = 0 \<and> outbound \<noteq> OUTBOUND_BLOCK
             \<and> (flags AND DATAPATH_FLAG_OFFLOAD_ALL \<noteq> 0
                \<or> (flags AND DATAPATH_FLAG_OFFLOAD_RULE_DIRECT \<noteq> 0
                   \<and> outbound = OUTBOUND_DIRECT \<and> domain_final)))
      in \<lparr>ld_outbound = outbound, ld_mark = d_mark d, ld_must = must,
          ld_domain_final = domain_final, ld_offload_direct = offload_direct,
          ld_meta_outbound = (if offload_direct then OUTBOUND_DIRECT else handoff_outbound d),
          ld_generation = generation\<rparr>)"

definition ip_version_of :: "skb \<Rightarrow> u8" where
  "ip_version_of sk = (if skb_protocol sk = ETH_P_IP then ip_version_u8 V4 else ip_version_u8 V6)"

definition lan_route :: "env \<Rightarrow> nat \<Rightarrow> u32 \<Rightarrow> tc \<Rightarrow> (verdict + lan_decision) \<times> tc" where
  "lan_route e link_h_len flags t =
     (let pkt = tc_pkt t;
          input = build_input (pp_tuples pkt)
            (if link_h_len = ETH_HLEN then Some (eth_src_addr (pp_ethh pkt)) else None)
            (if pp_l4proto pkt = IPPROTO_TCP then l4_proto_u8 L4Tcp else l4_proto_u8 L4Udp)
            (ip_version_of (tc_skb t)) False;
          (r, input1, output1) = route e None flags input (kw_output (pp_route_witness pkt));
          t1 = upd_pkt (\<lambda>p. p\<lparr>pp_routing_input := input1,
                 pp_route_witness := (pp_route_witness p)\<lparr>kw_output := output1\<rparr>\<rparr>) t in
      case r of
        Inl _ \<Rightarrow>
          (if pp_l4proto pkt = IPPROTO_UDP \<and> \<not> is_short_lived_udp_traffic (five (pp_tuples pkt))
           then (let (v, t2) = abort_and_shoot e 0 t1 in (Inl v, t2))
           else (Inl (Inl TC_ACT_SHOT), t1))
      | Inr (decision, generation) \<Rightarrow>
          (Inr (lan_decision_of flags (dst_port (five (pp_tuples pkt))) decision generation), t1))"

text \<open>The claim of a new non-DNS UDP flow; a lost race falls back to the winner's entry.\<close>

definition lan_claim :: "env \<Rightarrow> packet_env \<Rightarrow> tc \<Rightarrow> verdict option \<times> tc" where
  "lan_claim e pe t =
     (let pkt = tc_pkt t; key = five (pp_tuples pkt) in
      if pp_l4proto pkt = IPPROTO_UDP \<and> \<not> is_short_lived_udp_traffic key then
        (case on_dp (claim_udp_preparing e key (eth_src_addr (pp_ethh pkt))) t of
           (Some incarnation, t1) \<Rightarrow> (None, upd_pkt (\<lambda>p. p\<lparr>pp_incarnation := incarnation\<rparr>) t1)
         | (None, t1) \<Rightarrow>
             (case on_dp (lookup_udp_seen e key) t1 of
                (Some state, t2) \<Rightarrow> (let (v, t3) = cached_udp_decision e pe state t2 in (Some v, t3))
              | (None, t2) \<Rightarrow> (Some (Inl TC_ACT_SHOT), t2)))
      else (None, t))"

section \<open>Publishing the decision\<close>

definition lan_capture_early :: "env \<Rightarrow> conn_state option \<Rightarrow> lan_decision \<Rightarrow> tc \<Rightarrow> tc" where
  "lan_capture_early e tcp_state d t =
     (let t0 = upd_pkt (\<lambda>p. p\<lparr>pp_trace_id := 0\<rparr>) t;
          pkt = tc_pkt t0; key = five (pp_tuples pkt) in
      if (pp_l4proto pkt = IPPROTO_UDP \<and> is_short_lived_udp_traffic key \<or> pp_l4proto pkt = IPPROTO_TCP)
         \<and> \<not> ld_offload_direct d
         \<and> \<not> (ld_outbound d = OUTBOUND_DIRECT \<and> ld_must d \<noteq> 0) then
        let ambiguous =
          (o_flags (kw_output (pp_route_witness pkt)) AND ROUTE_TRACE_ENABLED \<noteq> 0
           \<and> pp_l4proto pkt = IPPROTO_TCP
           \<and> ((case tcp_state of Some c \<Rightarrow> cs_trace_id c = ROUTE_TRACE_LOST | None \<Rightarrow> False)
              \<or> ROUTING_HANDOFF_MAP (tc_dp t0) key \<noteq> None))
        in snd (run_capture e 0 ambiguous t0)
      else t0)"

definition udp_stage_required :: "nat \<Rightarrow> lan_decision \<Rightarrow> tc \<Rightarrow> bool" where
  "udp_stage_required link_h_len d t \<longleftrightarrow>
     (let outbound = ld_outbound d;
          unresolved_direct = (outbound = OUTBOUND_DIRECT \<and> \<not> ld_offload_direct d);
          control_plane_routing = (outbound = OUTBOUND_CONTROL_PLANE_ROUTING);
          preliminary_proxy = (outbound \<noteq> OUTBOUND_DIRECT \<and> outbound \<noteq> OUTBOUND_BLOCK
                               \<and> outbound \<noteq> OUTBOUND_CONTROL_PLANE_ROUTING) in
      ld_must d = 0 \<and> \<not> ld_offload_direct d \<and> outbound \<noteq> OUTBOUND_BLOCK
      \<and> (unresolved_direct \<or> control_plane_routing
         \<or> (preliminary_proxy \<and> \<not> ld_domain_final d
            \<and> udp_has_quic_long_header (tc_skb t) link_h_len (tc_pkt t))))"

definition lan_publish_udp :: "env \<Rightarrow> nat \<Rightarrow> u32 \<Rightarrow> lan_decision \<Rightarrow> tc \<Rightarrow> verdict option \<times> tc" where
  "lan_publish_udp e link_h_len flags d t =
     (let pkt = tc_pkt t; key = five (pp_tuples pkt); dscp = tup_dscp (pp_tuples pkt);
          nfq = DATAPATH_FLAG_NFQ_ENABLED OR DATAPATH_FLAG_NFQ_READY in
      if udp_stage_required link_h_len d t \<and> flags AND DATAPATH_FLAG_NFQ_ENABLED \<noteq> 0 then
        let (v, t1) =
          (if flags AND DATAPATH_FLAG_NFQ_READY = 0 \<or> datapath_flags (tc_dp t) AND nfq \<noteq> nfq
           then abort_and_shoot e 0 t
           else stage_udp_decision e
                  (build_routing_meta (ld_meta_outbound d) (ld_mark d) (ld_must d) dscp)
                  (ld_generation d) t)
        in (Some v, t1)
      else
        let t1 = (if \<not> ld_offload_direct d \<and> \<not> (ld_outbound d = OUTBOUND_DIRECT \<and> ld_must d \<noteq> 0)
                  then snd (run_capture e 0 False t) else t);
            meta = build_routing_meta_with_offload (ld_meta_outbound d) (ld_mark d) (ld_must d) dscp
                     (ld_offload_direct d);
            (state, t2) = on_dp (populate_udp_conn_state e meta (eth_src_addr (pp_ethh pkt)) UdpNone 0
                                   (pp_incarnation pkt)) t1 in
        (case on_dp (publish_claimed_udp_state key (state\<lparr>cs_trace_id := pp_trace_id (tc_pkt t1)\<rparr>)) t2 of
           (False, t3) \<Rightarrow> (let (v, t4) = abort_and_shoot e 0 t3 in (Some v, t4))
         | (True, t3) \<Rightarrow> (None, t3)))"

definition lan_publish ::
  "env \<Rightarrow> nat \<Rightarrow> u32 \<Rightarrow> conn_state option \<Rightarrow> lan_decision \<Rightarrow> tc \<Rightarrow> verdict option \<times> tc"
where
  "lan_publish e link_h_len flags tcp_state d t =
     (let pkt = tc_pkt t; key = five (pp_tuples pkt) in
      if pp_l4proto pkt = IPPROTO_UDP \<and> is_short_lived_udp_traffic key then (None, t)
      else if pp_l4proto pkt = IPPROTO_TCP then
        (case tcp_state of
           None \<Rightarrow> (None, t)
         | Some state \<Rightarrow>
             let state1 = state\<lparr>cs_mac := eth_src_addr (pp_ethh pkt), cs_trace_id := pp_trace_id pkt,
                   cs_meta := build_routing_meta_with_offload (ld_meta_outbound d) (ld_mark d) (ld_must d)
                                (tup_dscp (pp_tuples pkt)) (ld_offload_direct d)\<rparr> in
             (case on_dp (publish_tcp_routing key state1) t of
                (True, t1) \<Rightarrow> (None, t1)
              | (False, t1) \<Rightarrow> (Some (Inl TC_ACT_SHOT), t1)))
      else if pp_l4proto pkt = IPPROTO_UDP then lan_publish_udp e link_h_len flags d t
      else (None, t))"

text \<open>The exit of a routed new flow: native direct, drop, or redirect.\<close>

definition lan_finish ::
  "env \<Rightarrow> packet_env \<Rightarrow> nat \<Rightarrow> aux_prep \<Rightarrow> conn_state option \<Rightarrow> lan_decision \<Rightarrow> tc \<Rightarrow> verdict \<times> tc"
where
  "lan_finish e pe link_h_len policy tcp_state d t =
     (let pkt = tc_pkt t; key = five (pp_tuples pkt); outbound = ld_outbound d;
          native = (outbound = OUTBOUND_DIRECT \<and> ld_must d \<noteq> 0 \<or> ld_offload_direct d);
          nfq = DATAPATH_FLAG_NFQ_ENABLED OR DATAPATH_FLAG_NFQ_READY in
      if pp_l4proto pkt = IPPROTO_TCP \<and> tcp_state = None then
        (if native \<and> ld_mark d = 0 then (Inl TC_ACT_OK, set_mark (ld_mark d OR CLASSIFIED_MARK) t)
         else (Inl TC_ACT_SHOT, t))
      else if dst_port key = 53 \<and> outbound = OUTBOUND_BLOCK then (Inl TC_ACT_SHOT, t)
      else if native then
        (Inl TC_ACT_OK, set_mark (ld_mark d OR CLASSIFIED_MARK)
                          (upd_dp (count_tx (skb_len (tc_skb t)) (ld_meta_outbound d)) t))
      else if outbound \<noteq> OUTBOUND_DIRECT
              \<and> \<not> wan_outbound_is_alive (tc_dp t) (tc_skb t) outbound (pp_l4proto pkt) (dst_port key)
      then (Inl TC_ACT_SHOT, t)
      else if pp_l4proto pkt = IPPROTO_UDP \<and> dst_port key = 53 \<and> pp_is_fragmented pkt \<noteq> 0
              \<and> (link_h_len \<noteq> 0 \<and> skb_pkt_type (tc_skb t) \<noteq> 0
                 \<or> datapath_flags (tc_dp t) AND nfq \<noteq> nfq)
      then (Inl TC_ACT_SHOT, t)
      else
        redirect_lan_packet_to_control_plane e pe pkt
          (build_routing_meta (ld_meta_outbound d) (ld_mark d)
             (if outbound = OUTBOUND_BLOCK then 0 else ld_must d) (tup_dscp (pp_tuples pkt)))
          policy 0 (ld_generation d) (pp_trace_id pkt) (pp_incarnation pkt) t)"

section \<open>The classifier\<close>

definition lan_routed_flow ::
  "env \<Rightarrow> packet_env \<Rightarrow> nat \<Rightarrow> conn_state option \<Rightarrow> tc \<Rightarrow> verdict \<times> tc"
where
  "lan_routed_flow e pe link_h_len tcp_state t =
     (let policy = (if pp_l4proto (tc_pkt t) = IPPROTO_TCP then PrepPublish else PrepRefresh) in
      case lan_local_service e pe t of
        (Some v, t1) \<Rightarrow> (v, t1)
      | (None, t1) \<Rightarrow>
          let (limited, t2) =
            (if pp_l4proto (tc_pkt t1) = IPPROTO_UDP
             then on_dp (exceeded e (src_ip (five (pp_tuples (tc_pkt t1))))) t1 else (False, t1)) in
          if limited then (Inl TC_ACT_SHOT, t2)
          else
            let flags = datapath_flags (tc_dp t2) in
            (case lan_claim e pe t2 of
               (Some v, t3) \<Rightarrow> (v, t3)
             | (None, t3) \<Rightarrow>
                 (case lan_route e link_h_len flags t3 of
                    (Inl v, t4) \<Rightarrow> (v, t4)
                  | (Inr d, t4) \<Rightarrow>
                      (case lan_publish e link_h_len flags tcp_state d (lan_capture_early e tcp_state d t4) of
                         (Some v, t5) \<Rightarrow> (v, t5)
                       | (None, t5) \<Rightarrow> lan_finish e pe link_h_len policy tcp_state d t5))))"

definition lan_new_flow :: "env \<Rightarrow> packet_env \<Rightarrow> nat \<Rightarrow> tcp_publisher \<Rightarrow> tc \<Rightarrow> verdict \<times> tc" where
  "lan_new_flow e pe link_h_len p t =
     (let pkt = tc_pkt t; key = five (pp_tuples pkt) in
      if pp_l4proto pkt = IPPROTO_TCP then
        (case on_dp (mark_tcp_seen e key (pp_tcph pkt) None None None None (tup_dscp (pp_tuples pkt))
                       None 0 0 p) t of
           (tcp_state, t1) \<Rightarrow>
             if tcp_state = None \<and> tuple_retiring (tc_dp t1) key then (Inl TC_ACT_SHOT, t1)
             else lan_routed_flow e pe link_h_len tcp_state t1)
      else if \<not> is_short_lived_udp_traffic key then
        (case on_dp (lookup_udp_available e key) t of
           (Inl (), t1) \<Rightarrow> (Inl TC_ACT_SHOT, t1)
         | (Inr (Some state), t1) \<Rightarrow> cached_udp_decision e pe state t1
         | (Inr None, t1) \<Rightarrow> lan_routed_flow e pe link_h_len None t1)
      else lan_routed_flow e pe link_h_len None t)"

text \<open>A SYN claims its tuple before anything else looks at it.\<close>

definition run_acquire :: "env \<Rightarrow> bool \<Rightarrow> tcp_publisher \<Rightarrow> tc \<Rightarrow> (bool \<times> tcp_publisher) \<times> tc" where
  "run_acquire e syn p t =
     (if syn
      then (let (ok, q, s) = publisher_acquire e (pp_tcph (tc_pkt t)) p (tc_dp t)
            in ((ok, q), t\<lparr>tc_dp := s\<rparr>))
      else ((True, p), t))"

definition lan_dispatch ::
  "env \<Rightarrow> packet_env \<Rightarrow> nat \<Rightarrow> bool \<Rightarrow> bool \<Rightarrow> tcp_publisher \<Rightarrow> tc \<Rightarrow> verdict \<times> tc"
where
  "lan_dispatch e pe link_h_len syn acquired p t =
     (if \<not> acquired then (Inl TC_ACT_SHOT, t)
      else
        let t' = (if syn then upd_pkt (\<lambda>q. q\<lparr>pp_incarnation := tp_incarnation p\<rparr>) t else t) in
        if pp_l4proto (tc_pkt t) = IPPROTO_TCP \<and> \<not> is_fresh p then lan_tcp_cached e pe p t'
        else lan_new_flow e pe link_h_len p t')"

text \<open>The publisher is released on every exit (its \<open>Drop\<close>).\<close>

definition lan_admitted :: "env \<Rightarrow> packet_env \<Rightarrow> nat \<Rightarrow> tc \<Rightarrow> verdict \<times> tc" where
  "lan_admitted e pe link_h_len t =
     (let pkt = tc_pkt t; key = five (pp_tuples pkt);
          syn = (pp_l4proto pkt = IPPROTO_TCP \<and> is_new_tcp_connection (pp_tcph pkt));
          (limited, t1) = (if syn then on_dp (exceeded e (src_ip key)) t else (False, t)) in
      if limited then (Inl TC_ACT_SHOT, t1)
      else
        let ((acquired, p), t2) = run_acquire e syn (TcpPublisher_new key) t1;
            (v, t3) = lan_dispatch e pe link_h_len syn acquired p t2
        in (v, upd_dp (publisher_drop p) t3))"

definition do_tproxy_lan_ingress :: "env \<Rightarrow> packet_env \<Rightarrow> net_types \<Rightarrow> nat \<Rightarrow> tc \<Rightarrow> verdict \<times> tc" where
  "do_tproxy_lan_ingress e pe nt link_h_len t =
     (case lan_admission e nt link_h_len t of
        (Some v, t1) \<Rightarrow> (v, t1)
      | (None, t1) \<Rightarrow> lan_admitted e pe link_h_len t1)"

definition run_record :: "env \<Rightarrow> verdict \<times> tc \<Rightarrow> int \<times> tc" where
  "run_record e vt = (let (v, t) = vt in on_dp (record_verdict e (tc_pkt t) (flatten v)) t)"

definition lan_ingress_l2 :: "env \<Rightarrow> packet_env \<Rightarrow> net_types \<Rightarrow> tc \<Rightarrow> int \<times> tc" where
  "lan_ingress_l2 e pe nt t = run_record e (do_tproxy_lan_ingress e pe nt 14 t)"

definition lan_ingress_l3 :: "env \<Rightarrow> packet_env \<Rightarrow> net_types \<Rightarrow> tc \<Rightarrow> int \<times> tc" where
  "lan_ingress_l3 e pe nt t =
     run_record e (do_tproxy_lan_ingress e pe nt (l3_link_h_len (tc_skb t)) t)"

end
