(* ===== verification/Dae0.thy ===== *)
theory Dae0
  imports Lan_Ingress
begin

text \<open>
  The link between the host and the isolated namespace, and the return path (\<open>ingress.rs\<close>):
  \<open>dae0peer_ingress\<close> restores the carrier, \<open>dae0_ingress\<close> sends replies back to where their flow
  came from, \<open>wan_ingress\<close> keeps connection state in step with packets from the WAN.
\<close>

section \<open>dae0peer\<close>

text \<open>\<open>bpf_skb_change_type\<close> succeeds in setting the packet type.\<close>

definition change_type :: "u32 \<Rightarrow> tc \<Rightarrow> tc" where
  "change_type ty t = upd_skb (\<lambda>sk. sk\<lparr>skb_pkt_type := ty\<rparr>) t"

definition sk_assign_by_index :: "packet_env \<Rightarrow> u32 \<Rightarrow> tc \<Rightarrow> tc" where
  "sk_assign_by_index pe key t = (if listener_ok pe key then t\<lparr>tc_assigned := Some key\<rparr> else t)"

definition do_tproxy_dae0peer_ingress :: "packet_env \<Rightarrow> tc \<Rightarrow> verdict \<times> tc" where
  "do_tproxy_dae0peer_ingress pe t =
     (let sk = tc_skb t in
      if cb0 sk \<noteq> TPROXY_MARK then (Inl TC_ACT_SHOT, t)
      else
        let listener = as_u8 (cb1 sk) in
        if listener \<noteq> 0 \<and> listener \<noteq> IPPROTO_UDP then (Inl TC_ACT_SHOT, t)
        else
          let route_mark = cb2 sk in
          if route_mark \<noteq> 0 \<and> (listener \<noteq> IPPROTO_UDP \<or> from_mark route_mark = None)
          then (Inl TC_ACT_SHOT, t)
          else
            let mark = (if route_mark = 0 then TPROXY_MARK else route_mark) in
            if listener = IPPROTO_UDP then
              let t1 = upd_skb (\<lambda>k. k\<lparr>skb_mark := mark, skb_priority := cb3 k\<rparr>) t;
                  t2 = change_type 0 t1 in
              (Inr TC_ACT_OK,
               case udp_assign_key (skb_protocol (tc_skb t2)) (cb4 (tc_skb t2)) of
                 Some key \<Rightarrow> sk_assign_by_index pe key t2
               | None \<Rightarrow> t2)
            else
              let low = cb3 sk; high = cb4 sk in
              if high AND 0xff000000 \<noteq> 0 then (Inl TC_ACT_SHOT, t)
              else
                let t1 = upd_skb (\<lambda>k. k\<lparr>skb_mark := TPROXY_MARK OR (low AND 0x00ffffff),
                                         skb_priority := drop_bit 24 low OR push_bit 8 high\<rparr>) t
                in (Inr TC_ACT_OK, change_type 0 t1))"

text \<open>The incarnation userspace reads back from the mark and the priority of an accepted SYN.\<close>

definition carrier_incarnation :: "u32 \<Rightarrow> u32 \<Rightarrow> u64" where
  "carrier_incarnation mark priority =
     as_u64 (mark AND 0x00ffffff) OR push_bit 24 (as_u64 priority)"

section \<open>dae0: replies\<close>

definition client_reply_entry :: "dp \<Rightarrow> parsed_packet \<Rightarrow> redirect_tuple \<Rightarrow> redirect_entry option" where
  "client_reply_entry s pkt rkey =
     (if pp_l4proto pkt \<noteq> IPPROTO_UDP \<or> is_dae0_link (src_ip (five (pp_tuples pkt))) then None
      else CLIENT_REPLY_TRACK s (rkey\<lparr>rt_dst_ip := In6Addr_zero, rt_dst_port := 0\<rparr>))"

definition restore_framing :: "packet_env \<Rightarrow> redirect_entry \<Rightarrow> tc \<Rightarrow> verdict \<times> tc" where
  "restore_framing pe entry t =
     (let t1 = upd_skb (\<lambda>sk. sk\<lparr>skb_bytes := store_bytes 0 (re_smac entry)
                                   (store_bytes 6 (re_dmac entry) (skb_bytes sk))\<rparr>) t;
          from_wan = re_from_wan entry;
          t2 = change_type (if from_wan \<noteq> 0 then 0 else 1) t1
      in redirect_to pe False (re_ifindex entry) (if from_wan \<noteq> 0 then 1 else 0) t2)"

definition do_tproxy_dae0_ingress :: "env \<Rightarrow> packet_env \<Rightarrow> net_types \<Rightarrow> tc \<Rightarrow> verdict \<times> tc" where
  "do_tproxy_dae0_ingress e pe nt t =
     (let (ret, t1) = run_parse_packet nt ETH_HLEN t in
      if ret \<noteq> 0 then (Inl TC_ACT_UNSPEC, t1)
      else
        let pkt = tc_pkt t1; key = five (pp_tuples pkt);
            canonical = copy_reversed_tuples key;
            (now, t2) = on_dp (bpf_ktime_get_ns e) t1 in
        (case on_dp (available_tuple_lifecycle e canonical (Some now)) t2 of
           (Inl (), t3) \<Rightarrow> (Inl TC_ACT_SHOT, t3)
         | (Inr lifecycle, t3) \<Rightarrow>
             let rkey = redirect_reverse (from_tuples key) in
             (case on_dp (reverse_redirect e canonical rkey now) t3 of
                (Inl _, t4) \<Rightarrow> (Inl TC_ACT_SHOT, t4)
              | (Inr (Some entry), t4) \<Rightarrow>
                  let t5 = upd_dp (count_rx (skb_len (tc_skb t4)) (re_outbound entry)) t4;
                      t6 = (case lifecycle of
                              Some snap \<Rightarrow>
                                if pp_l4proto pkt = IPPROTO_UDP \<and> \<not> is_short_lived_udp_traffic canonical
                                then upd_dp (renew_udp_reply canonical snap entry now) t5 else t5
                            | None \<Rightarrow> t5)
                  in restore_framing pe entry t6
              | (Inr None, t4) \<Rightarrow>
                  (case client_reply_entry (tc_dp t4) pkt rkey of
                     Some entry \<Rightarrow> restore_framing pe entry t4
                   | None \<Rightarrow> (Inl TC_ACT_UNSPEC, t4)))))"

section \<open>WAN ingress\<close>

definition do_tproxy_wan_ingress :: "env \<Rightarrow> net_types \<Rightarrow> nat \<Rightarrow> tc \<Rightarrow> verdict \<times> tc" where
  "do_tproxy_wan_ingress e nt link_h_len t =
     (let (ret, t1) = run_parse_packet nt link_h_len t in
      if ret \<noteq> 0 then (Inl (if ret < 0 then TC_ACT_SHOT else TC_ACT_UNSPEC), t1)
      else
        let pkt = tc_pkt t1; rev = copy_reversed_tuples (five (pp_tuples pkt)) in
        if pp_l4proto pkt = IPPROTO_TCP then
          (case on_dp (mark_tcp_seen e rev (pp_tcph pkt) None None None None 0 None 0 0
                         (TcpPublisher_new rev)) t1 of
             (Some _, t2) \<Rightarrow> (Inr TC_ACT_UNSPEC, t2)
           | (None, t2) \<Rightarrow>
               let (unavailable, t3) = on_dp (tuple_unavailable e rev) t2 in
               (if unavailable then Inl TC_ACT_SHOT else Inr TC_ACT_UNSPEC, t3))
        else if pp_l4proto pkt = IPPROTO_UDP then
          (if udp_src (pp_udph pkt) = 53 \<or> udp_dst (pp_udph pkt) = 53 then (Inl TC_ACT_UNSPEC, t1)
           else
             let (ok, t2) = on_dp (reverse_udp_available e rev True) t1 in
             (if \<not> ok then Inl TC_ACT_SHOT else Inr TC_ACT_UNSPEC, t2))
        else (Inr TC_ACT_UNSPEC, t1))"

definition dae0peer_ingress :: "packet_env \<Rightarrow> tc \<Rightarrow> int \<times> tc" where
  "dae0peer_ingress pe t = (let (v, t1) = do_tproxy_dae0peer_ingress pe t in (flatten v, t1))"

definition dae0_ingress :: "env \<Rightarrow> packet_env \<Rightarrow> net_types \<Rightarrow> tc \<Rightarrow> int \<times> tc" where
  "dae0_ingress e pe nt t = (let (v, t1) = do_tproxy_dae0_ingress e pe nt t in (flatten v, t1))"

definition wan_ingress_l2 :: "env \<Rightarrow> net_types \<Rightarrow> tc \<Rightarrow> int \<times> tc" where
  "wan_ingress_l2 e nt t = (let (v, t1) = do_tproxy_wan_ingress e nt 14 t in (flatten v, t1))"

definition wan_ingress_l3 :: "env \<Rightarrow> net_types \<Rightarrow> tc \<Rightarrow> int \<times> tc" where
  "wan_ingress_l3 e nt t =
     (let (v, t1) = do_tproxy_wan_ingress e nt (l3_link_h_len (tc_skb t)) t in (flatten v, t1))"

end
