(* ===== verification/Egress.thy ===== *)
theory Egress
  imports Dae0
begin

text \<open>
  The egress classifiers (\<open>egress.rs\<close>): \<open>lan_egress\<close> keeps state in step with packets towards
  the LAN, \<open>wan_egress\<close> routes traffic the host itself originates.
\<close>

definition NOWHERE_IFINDEX :: u32 where [rust_consts]: "NOWHERE_IFINDEX = 0"

definition local_ndp_redirect :: "skb \<Rightarrow> int \<Rightarrow> bool" where
  "local_ndp_redirect sk ret \<longleftrightarrow> ret = PASS_NDP_REDIRECT \<and> skb_ingress_ifindex sk = NOWHERE_IFINDEX"

definition is_control_plane :: "env \<Rightarrow> packet_env \<Rightarrow> skb \<Rightarrow> bool" where
  "is_control_plane e pe sk \<longleftrightarrow>
     (case sk_identity pe of
        Some (pid, _) \<Rightarrow> control_plane_pid (param e) \<noteq> 0 \<and> pid = control_plane_pid (param e)
      | None \<Rightarrow> False)
     \<or> dae_socket_mark (param e) \<noteq> 0 \<and> skb_mark sk = dae_socket_mark (param e)"

definition redirect_to_control_plane_egress :: "env \<Rightarrow> packet_env \<Rightarrow> tc \<Rightarrow> verdict \<times> tc" where
  "redirect_to_control_plane_egress e pe t = redirect_to pe False (dae0_ifindex (param e)) 0 t"

definition run_prep_redirect ::
  "env \<Rightarrow> packet_env \<Rightarrow> nat \<Rightarrow> tuples \<Rightarrow> eth_hdr \<Rightarrow> u8 \<Rightarrow> aux_prep \<Rightarrow> u8 \<Rightarrow> u32 \<Rightarrow> u64 \<Rightarrow> tc \<Rightarrow> int \<times> tc"
where
  "run_prep_redirect e pe link_h_len tuples ethh from_wan mode outbound token incarnation t =
     (let (r, sk, s) = prep_redirect_to_control_plane e (change_head pe) link_h_len tuples ethh from_wan
                         mode outbound token incarnation (tc_skb t) (tc_dp t)
      in (r, t\<lparr>tc_skb := sk, tc_dp := s\<rparr>))"

section \<open>LAN egress\<close>

definition do_tproxy_lan_egress :: "env \<Rightarrow> net_types \<Rightarrow> nat \<Rightarrow> tc \<Rightarrow> verdict \<times> tc" where
  "do_tproxy_lan_egress e nt link_h_len t =
     (let (ret, t1) = run_parse_packet nt link_h_len t in
      if ret \<noteq> 0 then
        (Inl (if ret < 0 \<or> local_ndp_redirect (tc_skb t1) ret then TC_ACT_SHOT else TC_ACT_UNSPEC), t1)
      else if dst_is_special (tc_pkt t1) link_h_len then (Inl TC_ACT_UNSPEC, t1)
      else
        let pkt = tc_pkt t1; key = five (pp_tuples pkt); rev = copy_reversed_tuples key in
        if pp_l4proto pkt = IPPROTO_TCP then
          (case on_dp (mark_tcp_seen e rev (pp_tcph pkt) None None None None 0 None 0 0
                         (TcpPublisher_new rev)) t1 of
             (Some _, t2) \<Rightarrow> (Inr TC_ACT_UNSPEC, t2)
           | (None, t2) \<Rightarrow>
               let (unavailable, t3) = on_dp (tuple_unavailable e rev) t2 in
               (if unavailable then Inl TC_ACT_SHOT else Inr TC_ACT_UNSPEC, t3))
        else if pp_l4proto pkt = IPPROTO_UDP then
          (if dst_port key = 53 \<and> from_nfqueue_mark (skb_mark (tc_skb t1)) \<noteq> None
           then (Inl TC_ACT_SHOT, t1)
           else if udp_src (pp_udph pkt) = 53 \<or> udp_dst (pp_udph pkt) = 53 then (Inl TC_ACT_UNSPEC, t1)
           else
             let dae0 = dae0_ifindex (param e);
                 learn = (dae0 = 0 \<or> skb_ingress_ifindex (tc_skb t1) \<noteq> dae0);
                 (ok, t2) = on_dp (reverse_udp_available e rev learn) t1 in
             (if \<not> ok then Inl TC_ACT_SHOT else Inr TC_ACT_UNSPEC, t2))
        else (Inr TC_ACT_UNSPEC, t1))"

section \<open>WAN egress, shared parts\<close>

definition wan_input :: "nat \<Rightarrow> l4_proto_type \<Rightarrow> tc \<Rightarrow> routing_input" where
  "wan_input link_h_len proto t =
     build_input (pp_tuples (tc_pkt t))
       (if link_h_len = ETH_HLEN then Some (eth_src_addr (pp_ethh (tc_pkt t))) else None)
       (l4_proto_u8 proto) (ip_version_of (tc_skb t)) True"

definition run_route ::
  "env \<Rightarrow> u8 list option \<Rightarrow> u32 \<Rightarrow> routing_input \<Rightarrow> tc \<Rightarrow> (int + routing_decision \<times> u64) \<times> tc"
where
  "run_route e pname flags input t =
     (let (r, input1, output1) = route e pname flags input (kw_output (pp_route_witness (tc_pkt t)))
      in (r, upd_pkt (\<lambda>p. p\<lparr>pp_routing_input := input1,
               pp_route_witness := (pp_route_witness p)\<lparr>kw_output := output1\<rparr>\<rparr>) t))"

text \<open>Like \<open>run_capture\<close>, but the trace id stays local to the caller.\<close>

definition wan_capture :: "env \<Rightarrow> u32 \<Rightarrow> bool \<Rightarrow> tc \<Rightarrow> u32 \<times> tc" where
  "wan_capture e token ambiguous t =
     (let (id, w, s) = capture e (five (pp_tuples (tc_pkt t))) token ambiguous
                         (pp_route_witness (tc_pkt t)) (tc_dp t)
      in (id, t\<lparr>tc_dp := s, tc_pkt := (tc_pkt t)\<lparr>pp_route_witness := w\<rparr>\<rparr>))"

definition wan_mac :: "nat \<Rightarrow> parsed_packet \<Rightarrow> u8 list" where
  "wan_mac link_h_len pkt =
     (if link_h_len = ETH_HLEN then eth_src_addr (pp_ethh pkt) else replicate 6 0)"

definition wan_handoff ::
  "u64 \<Rightarrow> u64 \<Rightarrow> u32 \<Rightarrow> u64 \<Rightarrow> u32 \<Rightarrow> bool \<Rightarrow> u8 \<Rightarrow> u8 \<Rightarrow> u32 \<Rightarrow> u8 list option \<Rightarrow> u32 \<Rightarrow> u8 list
   \<Rightarrow> routing_handoff_entry"
where
  "wan_handoff now generation trace_id incarnation mark must outbound dscp pid pname token mac =
     \<lparr>he_last_seen_ns = now,
      he_result = \<lparr>rr_mark = mark, rr_must = bool_u8 must, rr_mac = mac, rr_outbound = outbound,
        rr_pname = (case pname of Some p \<Rightarrow> p | None \<Rightarrow> replicate 16 0), rr_pid = pid,
        rr_dscp = dscp, rr_decision_token = token\<rparr>,
      he_routing_generation = generation, he_trace_id = trace_id, he_incarnation = incarnation\<rparr>"

section \<open>WAN egress: TCP\<close>

text \<open>What a TCP flow's decision is, fresh or cached; \<open>Inl v\<close> is an early return.\<close>

record wan_tcp_decision =
  wt_outbound :: u8
  wt_mark :: u32
  wt_must :: bool
  wt_generation :: u64
  wt_trace_id :: u32
  wt_pname :: "u8 list option"
  wt_pid :: u32
  wt_mac :: "u8 list"

definition wan_tcp_fresh ::
  "env \<Rightarrow> packet_env \<Rightarrow> nat \<Rightarrow> tcp_publisher \<Rightarrow> tc \<Rightarrow> (verdict + wan_tcp_decision) \<times> tc"
where
  "wan_tcp_fresh e pe link_h_len syn t =
     (let pkt = tc_pkt t; key = five (pp_tuples pkt); dns = (dst_port key = 53) in
      if (case sk_identity pe of Some (pid, _) \<Rightarrow> pid = control_plane_pid (param e) | None \<Rightarrow> False)
      then (Inl (Inl TC_ACT_UNSPEC), t)
      else
        let pname = map_option snd (sk_identity pe);
            pid = (case sk_identity pe of Some (p, _) \<Rightarrow> p | None \<Rightarrow> 0);
            mac = wan_mac link_h_len pkt;
            flags = datapath_flags (tc_dp t) in
        (case run_route e pname flags (wan_input link_h_len L4Tcp t) t of
           (Inl _, t1) \<Rightarrow> (Inl (Inl TC_ACT_SHOT), t1)
         | (Inr (raw, generation), t1) \<Rightarrow>
             let d = apply_mode_flags flags (dst_port key) raw;
                 outbound = handoff_outbound d; mark = d_mark d; must = (d_must d \<noteq> 0);
                 plain_direct = (outbound = OUTBOUND_DIRECT \<and> mark = 0 \<and> \<not> must \<and> \<not> dns);
                 ambiguous = (o_flags (kw_output (pp_route_witness (tc_pkt t1))) AND ROUTE_TRACE_ENABLED \<noteq> 0
                              \<and> (CONN_STATE_MAP (tc_dp t1) key \<noteq> None
                                 \<or> ROUTING_HANDOFF_MAP (tc_dp t1) key \<noteq> None));
                 (trace_id, t2) =
                   (if outbound = OUTBOUND_BLOCK
                       \<or> (outbound = OUTBOUND_DIRECT \<and> mark = 0 \<and> (\<not> dns \<or> must))
                    then (0, t1) else wan_capture e 0 ambiguous t1) in
             (case on_dp (mark_tcp_seen e key (pp_tcph pkt)
                            (if plain_direct then None else Some outbound)
                            (if plain_direct then None else Some mark)
                            (if plain_direct then None else Some (bool_u8 must))
                            (Some mac) (tup_dscp (pp_tuples pkt)) pname pid trace_id syn) t2 of
                (None, t3) \<Rightarrow>
                  (Inl (if tuple_retiring (tc_dp t3) key then Inl TC_ACT_SHOT
                        else if outbound = OUTBOUND_DIRECT \<and> mark = 0 then Inl TC_ACT_UNSPEC
                        else Inl TC_ACT_SHOT), t3)
              | (Some _, t3) \<Rightarrow>
                  (Inr \<lparr>wt_outbound = outbound, wt_mark = mark, wt_must = must,
                        wt_generation = generation, wt_trace_id = trace_id, wt_pname = pname,
                        wt_pid = pid, wt_mac = mac\<rparr>, t3))))"

definition wan_tcp_cached ::
  "env \<Rightarrow> tcp_publisher \<Rightarrow> tc \<Rightarrow> (verdict + wan_tcp_decision) \<times> tc"
where
  "wan_tcp_cached e syn t =
     (let pkt = tc_pkt t; key = five (pp_tuples pkt) in
      case on_dp (mark_tcp_seen e key (pp_tcph pkt) None None None None 0 None 0 0 syn) t of
        (Some conn, t1) \<Rightarrow>
          let meta = cs_meta conn in
          if drop_bit 56 meta AND 1 \<noteq> 0
          then (Inr \<lparr>wt_outbound = as_u8 (meta AND 0xFF),
                     wt_mark = as_u32 (drop_bit 8 meta AND 0xFFFFFFFF),
                     wt_must = (drop_bit 40 meta AND 1 \<noteq> 0), wt_generation = 0, wt_trace_id = 0,
                     wt_pname = Some (cs_pname conn), wt_pid = cs_pid conn, wt_mac = cs_mac conn\<rparr>,
                upd_pkt (\<lambda>p. p\<lparr>pp_incarnation := cs_incarnation conn\<rparr>) t1)
          else (Inl (Inl TC_ACT_UNSPEC), t1)
      | (None, t1) \<Rightarrow>
          if is_new_tcp_connection (pp_tcph pkt) then (Inl (Inl TC_ACT_SHOT), t1)
          else
            let (unavailable, t2) = on_dp (tuple_unavailable e key) t1 in
            (Inl (Inl (if unavailable then TC_ACT_SHOT else TC_ACT_UNSPEC)), t2))"

definition wan_tcp_publish ::
  "env \<Rightarrow> packet_env \<Rightarrow> bool \<Rightarrow> wan_tcp_decision \<Rightarrow> tc \<Rightarrow> verdict \<times> tc"
where
  "wan_tcp_publish e pe fresh d t =
     (let pkt = tc_pkt t; key = five (pp_tuples pkt); incarnation = pp_incarnation pkt;
          pure_syn = is_new_tcp_connection (pp_tcph pkt);
          t1 = upd_skb (\<lambda>sk. sk\<lparr>cb0 := TPROXY_MARK, cb1 := 0, cb2 := 0,
                 cb3 := (if pure_syn then as_u32 incarnation else 0),
                 cb4 := (if pure_syn then as_u32 (drop_bit 32 incarnation) else 0)\<rparr>) t in
      if fresh then
        let (now, t2) = on_dp (bpf_ktime_get_ns e) t1 in
        (case on_dp (publish_handoff e key
                (wan_handoff now (wt_generation d) (wt_trace_id d) incarnation (wt_mark d) (wt_must d)
                   (wt_outbound d) (tup_dscp (pp_tuples pkt)) (wt_pid d) (wt_pname d) 0 (wt_mac d)) True) t2 of
           (Inl _, t3) \<Rightarrow> (Inl TC_ACT_SHOT, t3)
         | (Inr (), t3) \<Rightarrow>
             (case on_dp (commit_tcp_intercept key (tcp_seq (pp_tcph pkt)) incarnation) t3 of
                (False, t4) \<Rightarrow> (Inl TC_ACT_SHOT, t4)
              | (True, t4) \<Rightarrow> redirect_to_control_plane_egress e pe t4))
      else redirect_to_control_plane_egress e pe t1)"

definition do_tproxy_wan_egress_tcp ::
  "env \<Rightarrow> packet_env \<Rightarrow> nat \<Rightarrow> tcp_publisher \<Rightarrow> tc \<Rightarrow> verdict \<times> tc"
where
  "do_tproxy_wan_egress_tcp e pe link_h_len syn t =
     (let fresh = is_fresh syn;
          dns = (dst_port (five (pp_tuples (tc_pkt t))) = 53) in
      case (if fresh then wan_tcp_fresh e pe link_h_len syn t else wan_tcp_cached e syn t) of
        (Inl v, t1) \<Rightarrow> (v, t1)
      | (Inr d, t1) \<Rightarrow>
          let pkt = tc_pkt t1 in
          if wt_outbound d = OUTBOUND_DIRECT \<and> wt_mark d = 0 \<and> (\<not> dns \<or> wt_must d)
          then (Inl TC_ACT_OK, set_mark (wt_mark d) t1)
          else if wt_outbound d = OUTBOUND_BLOCK then (Inl TC_ACT_SHOT, t1)
          else if fresh \<and> \<not> wan_outbound_is_alive (tc_dp t1) (tc_skb t1) (wt_outbound d) IPPROTO_TCP
                             (dst_port (five (pp_tuples pkt)))
          then (Inl TC_ACT_SHOT, t1)
          else
            let aux = (if fresh then PrepPublish
                       else if is_new_tcp_connection (pp_tcph pkt) then PrepExisting else PrepRefresh);
                (r, t2) = run_prep_redirect e pe link_h_len (pp_tuples pkt) (pp_ethh pkt) 1 aux
                            (wt_outbound d) 0 (pp_incarnation pkt) t1 in
            if r \<noteq> 0 then (Inl TC_ACT_SHOT, t2) else wan_tcp_publish e pe fresh d t2)"

section \<open>WAN egress: UDP\<close>

text \<open>The DNS carrier of a WAN datagram; \<open>None\<close> is a drop.\<close>

definition wan_dns_mark :: "bool \<Rightarrow> u8 \<Rightarrow> u32 \<Rightarrow> bool \<Rightarrow> u32 \<Rightarrow> u64 \<Rightarrow> u32 option" where
  "wan_dns_mark dns outbound mark must direct_index generation =
     (if dns then
        (if outbound = OUTBOUND_DIRECT \<and> must \<and> mark \<noteq> 0 then
           (if direct_index > 0xFF then None
            else map_option to_mark (UdpDnsRoute_direct (as_u8 direct_index) generation))
         else map_option to_mark (UdpDnsRoute_new outbound generation))
      else Some 0)"

definition fast_path_decision ::
  "env \<Rightarrow> packet_env \<Rightarrow> nat \<Rightarrow> u8 \<Rightarrow> u32 \<Rightarrow> bool \<Rightarrow> u8 list \<Rightarrow> u8 list option \<Rightarrow> u32 \<Rightarrow> u32 \<Rightarrow> u64 \<Rightarrow> u32
   \<Rightarrow> u32 \<Rightarrow> u64 \<Rightarrow> tc \<Rightarrow> verdict \<times> tc"
where
  "fast_path_decision e pe link_h_len outbound mark must mac pname pid token generation trace_id
     direct_index incarnation t =
     (let pkt = tc_pkt t; tuples = pp_tuples pkt; key = five tuples; dns = (dst_port key = 53) in
      if outbound = OUTBOUND_DIRECT \<and> mark = 0 \<and> (\<not> dns \<or> must) then (Inl TC_ACT_OK, set_mark mark t)
      else if outbound = OUTBOUND_BLOCK then (Inl TC_ACT_SHOT, t)
      else case wan_dns_mark dns outbound mark must direct_index generation of
        None \<Rightarrow> (Inl TC_ACT_SHOT, t)
      | Some route_mark \<Rightarrow>
          if \<not> wan_outbound_is_alive (tc_dp t) (tc_skb t) outbound IPPROTO_UDP (dst_port key)
          then (Inl TC_ACT_SHOT, t)
          else
            let (r, t1) = run_prep_redirect e pe link_h_len tuples (pp_ethh pkt) 1 PrepRefresh outbound
                            token incarnation t in
            if r \<noteq> 0 then (Inl TC_ACT_SHOT, t1)
            else
              let t2 = upd_skb (\<lambda>sk. sk\<lparr>cb0 := TPROXY_MARK, cb1 := as_u32 IPPROTO_UDP,
                         cb2 := route_mark, cb3 := trace_id, cb4 := udp_listener_marker key\<rparr>) t1 in
              if route_mark \<noteq> 0 \<and> must then redirect_to_control_plane_egress e pe t2
              else
                let (now, t3) = on_dp (bpf_ktime_get_ns e) t2 in
                (case on_dp (handoff_needs_publish PrepRefresh key token incarnation now) t3 of
                   (Inl _, t4) \<Rightarrow> (Inl TC_ACT_SHOT, t4)
                 | (Inr False, t4) \<Rightarrow> redirect_to_control_plane_egress e pe t4
                 | (Inr True, t4) \<Rightarrow>
                     let h = wan_handoff now
                               (if generation \<noteq> 0 then generation else captured_generation (tc_dp t4) trace_id)
                               trace_id incarnation mark must outbound (tup_dscp tuples) pid pname token mac in
                     (case on_dp (publish_handoff e key h False) t4 of
                        (Inl error, t5) \<Rightarrow>
                          if dns \<or> mark \<noteq> 0 \<or> error = IDENTITY_MISMATCH then (Inl TC_ACT_SHOT, t5)
                          else redirect_to_control_plane_egress e pe t5
                      | (Inr (), t5) \<Rightarrow> redirect_to_control_plane_egress e pe t5)))"

definition wan_udp_routed :: "env \<Rightarrow> packet_env \<Rightarrow> nat \<Rightarrow> tc \<Rightarrow> verdict \<times> tc" where
  "wan_udp_routed e pe link_h_len t =
     (let pkt = tc_pkt t; key = five (pp_tuples pkt); dns = (dst_port key = 53);
          pname = map_option snd (sk_identity pe);
          pid = (case sk_identity pe of Some (p, _) \<Rightarrow> p | None \<Rightarrow> 0);
          mac = wan_mac link_h_len pkt;
          flags = datapath_flags (tc_dp t) in
      case run_route e pname flags (wan_input link_h_len L4Udp t) t of
        (Inl _, t1) \<Rightarrow> (Inl TC_ACT_SHOT, t1)
      | (Inr (raw, generation), t1) \<Rightarrow>
          let d = apply_mode_flags flags (dst_port key) raw;
              outbound = handoff_outbound d; mark = d_mark d; must = (d_must d \<noteq> 0);
              (trace_id, t2) =
                (if outbound = OUTBOUND_BLOCK \<or> (outbound = OUTBOUND_DIRECT \<and> mark = 0 \<and> (\<not> dns \<or> must))
                 then (0, t1) else wan_capture e 0 False t1) in
          if is_short_lived_udp_traffic key then
            fast_path_decision e pe link_h_len outbound mark must mac pname pid 0 generation trace_id
              (d_direct_mark_index d) (pp_incarnation (tc_pkt t2)) t2
          else
            let meta_flags =
              (if outbound = OUTBOUND_DIRECT \<and> mark = 0 then ROUTING_META_FLAG_OFFLOAD
               else if outbound \<noteq> OUTBOUND_BLOCK then ROUTING_META_FLAG_WAN_USERSPACE else 0) in
            (case on_dp (mark_udp_seen e key 0 (Some outbound) (Some mark) (Some (bool_u8 must)) (Some mac)
                           (tup_dscp (pp_tuples pkt)) pname pid trace_id meta_flags) t2 of
               (None, t3) \<Rightarrow>
                 (if tuple_retiring (tc_dp t3) key \<or> CONN_STATE_MAP (tc_dp t3) key \<noteq> None
                  then Inl TC_ACT_SHOT
                  else if outbound = OUTBOUND_DIRECT \<and> mark = 0 then Inl TC_ACT_UNSPEC
                  else Inl TC_ACT_SHOT, t3)
             | (Some state, t3) \<Rightarrow>
                 fast_path_decision e pe link_h_len outbound mark must mac pname pid 0 generation trace_id
                   (d_direct_mark_index d) (cs_incarnation state)
                   (upd_pkt (\<lambda>p. p\<lparr>pp_incarnation := cs_incarnation state\<rparr>) t3)))"

definition do_tproxy_wan_egress_udp :: "env \<Rightarrow> packet_env \<Rightarrow> nat \<Rightarrow> tc \<Rightarrow> verdict \<times> tc" where
  "do_tproxy_wan_egress_udp e pe link_h_len t =
     (let key = five (pp_tuples (tc_pkt t)) in
      if (case sk_identity pe of Some (pid, _) \<Rightarrow> pid = control_plane_pid (param e) | None \<Rightarrow> False)
      then (Inl TC_ACT_UNSPEC, t)
      else
        let (cached, t1) = (if is_short_lived_udp_traffic key then (None, t)
                            else on_dp (lookup_udp_seen e key) t) in
        (case cached of
           None \<Rightarrow> wan_udp_routed e pe link_h_len t1
         | Some conn \<Rightarrow>
             if cs_state conn = udp_state_u8 Preparing \<or> cs_state conn = udp_state_u8 Aborted
             then (Inl TC_ACT_SHOT, t1)
             else if is_wan_ingress_direction conn \<noteq> 0 then (Inl TC_ACT_UNSPEC, t1)
             else
               let meta = cs_meta conn in
               if drop_bit 56 meta AND 1 \<noteq> 0 then
                 fast_path_decision e pe link_h_len (as_u8 (meta AND 0xFF))
                   (as_u32 (drop_bit 8 meta AND 0xFFFFFFFF)) (drop_bit 40 meta AND 1 \<noteq> 0) (cs_mac conn)
                   (Some (cs_pname conn)) (cs_pid conn) (cs_decision_token conn) 0 (cs_trace_id conn) (- 1)
                   (cs_incarnation conn) t1
               else wan_udp_routed e pe link_h_len t1))"

section \<open>WAN egress: the classifier\<close>

definition wan_egress_admission :: "env \<Rightarrow> net_types \<Rightarrow> nat \<Rightarrow> tc \<Rightarrow> verdict option \<times> tc" where
  "wan_egress_admission e nt link_h_len t =
     (let (ret, t1) = run_parse_packet nt link_h_len t in
      if ret \<noteq> 0 then
        (let (dead, t2) =
           (if ret = PARSE_FRAGMENT then on_dp (condemned e (tc_pkt t1)) t1 else (False, t1)) in
         (Some (Inl (if dead \<or> local_ndp_redirect (tc_skb t2) ret then TC_ACT_SHOT else TC_ACT_UNSPEC)), t2))
      else
        let pkt = tc_pkt t1; key = five (pp_tuples pkt); sk = tc_skb t1; proto = pp_l4proto pkt in
        if proto = IPPROTO_UDP \<and> dst_port key = 53 \<and> from_nfqueue_mark (skb_mark sk) \<noteq> None
        then (Some (Inl TC_ACT_SHOT), t1)
        else if is_vlan_tagged sk link_h_len then (Some (Inl TC_ACT_UNSPEC), t1)
        else if \<not> datapath_ready (tc_dp t1) then (Some (Inl TC_ACT_UNSPEC), t1)
        else if dst_is_special pkt link_h_len then (Some (Inl TC_ACT_UNSPEC), t1)
        else if local_ip (param e) \<noteq> 0 \<and> is_v4_mapped (dst_ip key) \<and> w3 (dst_ip key) = local_ip (param e)
        then (Some (Inl TC_ACT_UNSPEC), t1)
        else if skb_ingress_ifindex sk \<noteq> NOWHERE_IFINDEX then (Some (Inl TC_ACT_UNSPEC), t1)
        else if dae_socket_mark (param e) \<noteq> 0 \<and> skb_mark sk = dae_socket_mark (param e)
                \<or> skb_mark sk AND SKB_MARK_RESERVED_MASK = CLASSIFIED_MARK
        then (Some (Inl TC_ACT_OK), t1)
        else
          let (refused, t2) = (if proto \<noteq> IPPROTO_TCP then on_dp (tuple_unavailable e key) t1 else (False, t1)) in
          if refused then (Some (Inl TC_ACT_SHOT), t2) else (None, t2))"

definition wan_dispatch ::
  "env \<Rightarrow> packet_env \<Rightarrow> nat \<Rightarrow> bool \<Rightarrow> bool \<Rightarrow> tcp_publisher \<Rightarrow> tc \<Rightarrow> verdict \<times> tc"
where
  "wan_dispatch e pe link_h_len syn acquired p t =
     (if \<not> acquired then (Inl TC_ACT_SHOT, t)
      else
        let t' = (if syn then upd_pkt (\<lambda>q. q\<lparr>pp_incarnation := tp_incarnation p\<rparr>) t else t) in
        if pp_l4proto (tc_pkt t) = IPPROTO_TCP then do_tproxy_wan_egress_tcp e pe link_h_len p t'
        else if pp_l4proto (tc_pkt t) = IPPROTO_UDP then do_tproxy_wan_egress_udp e pe link_h_len t'
        else (Inr TC_ACT_UNSPEC, t'))"

definition do_tproxy_wan_egress :: "env \<Rightarrow> packet_env \<Rightarrow> net_types \<Rightarrow> nat \<Rightarrow> tc \<Rightarrow> verdict \<times> tc" where
  "do_tproxy_wan_egress e pe nt link_h_len t =
     (case wan_egress_admission e nt link_h_len t of
        (Some v, t1) \<Rightarrow> (v, t1)
      | (None, t1) \<Rightarrow>
          let pkt = tc_pkt t1; key = five (pp_tuples pkt);
              syn = (pp_l4proto pkt = IPPROTO_TCP \<and> is_new_tcp_connection (pp_tcph pkt));
              ((acquired, p), t2) = run_acquire e syn (TcpPublisher_new key) t1;
              (v, t3) = wan_dispatch e pe link_h_len syn acquired p t2
          in (v, upd_dp (publisher_drop p) t3))"

definition lan_egress_l2 :: "env \<Rightarrow> net_types \<Rightarrow> tc \<Rightarrow> int \<times> tc" where
  "lan_egress_l2 e nt t = (let (v, t1) = do_tproxy_lan_egress e nt 14 t in (flatten v, t1))"

definition lan_egress_l3 :: "env \<Rightarrow> net_types \<Rightarrow> tc \<Rightarrow> int \<times> tc" where
  "lan_egress_l3 e nt t =
     (let (v, t1) = do_tproxy_lan_egress e nt (l3_link_h_len (tc_skb t)) t in (flatten v, t1))"

definition wan_egress_l2 :: "env \<Rightarrow> packet_env \<Rightarrow> net_types \<Rightarrow> tc \<Rightarrow> int \<times> tc" where
  "wan_egress_l2 e pe nt t = run_record e (do_tproxy_wan_egress e pe nt 14 t)"

definition wan_egress_l3 :: "env \<Rightarrow> packet_env \<Rightarrow> net_types \<Rightarrow> tc \<Rightarrow> int \<times> tc" where
  "wan_egress_l3 e pe nt t =
     run_record e (do_tproxy_wan_egress e pe nt (l3_link_h_len (tc_skb t)) t)"

end
