(* ===== verification/Frame.thy ===== *)
theory Frame
  imports Egress
begin

text \<open>
  What the classifiers may do to the maps. \<open>datapath_frame\<close> is the interface between a property of
  the maps and the code: its laws list the writes the code performs, each with the condition
  under which the code performs it, and its lemmas show that every operation and every classifier
  is built from these writes alone. A property that satisfies the laws holds after every packet.
\<close>

section \<open>The laws\<close>

text \<open>The maps whose entries own flows or steer the datapath; all other fields are statistics,
  caches, traces and the clock.\<close>

definition same_owned :: "dp \<Rightarrow> dp \<Rightarrow> bool" where
  "same_owned s s' \<longleftrightarrow>
     CONN_STATE_MAP s' = CONN_STATE_MAP s \<and> REDIRECT_TRACK s' = REDIRECT_TRACK s
     \<and> ROUTING_HANDOFF_MAP s' = ROUTING_HANDOFF_MAP s \<and> TCP_PUBLISHING s' = TCP_PUBLISHING s
     \<and> RETIRE_ACTIVE s' = RETIRE_ACTIVE s \<and> RETIRE_FENCE s' = RETIRE_FENCE s
     \<and> TCP_LIVE_PINS s' = TCP_LIVE_PINS s \<and> UDP_DECISION_SEQUENCE s' = UDP_DECISION_SEQUENCE s
     \<and> FLOW_INCARNATION_SEQUENCE s' = FLOW_INCARNATION_SEQUENCE s
     \<and> OUTBOUND_CONNECTIVITY_MAP s' = OUTBOUND_CONNECTIVITY_MAP s
     \<and> DATAPATH_STATE_MAP s' = DATAPATH_STATE_MAP s \<and> DATAPATH_FLAGS_MAP s' = DATAPATH_FLAGS_MAP s
     \<and> ADMISSION_PRESSURE s' = ADMISSION_PRESSURE s"

abbreviation put_conn :: "tuples_key \<Rightarrow> conn_state \<Rightarrow> dp \<Rightarrow> dp" where
  "put_conn k c s \<equiv> s\<lparr>CONN_STATE_MAP := (CONN_STATE_MAP s)(k \<mapsto> c)\<rparr>"
abbreviation put_redirect :: "redirect_tuple \<Rightarrow> redirect_entry \<Rightarrow> dp \<Rightarrow> dp" where
  "put_redirect k r s \<equiv> s\<lparr>REDIRECT_TRACK := (REDIRECT_TRACK s)(k \<mapsto> r)\<rparr>"
abbreviation put_handoff :: "tuples_key \<Rightarrow> routing_handoff_entry \<Rightarrow> dp \<Rightarrow> dp" where
  "put_handoff k h s \<equiv> s\<lparr>ROUTING_HANDOFF_MAP := (ROUTING_HANDOFF_MAP s)(k \<mapsto> h)\<rparr>"

text \<open>The TCP tuples a packet's publisher works on, and the parsed packet's tuple protocol.\<close>

definition pkt_ok :: "parsed_packet \<Rightarrow> bool" where
  "pkt_ok pkt \<longleftrightarrow> l4proto (five (pp_tuples pkt)) = pp_l4proto pkt"

definition on_maps :: "(dp \<Rightarrow> bool) \<Rightarrow> tc \<Rightarrow> bool" where
  "on_maps Q t \<longleftrightarrow> Q (tc_dp t) \<and> pkt_ok (tc_pkt t)"

definition dp_sat :: "(dp \<Rightarrow> bool) \<Rightarrow> tc \<Rightarrow> bool" where
  "dp_sat Q t \<longleftrightarrow> Q (tc_dp t)"

locale datapath_frame =
  fixes Q :: "dp \<Rightarrow> bool"
  assumes other_maps: "Q s \<Longrightarrow> same_owned s s' \<Longrightarrow> Q s'"
    and new_incarnation: "Q s \<Longrightarrow> FLOW_INCARNATION_SEQUENCE s < FLOW_INCARNATION_MAX \<Longrightarrow>
          Q (s\<lparr>FLOW_INCARNATION_SEQUENCE := FLOW_INCARNATION_SEQUENCE s + 1\<rparr>)"
    and new_token: "Q s \<Longrightarrow>
          Q (s\<lparr>UDP_DECISION_SEQUENCE := snd (snd (next_decision_token (UDP_DECISION_SEQUENCE s)))\<rparr>)"
    and conn_touch: "Q s \<Longrightarrow> \<not> tuple_retiring s k \<Longrightarrow> CONN_STATE_MAP s k = Some c \<Longrightarrow>
          Q (put_conn k (c\<lparr>cs_last_seen_ns := n\<rparr>) s)"
    and conn_settle: "Q s \<Longrightarrow> CONN_STATE_MAP s k = Some c \<Longrightarrow> cs_state c = udp_state_u8 Preparing \<Longrightarrow>
          cs_decision_token c = 0 \<Longrightarrow> cs_incarnation c' = cs_incarnation c \<Longrightarrow> Q (put_conn k c' s)"
    and conn_tcp: "Q s \<Longrightarrow> \<not> tuple_retiring s k \<Longrightarrow> CONN_STATE_MAP s k = Some c \<Longrightarrow> l4proto k = IPPROTO_TCP \<Longrightarrow>
          cs_incarnation c' = cs_incarnation c \<Longrightarrow> Q (put_conn k c' s)"
    and conn_publish: "Q s \<Longrightarrow> \<not> tuple_retiring s k \<Longrightarrow> l4proto k = IPPROTO_TCP \<Longrightarrow>
          TCP_PUBLISHING s k = Some (cs_incarnation c') \<Longrightarrow> cs_incarnation c' \<noteq> 0 \<Longrightarrow> Q (put_conn k c' s)"
    and conn_claim: "Q s \<Longrightarrow> \<not> tuple_retiring s k \<Longrightarrow> FLOW_INCARNATION_SEQUENCE s < FLOW_INCARNATION_MAX \<Longrightarrow>
          CONN_STATE_MAP s k = None \<Longrightarrow> cs_incarnation c' = FLOW_INCARNATION_SEQUENCE s + 1 \<Longrightarrow>
          Q (put_conn k c' (s\<lparr>FLOW_INCARNATION_SEQUENCE := FLOW_INCARNATION_SEQUENCE s + 1\<rparr>))"
    and redirect_keep: "Q s \<Longrightarrow> \<not> tuple_retiring s k \<Longrightarrow> REDIRECT_TRACK s (from_tuples k) = Some r \<Longrightarrow>
          re_incarnation r' = re_incarnation r \<Longrightarrow> re_decision_token r' = re_decision_token r \<Longrightarrow>
          Q (put_redirect (from_tuples k) r' s)"
    and redirect_new: "Q s \<Longrightarrow> \<not> tuple_retiring s k \<Longrightarrow> REDIRECT_TRACK s (from_tuples k) = None \<Longrightarrow>
          Q (put_redirect (from_tuples k) r' s)"
    and redirect_publish: "Q s \<Longrightarrow> \<not> tuple_retiring s k \<Longrightarrow> syn_publisher s k (re_incarnation r') \<Longrightarrow>
          Q (put_redirect (from_tuples k) r' s)"
    and handoff_keep: "Q s \<Longrightarrow> \<not> tuple_retiring s k \<Longrightarrow> ROUTING_HANDOFF_MAP s k = Some h \<Longrightarrow>
          he_incarnation h' = he_incarnation h \<Longrightarrow>
          rr_decision_token (he_result h') = rr_decision_token (he_result h) \<Longrightarrow> Q (put_handoff k h' s)"
    and handoff_new: "Q s \<Longrightarrow> \<not> tuple_retiring s k \<Longrightarrow> ROUTING_HANDOFF_MAP s k = None \<Longrightarrow>
          Q (put_handoff k h' s)"
    and handoff_publish: "Q s \<Longrightarrow> \<not> tuple_retiring s k \<Longrightarrow> syn_publisher s k (he_incarnation h') \<Longrightarrow>
          Q (put_handoff k h' s)"

lemma same_owned_retiring: "same_owned s s' \<Longrightarrow> tuple_retiring s' k = tuple_retiring s k"
  by (simp add: same_owned_def tuple_retiring_def)

lemma same_owned_refl [simp]: "same_owned s s"
  by (simp add: same_owned_def)

lemma same_owned_bpf_ktime_get_ns: "same_owned s (snd (bpf_ktime_get_ns e s))"
  by (simp add: same_owned_def bpf_ktime_get_ns_def)

lemma same_owned_increment_bpf_stat: "same_owned s (increment_bpf_stat k s)"
  by (simp add: same_owned_def increment_bpf_stat_def)

lemma same_owned_send_dae_event:
  "same_owned s (snd (send_dae_event e ty pid pname ob proto sip dip sp dp' s))"
  by (simp add: same_owned_def send_dae_event_def bpf_ktime_get_ns_def Let_def)

lemma same_owned_send_flow_expired: "same_owned s (send_flow_expired e key i s)"
  by (simp add: same_owned_def send_flow_expired_def bpf_ktime_get_ns_def Let_def split: option.split)

lemma same_owned_occupancy_add: "same_owned s (occupancy_add s)"
  by (simp add: same_owned_def occupancy_add_def)

lemma same_owned_count_tx: "same_owned s (count_tx len ob s)"
  by (simp add: same_owned_def count_tx_def)

lemma same_owned_count_rx: "same_owned s (count_rx len ob s)"
  by (simp add: same_owned_def count_rx_def)

lemma same_owned_try_acquire: "same_owned s (snd (try_acquire e src s))"
  by (simp add: same_owned_def try_acquire_def bpf_ktime_get_ns_def Let_def split: option.split)

lemma same_owned_publish_client_reply: "same_owned s (publish_client_reply e key rkey r s)"
  by (simp add: same_owned_def publish_client_reply_def)

lemma same_owned_capture: "same_owned s (snd (snd (capture e tuple token amb w s)))"
  by (simp add: same_owned_def capture_def bpf_ktime_get_ns_def Let_def)

lemma same_owned_condemned: "same_owned s (snd (condemned e pkt s))"
  by (simp add: same_owned_def condemned_def bpf_ktime_get_ns_def Let_def split: option.split)

lemma same_owned_record_verdict: "same_owned s (snd (record_verdict e pkt v s))"
  by (simp add: same_owned_def record_verdict_def bpf_ktime_get_ns_def Let_def)

lemmas same_owned_ops = same_owned_bpf_ktime_get_ns same_owned_increment_bpf_stat
  same_owned_send_dae_event same_owned_send_flow_expired same_owned_occupancy_add
  same_owned_count_tx same_owned_count_rx same_owned_try_acquire same_owned_publish_client_reply
  same_owned_capture same_owned_condemned same_owned_record_verdict

section \<open>Composition\<close>

text \<open>How a predicate on a threaded state passes through the control structures of the model.\<close>

locale threaded_state =
  fixes P :: "'s \<Rightarrow> bool"
begin

lemma bind_pair: "P (snd p) \<Longrightarrow> (\<And>a b. p = (a, b) \<Longrightarrow> P b \<Longrightarrow> P (snd (f a b))) \<Longrightarrow> P (snd (case p of (a, b) \<Rightarrow> f a b))"
  by (cases p) simp

lemma bind_let: "P (snd p) \<Longrightarrow> (\<And>a b. p = (a, b) \<Longrightarrow> P b \<Longrightarrow> P (snd (f a b))) \<Longrightarrow> P (snd (let (a, b) = p in f a b))"
  by (cases p) simp

lemma bind_state: "P s \<Longrightarrow> (\<And>x. x = s \<Longrightarrow> P x \<Longrightarrow> P (snd (f x))) \<Longrightarrow> P (snd (let x = s in f x))"
  by simp

lemma bind_val: "(\<And>x. x = v \<Longrightarrow> P (snd (f x))) \<Longrightarrow> P (snd (let x = v in f x))"
  by simp

lemma bind_if: "(c \<Longrightarrow> P (snd a)) \<Longrightarrow> (\<not> c \<Longrightarrow> P (snd b)) \<Longrightarrow> P (snd (if c then a else b))"
  by simp

lemma bind_ret: "P s \<Longrightarrow> P (snd (r, s))"
  by simp

lemma bind_if_state: "P a \<Longrightarrow> P b \<Longrightarrow> P (if c then a else b)"
  by simp

lemma bind_option: "P (snd a) \<Longrightarrow> (\<And>y. P (snd (b y))) \<Longrightarrow> P (snd (case x of None \<Rightarrow> a | Some y \<Rightarrow> b y))"
  by (cases x) simp_all

lemma bind_sum: "(\<And>y. P (snd (a y))) \<Longrightarrow> (\<And>y. P (snd (b y))) \<Longrightarrow> P (snd (case x of Inl y \<Rightarrow> a y | Inr y \<Rightarrow> b y))"
  by (cases x) simp_all

lemma bind_bool: "P (snd a) \<Longrightarrow> P (snd b) \<Longrightarrow> P (snd (case x of True \<Rightarrow> a | False \<Rightarrow> b))"
  by (cases x) simp_all

lemma bind_unit: "P (snd a) \<Longrightarrow> P (snd (case x of () \<Rightarrow> a))"
  by (simp only: case_unit_const)

lemma bind_value: "(\<And>a b. p = (a, b) \<Longrightarrow> P (snd (f a b))) \<Longrightarrow> P (snd (case p of (a, b) \<Rightarrow> f a b))"
  by (cases p) simp

lemma bind_value2:
  "(\<And>a b. p = (a, b) \<Longrightarrow> P (snd (f a b x))) \<Longrightarrow> P (snd ((case p of (a, b) \<Rightarrow> f a b) x))"
  by (cases p) simp

lemmas binds = bind_pair bind_let bind_state bind_val bind_if bind_ret bind_if_state bind_option bind_sum
  bind_bool bind_unit bind_value bind_value2

end

sublocale datapath_frame \<subseteq> m: threaded_state Q .

sublocale datapath_frame \<subseteq> d: threaded_state "dp_sat Q" .

sublocale datapath_frame \<subseteq> t: threaded_state "on_maps Q" .

section \<open>Operations on the maps\<close>

context datapath_frame
begin

lemma kept_ktime: "Q s \<Longrightarrow> Q (snd (bpf_ktime_get_ns e s))"
  by (erule other_maps) (rule same_owned_ops)

lemma kept_stat: "Q s \<Longrightarrow> Q (increment_bpf_stat k s)"
  by (erule other_maps) (rule same_owned_ops)

lemma kept_event: "Q s \<Longrightarrow> Q (snd (send_dae_event e ty pid pname ob proto sip dip sp dp' s))"
  by (erule other_maps) (rule same_owned_ops)

lemma kept_expired: "Q s \<Longrightarrow> Q (send_flow_expired e key i s)"
  by (erule other_maps) (rule same_owned_ops)

lemma kept_occupancy: "Q s \<Longrightarrow> Q (occupancy_add s)"
  by (erule other_maps) (rule same_owned_ops)

lemma kept_count_tx: "Q s \<Longrightarrow> Q (count_tx len ob s)"
  by (erule other_maps) (rule same_owned_ops)

lemma kept_count_rx: "Q s \<Longrightarrow> Q (count_rx len ob s)"
  by (erule other_maps) (rule same_owned_ops)

lemma kept_try_acquire: "Q s \<Longrightarrow> Q (snd (try_acquire e src s))"
  by (erule other_maps) (rule same_owned_ops)

lemma kept_client_reply: "Q s \<Longrightarrow> Q (publish_client_reply e key rkey r s)"
  by (erule other_maps) (rule same_owned_ops)

lemma kept_capture: "Q s \<Longrightarrow> Q (snd (snd (capture e tuple token amb w s)))"
  by (erule other_maps) (rule same_owned_ops)

lemma kept_condemned: "Q s \<Longrightarrow> Q (snd (condemned e pkt s))"
  by (erule other_maps) (rule same_owned_ops)

lemma kept_record: "Q s \<Longrightarrow> Q (snd (record_verdict e pkt v s))"
  by (erule other_maps) (rule same_owned_ops)

lemma kept_exceeded: "Q s \<Longrightarrow> Q (snd (exceeded e src s))"
  using kept_try_acquire[of s e src] by (auto simp: exceeded_def Let_def kept_stat split: prod.splits)

lemma kept_allocate_incarnation: "Q s \<Longrightarrow> Q (snd (allocate_flow_incarnation s))"
  using new_incarnation[of s] by (auto simp: allocate_flow_incarnation_def Let_def split: if_splits)

lemma kept_allocate_token: "Q s \<Longrightarrow> Q (snd (allocate_udp_decision_token e key s))"
  using new_token[of s]
  by (auto simp: allocate_udp_decision_token_def Let_def kept_event split: prod.splits)

lemma kept_lifecycle: "Q s \<Longrightarrow> Q (snd (available_tuple_lifecycle e key now s))"
  using kept_ktime[of s e]
  by (auto simp: available_tuple_lifecycle_def Let_def kept_expired split: option.splits prod.splits)

lemma kept_tuple_unavailable: "Q s \<Longrightarrow> Q (snd (tuple_unavailable e key s))"
  using kept_lifecycle[of s e key None] by (auto simp: tuple_unavailable_def split: prod.splits)

lemma allocate_Some:
  assumes "allocate_flow_incarnation s = (Some i, s')"
  shows "FLOW_INCARNATION_SEQUENCE s < FLOW_INCARNATION_MAX" "i = FLOW_INCARNATION_SEQUENCE s + 1"
    "s' = s\<lparr>FLOW_INCARNATION_SEQUENCE := FLOW_INCARNATION_SEQUENCE s + 1\<rparr>"
  using assms by (auto simp: allocate_flow_incarnation_def Let_def split: if_splits)

lemma kept_claim:
  assumes "Q s" shows "Q (snd (claim_udp_preparing e key mac s))"
proof (cases "tuple_retiring s key")
  case True
  then show ?thesis using assms by (simp add: claim_udp_preparing_def)
next
  case free: False
  obtain r s1 where a: "allocate_flow_incarnation s = (r, s1)" by (cases "allocate_flow_incarnation s")
  have q1: "Q s1" using kept_allocate_incarnation[OF assms] a by simp
  show ?thesis
  proof (cases r)
    case None
    then show ?thesis using assms a q1 by (simp add: claim_udp_preparing_def)
  next
    case (Some i)
    note al = allocate_Some[of s i s1, OF a[unfolded Some]]
    obtain now s2 where t: "bpf_ktime_get_ns e s1 = (now, s2)" by (cases "bpf_ktime_get_ns e s1")
    have q2: "Q s2" using kept_ktime[OF q1, of e] t by simp
    have s2: "s2 = s1\<lparr>ticks := ticks s1 + 1\<rparr>" using t by (simp add: bpf_ktime_get_ns_def)
    have new: "Q (put_conn key c s2)" if "cs_incarnation c = i" "CONN_STATE_MAP s2 key = None" for c
    proof -
      have "Q (put_conn key c s1)"
        using conn_claim[OF assms free al(1), of c] that unfolding s2 al(2,3) by simp
      then show ?thesis by (rule other_maps) (simp add: same_owned_def s2)
    qed
    show ?thesis
    proof (cases "CONN_STATE_MAP s2 key = None \<and> conn_room e key")
      case True
      then show ?thesis
        using assms a Some t new
        by (simp add: claim_udp_preparing_def Let_def insert_noexist_def kept_occupancy)
    next
      case False
      then have "insert_noexist (conn_room e key) key c (CONN_STATE_MAP s2) = (False, CONN_STATE_MAP s2)" for c
        by (auto simp: insert_noexist_def)
      then show ?thesis
        using assms a Some t q2 kept_event[OF kept_stat[OF q2]]
        by (simp add: claim_udp_preparing_def Let_def case_prod_unfold)
    qed
  qed
qed

lemma kept_publish_claimed: "Q s \<Longrightarrow> Q (snd (publish_claimed_udp_state key state s))"
  by (auto simp: publish_claimed_udp_state_def intro: conn_settle split: option.splits)

lemma kept_abort: "Q s \<Longrightarrow> Q (abort_udp_preparing e key i tok s)"
  by (auto simp: abort_udp_preparing_def intro!: kept_expired intro: conn_settle split: option.splits)

lemma kept_populate: "Q s \<Longrightarrow> Q (snd (populate_udp_conn_state e meta mac st tok i s))"
  using kept_ktime[of s e] by (auto simp: populate_udp_conn_state_def split: prod.splits)

lemma kept_lookup_at: "Q s \<Longrightarrow> Q (snd (lookup_udp_seen_at e key now s))"
proof -
  assume q: "Q s"
  have "Q (put_conn key c s)" if "\<not> tuple_retiring s key" "CONN_STATE_MAP s key = Some c" for c
    using conn_touch[OF q that, of "cs_last_seen_ns c"] by simp
  then show ?thesis
    using q by (auto simp: lookup_udp_seen_at_def Let_def intro!: kept_expired conn_touch split: option.splits)
qed

lemma kept_lookup: "Q s \<Longrightarrow> Q (snd (lookup_udp_seen e key s))"
  using kept_ktime[of s e] by (auto simp: lookup_udp_seen_def intro!: kept_lookup_at split: prod.splits)

lemma kept_lookup_available: "Q s \<Longrightarrow> Q (snd (lookup_udp_available e key s))"
  using kept_lookup[of s e key] by (auto simp: lookup_udp_available_def split: prod.splits option.splits)

lemma kept_renew: "Q s \<Longrightarrow> Q (renew_udp_reply key snap r now s)"
  by (auto simp: renew_udp_reply_def intro: conn_touch split: option.splits)

lemma kept_mark_udp_args:
  assumes "Q s" shows "Q (snd (mark_udp_seen_args e key dir args mf s))"
  using kept_ktime[OF assms, of e]
  unfolding mark_udp_seen_args_def Let_def case_prod_unfold
  by (auto intro!: kept_abort kept_publish_claimed kept_claim kept_lookup_at split: option.split bool.split)

lemma kept_mark_udp: "Q s \<Longrightarrow> Q (snd (mark_udp_seen e key dir ob mk ms mac dscp pn pid tr mf s))"
  by (simp add: mark_udp_seen_def Let_def kept_mark_udp_args)

lemma kept_reverse_observe: "Q s \<Longrightarrow> Q (observe_reverse_udp e key s)"
  unfolding observe_reverse_udp_def case_prod_unfold
  by (auto intro!: kept_stat kept_lookup kept_mark_udp split: option.split)

lemma kept_reverse_available: "Q s \<Longrightarrow> Q (snd (reverse_udp_available e key learn s))"
  unfolding reverse_udp_available_def
  by (rule m.binds kept_reverse_observe kept_lookup_available kept_tuple_unavailable | assumption)+

lemma kept_local_reply_seen: "Q s \<Longrightarrow> Q (snd (local_udp_reply_seen e key s))"
  unfolding local_udp_reply_seen_def
  by (rule m.binds kept_lookup | assumption)+

lemma kept_observe_local: "Q s \<Longrightarrow> Q (snd (observe_local_udp_reply e key r s))"
  unfolding observe_local_udp_reply_def case_prod_unfold
  by (auto simp: Let_def intro!: kept_try_acquire kept_reverse_observe split: bool.split)

lemma kept_aux_expired: "Q s \<Longrightarrow> Q (snd (auxiliary_expired e key i el h s))"
  by (auto simp: auxiliary_expired_def Let_def intro!: kept_expired)

lemma kept_valid_proof: "Q s \<Longrightarrow> Q (snd (valid_proof e b key isn s))"
  unfolding valid_proof_def
  by (rule m.binds kept_ktime | assumption)+

lemma kept_inspect: "Q s \<Longrightarrow> Q (snd (inspect_syn_owner e sk key isn s))"
  unfolding inspect_syn_owner_def
  by (rule m.binds kept_valid_proof | assumption)+

lemma kept_native_owner: "Q s \<Longrightarrow> Q (snd (native_syn_owner e key isn s))"
  unfolding native_syn_owner_def
  by (rule m.binds kept_inspect | assumption)+

lemma kept_bind_child: "Q s \<Longrightarrow> Q (snd (bind_child e owned ops st s))"
  unfolding bind_child_def
  by (rule m.binds kept_valid_proof kept_stat | assumption)+

lemma kept_pending_publication: "Q s \<Longrightarrow> Q (snd (pending_syn_publication e key i s))"
  unfolding pending_syn_publication_def prod.case
  by (rule m.binds kept_aux_expired kept_ktime | assumption)+

lemma update_tcp_locked_owner [simp]:
  "cs_incarnation (update_tcp_locked args now fr c) = cs_incarnation c"
  by (simp add: update_tcp_locked_def Let_def)

lemma kept_observe_tcp:
  assumes "Q s" "l4proto key = IPPROTO_TCP" "\<not> tuple_retiring s key"
  shows "Q (snd (observe_tcp e key args now fr syn s))"
proof (cases "CONN_STATE_MAP s key")
  case None
  then show ?thesis using assms by (simp add: observe_tcp_def)
next
  case (Some c)
  note upd = conn_tcp[OF assms(1,3) Some assms(2)]
  show ?thesis
    unfolding observe_tcp_def Some option.case Let_def
    using assms(1) upd[of c] upd[of "update_tcp_locked args now fr c"]
    by (simp add: kept_expired)
qed

lemma kept_publish_fresh:
  assumes "Q s" "l4proto key = IPPROTO_TCP" "\<not> tuple_retiring s key"
  shows "Q (snd (publish_fresh_tcp e key args now ex s))"
proof -
  have "Q (put_conn key c s)" if "cs_incarnation c = ca_incarnation args"
     "\<not> (ca_incarnation args = 0 \<or> TCP_PUBLISHING s key \<noteq> Some (ca_incarnation args))" for c
    using conn_publish[OF assms(1,3,2), of c] that by simp
  then show ?thesis
    unfolding publish_fresh_tcp_def Let_def case_prod_unfold insert_noexist_def
    using assms(1)
    by (simp add: kept_occupancy kept_event kept_stat split: option.split)
qed

lemma kept_mark_tcp:
  assumes "Q s" "l4proto key = IPPROTO_TCP"
  shows "Q (snd (mark_tcp_seen e key tcph ob mk ms mac dscp pn pid tr p s))"
proof -
  note q = kept_ktime[OF assms(1), of e]
  show ?thesis
    unfolding mark_tcp_seen_def mark_tcp_seen_args_def Let_def case_prod_unfold
    using assms(1) kept_publish_fresh[OF q assms(2)] kept_observe_tcp[OF q assms(2)]
    by (simp add: same_owned_retiring[OF same_owned_bpf_ktime_get_ns] split: tcp_syn_kind.split)
qed

lemma kept_publish_routing:
  assumes "Q s" "l4proto key = IPPROTO_TCP"
  shows "Q (snd (publish_tcp_routing key snap s))"
  unfolding publish_tcp_routing_def
  using assms(1) conn_tcp[OF assms(1) _ _ assms(2)] by (simp split: option.split)

lemma kept_commit: "Q s \<Longrightarrow> Q (snd (commit_tcp_intercept key isn i s))"
  using conn_tcp[of s key]
  unfolding commit_tcp_intercept_def by (simp split: option.split)

lemma kept_touch_redirect:
  assumes "Q s" "\<not> tuple_retiring s key"
  shows "Q (snd (touch_redirect e key (from_tuples key) snap now s))"
proof -
  define s1 where "s1 = snd (auxiliary_expired e key (ai_incarnation snap)
      (saturating_sub now (ai_last_seen_ns snap)) False s)"
  have q: "Q s1" unfolding s1_def by (rule kept_aux_expired[OF assms(1)])
  have r: "\<not> tuple_retiring s1 key"
    using assms(2) same_owned_retiring[OF same_owned_send_flow_expired]
    by (simp add: s1_def auxiliary_expired_def Let_def)
  show ?thesis
    using q redirect_keep[OF q r]
    unfolding touch_redirect_def Let_def case_prod_unfold s1_def[symmetric]
    by (simp add: kept_client_reply split: option.split)
qed

lemma kept_refresh_redirect: "Q s \<Longrightarrow> Q (snd (refresh_redirect e key (from_tuples key) tok i now s))"
  unfolding refresh_redirect_def
  by (rule m.binds kept_touch_redirect | assumption)+

lemma kept_reverse_redirect: "Q s \<Longrightarrow> Q (snd (reverse_redirect e key (from_tuples key) now s))"
  unfolding reverse_redirect_def
  by (rule m.binds kept_touch_redirect | assumption)+

lemma kept_refresh_handoff: "Q s \<Longrightarrow> Q (snd (refresh_handoff key tok i now s))"
  using handoff_keep[of s key]
  unfolding refresh_handoff_def Let_def by (simp split: option.split)

lemma kept_aux_redirect: "Q s \<Longrightarrow> Q (s\<lparr>AUX_REDIRECT_INSERTS := n\<rparr>)"
  by (erule other_maps) (simp add: same_owned_def)

lemma kept_aux_handoff: "Q s \<Longrightarrow> Q (s\<lparr>AUX_HANDOFF_INSERTS := n\<rparr>)"
  by (erule other_maps) (simp add: same_owned_def)

lemma kept_publish_redirect:
  assumes "Q s"
  shows "Q (snd (publish_redirect e key (from_tuples key) r rep s))"
proof (cases "REDIRECT_TRACK s (from_tuples key)")
  case None
  have "redirect_identity s (from_tuples key) = None" by (simp add: redirect_identity_def None)
  then show ?thesis
    using assms redirect_new[OF assms _ None, of r]
    unfolding publish_redirect_def insert_noexist_def Let_def
    by (simp add: None kept_client_reply kept_stat kept_aux_redirect)
next
  case (Some c)
  note keep = redirect_keep[OF assms _ Some] and pub = redirect_publish[OF assms, of key r]
  show ?thesis
  proof (cases "stateless_publication key (re_decision_token r) (re_incarnation r)")
    case True
    then show ?thesis
      using assms keep
      unfolding publish_redirect_def Let_def
      by (simp add: Some kept_client_reply stateless_publication_def)
  next
    case False
    then show ?thesis
      using assms pub
      unfolding publish_redirect_def Let_def insert_noexist_def
      by (simp add: Some kept_stat redirect_identity_def)
  qed
qed

lemma kept_publish_handoff:
  assumes "Q s"
  shows "Q (snd (publish_handoff e key h rep s))"
proof (cases "ROUTING_HANDOFF_MAP s key")
  case None
  have "handoff_identity s key = None" by (simp add: handoff_identity_def None)
  then show ?thesis
    using assms handoff_new[OF assms _ None, of h]
    unfolding publish_handoff_def insert_noexist_def Let_def
    by (simp add: None kept_stat kept_aux_handoff)
next
  case (Some c)
  note keep = handoff_keep[OF assms _ Some] and pub = handoff_publish[OF assms, of key h]
  show ?thesis
  proof (cases "stateless_publication key (rr_decision_token (he_result h)) (he_incarnation h)")
    case True
    then show ?thesis
      using assms keep
      unfolding publish_handoff_def Let_def
      by (simp add: Some stateless_publication_def)
  next
    case False
    then show ?thesis
      using assms pub
      unfolding publish_handoff_def Let_def insert_noexist_def
      by (simp add: Some kept_stat handoff_identity_def)
  qed
qed

lemma kept_handoff_needs:
  assumes "Q s" shows "Q (snd (handoff_needs_publish prep key tok i now s))"
  using assms kept_refresh_handoff[OF assms] by (cases prep) (simp_all add: case_prod_unfold Let_def)

lemma kept_redirect_needs: "Q s \<Longrightarrow> Q (snd (redirect_needs_publish e key (from_tuples key) prep tok i now s))"
  unfolding redirect_needs_publish_def
  by (rule m.binds kept_refresh_redirect | assumption)+

lemma kept_lan_handoff:
  "Q s \<Longrightarrow> Q (snd (publish_lan_handoff e pkt meta policy tok gen tr i now s))"
  unfolding publish_lan_handoff_def
  by (rule m.binds kept_handoff_needs kept_publish_handoff | assumption)+

lemma kept_lan_redirect:
  "Q s \<Longrightarrow> Q (snd (publish_lan_redirect e sk pkt meta policy tok i now s))"
  unfolding publish_lan_redirect_def Let_def
  by (rule m.binds kept_redirect_needs kept_publish_redirect | assumption)+

lemma kept_prep:
  assumes "Q s"
  shows "Q (snd (snd (prep_redirect_to_control_plane e ch l tup eth fw mode ob tok i sk s)))"
proof -
  let ?s1 = "snd (bpf_ktime_get_ns e s)"
  have q2: "Q (snd (redirect_needs_publish e key (from_tuples key) mode tok i now ?s1))" for key now
    by (intro kept_redirect_needs kept_ktime assms)
  show ?thesis
    unfolding prep_redirect_to_control_plane_def Let_def case_prod_unfold case_unit_const
    by (simp add: assms q2 kept_publish_redirect[OF q2] split: sum.split bool.split)
qed

lemma on_mapsD: "on_maps Q t \<Longrightarrow> Q (tc_dp t)"
  by (simp add: on_maps_def)

lemma t_on_dp: "on_maps Q t \<Longrightarrow> Q (snd (f (tc_dp t))) \<Longrightarrow> on_maps Q (snd (on_dp f t))"
  by (simp add: on_maps_def on_dp_def case_prod_unfold Let_def)

lemma t_upd_dp: "on_maps Q t \<Longrightarrow> Q (f (tc_dp t)) \<Longrightarrow> on_maps Q (upd_dp f t)"
  by (simp add: on_maps_def upd_dp_def)

lemma t_upd_skb: "on_maps Q t \<Longrightarrow> on_maps Q (upd_skb f t)"
  by (simp add: on_maps_def upd_skb_def)

lemma t_set_mark: "on_maps Q t \<Longrightarrow> on_maps Q (set_mark m t)"
  by (simp add: set_mark_def t_upd_skb)

lemma t_upd_pkt: "on_maps Q t \<Longrightarrow> (\<And>p. pkt_ok p \<Longrightarrow> pkt_ok (f p)) \<Longrightarrow> on_maps Q (upd_pkt f t)"
  by (simp add: on_maps_def upd_pkt_def)

lemma t_redirect_to: "on_maps Q t \<Longrightarrow> on_maps Q (snd (redirect_to pe peer i fl t))"
  by (simp add: on_maps_def redirect_to_def)

lemma t_capture: "on_maps Q t \<Longrightarrow> on_maps Q (snd (run_capture e tok amb t))"
  using kept_capture[of "tc_dp t"]
  by (simp add: on_maps_def run_capture_def case_prod_unfold Let_def pkt_ok_def)

lemma t_wan_capture: "on_maps Q t \<Longrightarrow> on_maps Q (snd (wan_capture e tok amb t))"
  using kept_capture[of "tc_dp t"]
  by (simp add: on_maps_def wan_capture_def case_prod_unfold Let_def pkt_ok_def)

lemma t_run_route: "on_maps Q t \<Longrightarrow> on_maps Q (snd (run_route e pn fl inp t))"
  by (simp add: on_maps_def run_route_def case_prod_unfold Let_def pkt_ok_def upd_pkt_def)

lemma t_run_prep:
  "on_maps Q t \<Longrightarrow> on_maps Q (snd (run_prep_redirect e pe l tup eth fw mode ob tok i t))"
  using kept_prep[of "tc_dp t"]
  by (simp add: on_maps_def run_prep_redirect_def case_prod_unfold Let_def)

lemma pkt_ok_upd [simp]:
  "pkt_ok (p\<lparr>pp_trace_id := x\<rparr>) = pkt_ok p" "pkt_ok (p\<lparr>pp_incarnation := i\<rparr>) = pkt_ok p"
  "pkt_ok (p\<lparr>pp_is_fragmented := f\<rparr>) = pkt_ok p"
  "pkt_ok (p\<lparr>pp_route_witness := w\<rparr>) = pkt_ok p"
  "pkt_ok (p\<lparr>pp_routing_input := ri\<rparr>) = pkt_ok p"
  by (simp_all add: pkt_ok_def)

lemma t_pass_through: "on_maps Q t \<Longrightarrow> on_maps Q (snd (pass_through_classified t))"
  by (simp add: pass_through_classified_def t_set_mark)

lemma t_abort: "on_maps Q t \<Longrightarrow> on_maps Q (snd (abort_and_shoot e tok t))"
  by (simp add: abort_and_shoot_def t_upd_dp kept_abort on_mapsD)

lemma t_mark_tcp:
  "on_maps Q t \<Longrightarrow> l4proto key = IPPROTO_TCP \<Longrightarrow>
   on_maps Q (snd (on_dp (mark_tcp_seen e key tcph ob mk ms mac dscp pn pid tr p) t))"
  by (simp add: t_on_dp kept_mark_tcp on_mapsD)

lemma t_publish_routing:
  "on_maps Q t \<Longrightarrow> l4proto key = IPPROTO_TCP \<Longrightarrow>
   on_maps Q (snd (on_dp (publish_tcp_routing key snap) t))"
  by (simp add: t_on_dp kept_publish_routing on_mapsD)

lemmas t_ops = t_mark_tcp t_publish_routing t_on_dp t_upd_dp t_upd_skb t_set_mark t_redirect_to t_capture
  t_wan_capture t_run_route t_run_prep t_pass_through t_abort

lemmas kept_ops = kept_ktime kept_stat kept_expired kept_count_tx kept_count_rx kept_exceeded
  kept_allocate_token kept_lifecycle kept_tuple_unavailable kept_claim kept_publish_claimed kept_abort
  kept_populate kept_lookup kept_lookup_available kept_renew kept_mark_udp kept_reverse_available
  kept_local_reply_seen kept_observe_local kept_commit kept_reverse_redirect kept_publish_redirect
  kept_publish_handoff kept_handoff_needs kept_lan_handoff kept_lan_redirect kept_condemned on_mapsD

lemma t_redirect_lan:
  "on_maps Q t \<Longrightarrow> on_maps Q (snd (redirect_lan_packet_to_control_plane e pe pkt meta pol tok gen tr i t))"
  unfolding redirect_lan_packet_to_control_plane_def
  by (rule t.binds t_ops kept_ops | assumption)+

lemma t_stage: "on_maps Q t \<Longrightarrow> on_maps Q (snd (stage_udp_decision e meta gen t))"
  unfolding stage_udp_decision_def
  by (rule t.binds t_ops kept_ops | assumption)+

lemma t_cached_udp: "on_maps Q t \<Longrightarrow> on_maps Q (snd (cached_udp_decision e pe state t))"
  unfolding cached_udp_decision_def prod.case
  by (rule t.binds t_redirect_lan t_ops kept_ops | assumption)+

lemma t_tcp_cached:
  "on_maps Q t \<Longrightarrow> pp_l4proto (tc_pkt t) = IPPROTO_TCP \<Longrightarrow> on_maps Q (snd (lan_tcp_cached e pe p t))"
  unfolding lan_tcp_cached_def
  by (rule t.binds t_redirect_lan t_ops kept_ops | assumption | simp add: on_maps_def pkt_ok_def)+

lemma t_local_service: "on_maps Q t \<Longrightarrow> on_maps Q (snd (lan_local_service e pe t))"
  unfolding lan_local_service_def
  by (rule t.binds t_ops kept_ops t_upd_pkt | assumption | simp)+

lemma t_claim: "on_maps Q t \<Longrightarrow> on_maps Q (snd (lan_claim e pe t))"
  unfolding lan_claim_def
  by (rule t.binds t_cached_udp t_ops kept_ops t_upd_pkt | assumption | simp)+

lemma t_route: "on_maps Q t \<Longrightarrow> on_maps Q (snd (lan_route e l fl t))"
  unfolding lan_route_def Let_def case_prod_unfold
  by (auto intro!: t_abort t_upd_pkt split: sum.split)

lemma t_capture_early: "on_maps Q t \<Longrightarrow> on_maps Q (lan_capture_early e st d t)"
  unfolding lan_capture_early_def Let_def
  by (auto intro!: t_capture t_upd_pkt)

lemma t_publish_udp: "on_maps Q t \<Longrightarrow> on_maps Q (snd (lan_publish_udp e l fl d t))"
  unfolding lan_publish_udp_def
  by (rule t.binds t_stage t_ops kept_ops | assumption)+

lemma t_publish: "on_maps Q t \<Longrightarrow> on_maps Q (snd (lan_publish e l fl st d t))"
  unfolding lan_publish_def
  by (rule t.binds t_publish_udp t_ops kept_ops | assumption | simp add: on_maps_def pkt_ok_def)+

lemma t_finish: "on_maps Q t \<Longrightarrow> on_maps Q (snd (lan_finish e pe l pol st d t))"
  unfolding lan_finish_def
  by (rule t.binds t_redirect_lan t_ops kept_ops | assumption)+

lemma t_routed: "on_maps Q t \<Longrightarrow> on_maps Q (snd (lan_routed_flow e pe l st t))"
  unfolding lan_routed_flow_def
  by (rule t.binds t_local_service t_claim t_route t_capture_early t_publish t_finish t_ops kept_ops | assumption)+

lemma t_new_flow: "on_maps Q t \<Longrightarrow> on_maps Q (snd (lan_new_flow e pe l p t))"
  unfolding lan_new_flow_def
  by (rule t.binds t_routed t_cached_udp t_ops kept_ops | assumption | simp add: on_maps_def pkt_ok_def)+

lemma t_parse:
  assumes "Q (tc_dp t)" "run_parse_packet nt l t = (0, t1)"
  shows "on_maps Q t1"
proof -
  obtain pkt c sk where p: "parse_packet nt (tc_skb t) l (tc_pctx t) (tc_pkt t) = (0, pkt, c, sk)"
    "t1 = t\<lparr>tc_pkt := pkt, tc_pctx := c, tc_skb := sk\<rparr>"
    using assms(2) by (auto simp: run_parse_packet_def Let_def split: prod.splits)
  then show ?thesis
    using assms(1) parse_packet_ok(8)[OF p(1)] by (simp add: on_maps_def pkt_ok_def)
qed

lemma parse_maps: "tc_dp (snd (run_parse_packet nt l t)) = tc_dp t"
  by (simp add: run_parse_packet_def case_prod_unfold Let_def)

lemma t_restore: "on_maps Q t \<Longrightarrow> on_maps Q (snd (restore_framing pe entry t))"
  unfolding restore_framing_def Let_def change_type_def
  by (intro t_redirect_to t_upd_skb)

lemma t_fresh:
  "on_maps Q t \<Longrightarrow> pp_l4proto (tc_pkt t) = IPPROTO_TCP \<Longrightarrow> on_maps Q (snd (wan_tcp_fresh e pe l syn t))"
  unfolding wan_tcp_fresh_def
  by (rule t.binds t_ops kept_ops | assumption | simp add: on_maps_def pkt_ok_def)+

lemma t_wan_cached:
  "on_maps Q t \<Longrightarrow> pp_l4proto (tc_pkt t) = IPPROTO_TCP \<Longrightarrow> on_maps Q (snd (wan_tcp_cached e syn t))"
  unfolding wan_tcp_cached_def
  by (rule t.binds t_ops kept_ops t_upd_pkt | assumption | simp add: on_maps_def pkt_ok_def)+

lemma t_wan_publish: "on_maps Q t \<Longrightarrow> on_maps Q (snd (wan_tcp_publish e pe fresh d t))"
  unfolding wan_tcp_publish_def redirect_to_control_plane_egress_def
  by (rule t.binds t_ops kept_ops | assumption)+

lemma t_wan_tcp:
  "on_maps Q t \<Longrightarrow> pp_l4proto (tc_pkt t) = IPPROTO_TCP \<Longrightarrow>
   on_maps Q (snd (do_tproxy_wan_egress_tcp e pe l syn t))"
  unfolding do_tproxy_wan_egress_tcp_def
  by (rule t.binds t_fresh t_wan_cached t_wan_publish t_ops kept_ops | assumption)+

lemma t_fast_path:
  "on_maps Q t \<Longrightarrow>
   on_maps Q (snd (fast_path_decision e pe l ob mk ms mac pn pid tok gen tr di i t))"
  unfolding fast_path_decision_def redirect_to_control_plane_egress_def
  by (rule t.binds t_ops kept_ops | assumption)+

lemma t_wan_routed: "on_maps Q t \<Longrightarrow> on_maps Q (snd (wan_udp_routed e pe l t))"
  unfolding wan_udp_routed_def
  by (rule t.binds t_fast_path t_ops kept_ops t_upd_pkt | assumption | simp)+

lemma t_wan_udp: "on_maps Q t \<Longrightarrow> on_maps Q (snd (do_tproxy_wan_egress_udp e pe l t))"
  unfolding do_tproxy_wan_egress_udp_def
  by (rule t.binds t_wan_routed t_fast_path t_ops kept_ops | assumption)+

lemma reversed_proto [simp]: "l4proto (copy_reversed_tuples key) = l4proto key"
  by (simp add: copy_reversed_tuples_def)

lemma kept_wan_ingress:
  assumes "Q (tc_dp t)"
  shows "Q (tc_dp (snd (do_tproxy_wan_ingress e nt l t)))"
proof -
  obtain ret t1 where p: "run_parse_packet nt l t = (ret, t1)" by (cases "run_parse_packet nt l t")
  then have q1: "Q (tc_dp t1)" using assms parse_maps[of nt l t] by simp
  have "on_maps Q t1" if "ret = 0" using t_parse[OF assms] p that by simp
  then have "ret = 0 \<longrightarrow> on_maps Q (snd (do_tproxy_wan_ingress e nt l t))"
    unfolding do_tproxy_wan_ingress_def p
    by (intro impI) ((rule t.binds t_ops kept_ops | assumption | simp add: on_maps_def pkt_ok_def)+)
  then show ?thesis
    using q1 p by (cases "ret = 0") (simp_all add: do_tproxy_wan_ingress_def on_maps_def)
qed

lemma kept_lan_egress:
  assumes "Q (tc_dp t)"
  shows "Q (tc_dp (snd (do_tproxy_lan_egress e nt l t)))"
proof -
  obtain ret t1 where p: "run_parse_packet nt l t = (ret, t1)" by (cases "run_parse_packet nt l t")
  then have q1: "Q (tc_dp t1)" using assms parse_maps[of nt l t] by simp
  have "on_maps Q t1" if "ret = 0" using t_parse[OF assms] p that by simp
  then have "ret = 0 \<longrightarrow> on_maps Q (snd (do_tproxy_lan_egress e nt l t))"
    unfolding do_tproxy_lan_egress_def p
    by (intro impI) ((rule t.binds t_ops kept_ops | assumption | simp add: on_maps_def pkt_ok_def)+)
  then show ?thesis
    using q1 p by (cases "ret = 0") (simp_all add: do_tproxy_lan_egress_def on_maps_def)
qed

lemma reversed_tuples: "redirect_reverse (from_tuples key) = from_tuples (copy_reversed_tuples key)"
  by (simp add: redirect_reverse_def from_tuples_def copy_reversed_tuples_def)

lemma kept_dae0_reply:
  "Q s \<Longrightarrow> Q (snd (reverse_redirect e (copy_reversed_tuples key) (redirect_reverse (from_tuples key)) now s))"
  by (simp add: reversed_tuples kept_reverse_redirect)

lemma kept_dae0_ingress:
  assumes "Q (tc_dp t)"
  shows "Q (tc_dp (snd (do_tproxy_dae0_ingress e pe nt t)))"
proof -
  obtain ret t1 where p: "run_parse_packet nt ETH_HLEN t = (ret, t1)"
    by (cases "run_parse_packet nt ETH_HLEN t")
  then have q1: "Q (tc_dp t1)" using assms parse_maps[of nt ETH_HLEN t] by simp
  have renew: "on_maps Q (case lc of None \<Rightarrow> x | Some snap \<Rightarrow> if b then upd_dp (renew_udp_reply k snap en now) x else x)"
    if "on_maps Q x" for lc b k en now x
    using that by (cases lc) (simp_all add: t_upd_dp kept_renew on_mapsD)
  have "on_maps Q t1" if "ret = 0" using t_parse[OF assms] p that by simp
  then have "ret = 0 \<longrightarrow> on_maps Q (snd (do_tproxy_dae0_ingress e pe nt t))"
    unfolding do_tproxy_dae0_ingress_def p
    by (intro impI) ((rule t.binds renew t_restore t_ops kept_dae0_reply kept_ops | assumption | simp add: on_maps_def pkt_ok_def)+)
  then show ?thesis
    using q1 p by (cases "ret = 0") (simp_all add: do_tproxy_dae0_ingress_def on_maps_def)
qed

lemma kept_dae0peer: "Q (tc_dp t) \<Longrightarrow> Q (tc_dp (snd (do_tproxy_dae0peer_ingress pe t)))"
  by (auto simp: do_tproxy_dae0peer_ingress_def Let_def upd_skb_def change_type_def sk_assign_by_index_def
      split: option.split)

lemma d_on_dp: "dp_sat Q t \<Longrightarrow> (\<And>s. Q s \<Longrightarrow> Q (snd (f s))) \<Longrightarrow> dp_sat Q (snd (on_dp f t))"
  by (simp add: dp_sat_def on_dp_def case_prod_unfold Let_def)

lemma d_parse: "dp_sat Q t \<Longrightarrow> dp_sat Q (snd (run_parse_packet nt l t))"
  by (simp add: dp_sat_def parse_maps)

lemma d_upd_pkt: "dp_sat Q t \<Longrightarrow> dp_sat Q (upd_pkt f t)"
  by (simp add: dp_sat_def upd_pkt_def)

lemma d_pass: "dp_sat Q t \<Longrightarrow> dp_sat Q (snd (pass_through_classified t))"
  by (simp add: dp_sat_def pass_through_classified_def set_mark_def upd_skb_def)

lemmas d_ops = d_on_dp d_parse d_upd_pkt d_pass

lemma kept_lan_admission: "dp_sat Q t \<Longrightarrow> dp_sat Q (snd (lan_admission e nt l t))"
  unfolding lan_admission_def
  by (rule d.binds d_ops kept_condemned kept_tuple_unavailable | assumption)+

lemma lan_admitted_maps:
  assumes "dp_sat Q t" "lan_admission e nt l t = (None, t1)"
  shows "on_maps Q t1"
proof -
  define t0 where "t0 = upd_pkt (\<lambda>p. p\<lparr>pp_is_fragmented := 0\<rparr>) t"
  have q0: "Q (tc_dp t0)" using assms(1) by (simp add: t0_def upd_pkt_def dp_sat_def)
  obtain ret t2 where p: "run_parse_packet nt l t0 = (ret, t2)" by (cases "run_parse_packet nt l t0")
  have z: "ret = 0"
    using assms(2) p unfolding lan_admission_def t0_def[symmetric]
    by (auto simp: Let_def pass_through_classified_def split: if_splits prod.splits)
  then have "on_maps Q t2" using t_parse[OF q0] p by simp
  then have "on_maps Q (snd (on_dp (tuple_unavailable e key) t2))" for key
    by (rule t_on_dp) (intro kept_tuple_unavailable on_mapsD \<open>on_maps Q t2\<close>)
  with \<open>on_maps Q t2\<close> show ?thesis
    using assms(2) p z unfolding lan_admission_def t0_def[symmetric]
    by (auto simp: Let_def pass_through_classified_def split: if_splits prod.splits) (metis snd_conv)+
qed

lemma kept_wan_admission: "dp_sat Q t \<Longrightarrow> dp_sat Q (snd (wan_egress_admission e nt l t))"
  unfolding wan_egress_admission_def
  by (rule d.binds d_ops kept_condemned kept_tuple_unavailable | assumption)+

lemma wan_admitted_maps:
  assumes "dp_sat Q t" "wan_egress_admission e nt l t = (None, t1)"
  shows "on_maps Q t1"
proof -
  obtain ret t2 where p: "run_parse_packet nt l t = (ret, t2)" by (cases "run_parse_packet nt l t")
  have z: "ret = 0"
    using assms(2) p unfolding wan_egress_admission_def
    by (auto simp: Let_def split: if_splits prod.splits)
  then have "on_maps Q t2" using t_parse[of t] p assms(1) by (simp add: dp_sat_def)
  then have "on_maps Q (snd (on_dp (tuple_unavailable e key) t2))" for key
    by (rule t_on_dp) (intro kept_tuple_unavailable on_mapsD \<open>on_maps Q t2\<close>)
  with \<open>on_maps Q t2\<close> show ?thesis
    using assms(2) p z unfolding wan_egress_admission_def
    by (auto simp: Let_def split: if_splits prod.splits) (metis snd_conv)+
qed

lemma t_lan_dispatch: "on_maps Q t \<Longrightarrow> on_maps Q (snd (lan_dispatch e pe l syn ok p t))"
  unfolding lan_dispatch_def
  by (rule t.binds t_tcp_cached t_new_flow t_ops t_upd_pkt | assumption | simp add: upd_pkt_def)+

lemma t_wan_dispatch: "on_maps Q t \<Longrightarrow> on_maps Q (snd (wan_dispatch e pe l syn ok p t))"
  unfolding wan_dispatch_def
  by (rule t.binds t_wan_tcp t_wan_udp t_ops t_upd_pkt | assumption | simp add: upd_pkt_def)+

end

section \<open>The publisher claim\<close>

text \<open>A frame property that also survives the three writes to the publisher map holds across
  whole classifiers.\<close>

locale publishing_frame = datapath_frame +
  assumes publisher_enter: "Q s \<Longrightarrow> l4proto k = IPPROTO_TCP \<Longrightarrow> TCP_PUBLISHING s k = None \<Longrightarrow>
            Q (s\<lparr>TCP_PUBLISHING := (TCP_PUBLISHING s)(k \<mapsto> 0)\<rparr>)"
    and publisher_select: "Q s \<Longrightarrow> FLOW_INCARNATION_SEQUENCE s < FLOW_INCARNATION_MAX \<Longrightarrow>
            TCP_PUBLISHING s k \<noteq> None \<Longrightarrow>
            Q (s\<lparr>FLOW_INCARNATION_SEQUENCE := FLOW_INCARNATION_SEQUENCE s + 1,
                 TCP_PUBLISHING := (TCP_PUBLISHING s)(k \<mapsto> FLOW_INCARNATION_SEQUENCE s + 1)\<rparr>)"
    and publisher_leave: "Q s \<Longrightarrow> Q (s\<lparr>TCP_PUBLISHING := remove_key k (TCP_PUBLISHING s)\<rparr>)"

context publishing_frame
begin

lemma kept_publisher_claim:
  assumes "Q s" "l4proto (tp_key p) = IPPROTO_TCP"
  shows "Q (snd (snd (publisher_claim e p s)))" "tp_key (fst (snd (publisher_claim e p s))) = tp_key p"
  using assms publisher_enter[OF assms]
  by (simp_all add: publisher_claim_def Let_def kept_stat split: option.split)

lemma kept_select_fresh:
  assumes "Q s"
  shows "Q (snd (snd (select_fresh p s)))"
proof -
  obtain r s1 where a: "allocate_flow_incarnation s = (r, s1)" by (cases "allocate_flow_incarnation s")
  have q1: "Q s1" using kept_allocate_incarnation[OF assms] a by simp
  show ?thesis
  proof (cases r)
    case None
    then show ?thesis using a q1 by (simp add: select_fresh_def)
  next
    case (Some i)
    note al = allocate_Some[of s i s1, OF a[unfolded Some]]
    show ?thesis
      using a Some q1 al publisher_select[OF assms al(1), of "tp_key p"]
      by (simp add: select_fresh_def split: option.split)
  qed
qed

lemma kept_acquire:
  assumes "Q s" "l4proto (tp_key p) = IPPROTO_TCP"
  shows "Q (snd (snd (publisher_acquire e tcph p s)))"
proof -
  obtain ok p1 s1 where c: "publisher_claim e p s = (ok, p1, s1)" by (metis prod.exhaust_sel)
  have q1: "Q s1" using kept_publisher_claim(1)[OF assms, of e] c by simp
  have q2: "Q (snd (native_syn_owner e key isn s1))" for key isn by (rule kept_native_owner[OF q1])
  note q3 = kept_pending_publication[OF q2]
  show ?thesis
    unfolding publisher_acquire_def c prod.case Let_def case_prod_unfold
    by (simp add: assms(1) q1 q2 q3 kept_select_fresh split: bool.split option.split publication.split)
qed

lemma t_acquire:
  assumes "on_maps Q t" "syn \<Longrightarrow> l4proto (tp_key p) = IPPROTO_TCP"
  shows "on_maps Q (snd (run_acquire e syn p t))"
  using kept_acquire[OF on_mapsD[OF assms(1)] assms(2)] assms(1)
  by (simp add: run_acquire_def case_prod_unfold Let_def on_maps_def)

lemma kept_drop: "Q s \<Longrightarrow> Q (publisher_drop p s)"
  by (simp add: publisher_drop_def Let_def publisher_leave)

lemma t_lan_admitted: "on_maps Q t \<Longrightarrow> on_maps Q (snd (lan_admitted e pe l t))"
  unfolding lan_admitted_def
  by (rule t_acquire t.binds t_lan_dispatch t_ops kept_ops kept_drop | assumption
     | simp add: on_maps_def pkt_ok_def TcpPublisher_new_def)+

lemma kept_lan_ingress:
  assumes "Q (tc_dp t)"
  shows "Q (tc_dp (snd (do_tproxy_lan_ingress e pe nt l t)))"
proof -
  obtain v t1 where a: "lan_admission e nt l t = (v, t1)" by (cases "lan_admission e nt l t")
  have "Q (tc_dp t1)" using kept_lan_admission[of t e nt l] assms a by (simp add: dp_sat_def)
  moreover have "on_maps Q (snd (lan_admitted e pe l t1))" if "v = None"
    using t_lan_admitted[OF lan_admitted_maps] assms a that by (simp add: dp_sat_def)
  ultimately show ?thesis
    by (simp add: do_tproxy_lan_ingress_def a on_mapsD split: option.split)
qed

lemma kept_wan_egress:
  assumes "Q (tc_dp t)"
  shows "Q (tc_dp (snd (do_tproxy_wan_egress e pe nt l t)))"
proof -
  obtain v t1 where a: "wan_egress_admission e nt l t = (v, t1)" by (cases "wan_egress_admission e nt l t")
  have q1: "Q (tc_dp t1)" using kept_wan_admission[of t e nt l] assms a by (simp add: dp_sat_def)
  have "on_maps Q (snd (do_tproxy_wan_egress e pe nt l t))" if "v = None"
    using wan_admitted_maps[of t e nt l t1] assms a that
    unfolding do_tproxy_wan_egress_def a
    by (simp add: dp_sat_def)
       (rule t_acquire t.binds t_wan_dispatch t_ops kept_ops kept_drop | assumption
       | simp add: on_maps_def pkt_ok_def TcpPublisher_new_def)+
  then show ?thesis
    using q1 by (cases v) (simp_all add: do_tproxy_wan_egress_def a on_mapsD)
qed

end

end
