(* ===== verification/Samples.thy ===== *)
theory Samples
  imports Egress
begin

text \<open>A small concrete datapath for the instances of the theorems: empty maps, a policy that sends
  everything to outbound 2, a client on the LAN and its first datagram and SYN.\<close>

definition sample_param :: dae_param where
  "sample_param = \<lparr>tproxy_port = 12345, control_plane_pid = 77, dae0_ifindex = 5, dae_netns_id = 9,
     wan_ifindex = 3, dae0peer_mac = [2, 0, 0, 0, 0, 1], use_redirect_peer = 0, dae_socket_mark = 0x100,
     local_ip = 0, tcp_daens_netns_id = 9\<rparr>"

definition sample_decision :: routing_decision where
  "sample_decision = \<lparr>d_outbound = 2, d_mark = 0, d_must = 0, d_domain_final = 1, d_rule_id = 0,
     d_direct_mark_index = 0\<rparr>"

definition sample_env :: env where
  "sample_env = \<lparr>ktime = (\<lambda>n. 1000000000 + of_nat n), ring_accepts = (\<lambda>_. True),
     conn_room = (\<lambda>_. True), redirect_room = (\<lambda>_. True), handoff_room = (\<lambda>_. True),
     publishing_errno = (\<lambda>_. None), hint_evicted = (\<lambda>_. False), reply_evicted = (\<lambda>_. False),
     rate_evicted = (\<lambda>_. False), frag_evicted = (\<lambda>_. False), trace_evicted = (\<lambda>_. False),
     lru_update_ok = True, skc_lookup_tcp = (\<lambda>_ _. None), param = sample_param, WAN_IFINDEX = 3,
     DAE0PEER_IFINDEX = 6,
     policy_root = Some \<lparr>pd_slot = 0, pd_features = 0, pd_generation = 1, pd_domain_map_id = 0,
       pd_trace_policy = 0\<rparr>,
     route_slot0 = (\<lambda>i out. (0, out\<lparr>o_decision := sample_decision\<rparr>)),
     route_slot1 = (\<lambda>i out. (0, out\<lparr>o_decision := sample_decision\<rparr>))\<rparr>"

definition sample_dp :: dp where
  "sample_dp = \<lparr>CONN_STATE_MAP = Map.empty, REDIRECT_TRACK = Map.empty, ROUTING_HANDOFF_MAP = Map.empty,
     CLIENT_REPLY_TRACK = Map.empty, TCP_PUBLISHING = Map.empty, RETIRE_ACTIVE = 0,
     RETIRE_FENCE = Map.empty, TCP_LIVE_PINS = Map.empty,
     UDP_DECISION_SEQUENCE = \<lparr>seq_next = 0, seq_exhausted = 0\<rparr>, FLOW_INCARNATION_SEQUENCE = 41,
     CONN_STATE_OCCUPANCY = 0, AUX_REDIRECT_INSERTS = 0, AUX_HANDOFF_INSERTS = 0,
     BPF_STATS_MAP = (\<lambda>_. 0), EVENT_RINGBUF = [], FLOW_EXPIRY_HINT = Map.empty,
     NEW_FLOW_RATE = Map.empty, FRAG_VERDICT = Map.empty, ROUTE_TRACE_SEQUENCE = 0,
     ROUTE_TRACE_MAP = Map.empty,
     OUTBOUND_STATS = (\<lambda>_. \<lparr>tx_packets = 0, tx_bytes = 0, rx_packets = 0, rx_bytes = 0\<rparr>),
     OUTBOUND_CONNECTIVITY_MAP = (\<lambda>_. 1), DATAPATH_STATE_MAP = 1, DATAPATH_FLAGS_MAP = 0,
     ADMISSION_PRESSURE = 0, ticks = 0\<rparr>"

definition sample_pe :: packet_env where
  "sample_pe = \<lparr>sk_identity = None, sk_lookup_udp = (\<lambda>_ _. None), fib_lookup = (\<lambda>_ _ _ _ _ _. 0),
     bpf_redirect = (\<lambda>_ _. 7), bpf_redirect_peer = (\<lambda>_ _. 7), change_head = 0,
     listener_ok = (\<lambda>_. True), IPV6_SOCKETS_AVAILABLE = 1\<rparr>"

definition sample_tc :: "skb \<Rightarrow> dp \<Rightarrow> tc" where
  "sample_tc sk s = \<lparr>tc_dp = s, tc_skb = sk, tc_pkt = zero_pkt wire_types, tc_pctx = zero_ctx wire_types,
     tc_target = None, tc_assigned = None\<rparr>"

definition after_udp :: dp where
  "after_udp = tc_dp (snd (lan_ingress_l3 sample_env sample_pe wire_types (sample_tc udp6_skb sample_dp)))"

text \<open>The client's datagram again, on the state its first copy left.\<close>

definition after_udp_again :: dp where
  "after_udp_again = tc_dp (snd (lan_ingress_l3 sample_env sample_pe wire_types (sample_tc udp6_skb after_udp)))"

definition udp6_key :: tuples_key where
  "udp6_key = \<lparr>src_ip = \<lparr>w0 = 0x20010000, w1 = 0, w2 = 0, w3 = 1\<rparr>, dst_ip = \<lparr>w0 = 0x20010000, w1 = 0, w2 = 0, w3 = 2\<rparr>,
     src_port = 0x1000, dst_port = 443, l4proto = IPPROTO_UDP\<rparr>"

end
