(* ===== verification/Invariants.thy ===== *)
theory Invariants
  imports Frame Samples
begin

text \<open>
  The datapath as a state machine: one step is one run of an attached program on an arbitrary
  packet, socket event and environment. The frame properties below are invariants of every
  sequence of steps, the control plane's own writes apart.
\<close>

section \<open>Steps\<close>

inductive packet_step :: "dp \<Rightarrow> dp \<Rightarrow> bool" where
  step_lan_ingress_l2: "packet_step (tc_dp t) (tc_dp (snd (lan_ingress_l2 e pe nt t)))"
| step_lan_ingress_l3: "packet_step (tc_dp t) (tc_dp (snd (lan_ingress_l3 e pe nt t)))"
| step_wan_ingress_l2: "packet_step (tc_dp t) (tc_dp (snd (wan_ingress_l2 e nt t)))"
| step_wan_ingress_l3: "packet_step (tc_dp t) (tc_dp (snd (wan_ingress_l3 e nt t)))"
| step_dae0peer_ingress: "packet_step (tc_dp t) (tc_dp (snd (dae0peer_ingress pe t)))"
| step_dae0_ingress: "packet_step (tc_dp t) (tc_dp (snd (dae0_ingress e pe nt t)))"
| step_lan_egress_l2: "packet_step (tc_dp t) (tc_dp (snd (lan_egress_l2 e nt t)))"
| step_lan_egress_l3: "packet_step (tc_dp t) (tc_dp (snd (lan_egress_l3 e nt t)))"
| step_wan_egress_l2: "packet_step (tc_dp t) (tc_dp (snd (wan_egress_l2 e pe nt t)))"
| step_wan_egress_l3: "packet_step (tc_dp t) (tc_dp (snd (wan_egress_l3 e pe nt t)))"
| step_tcp_passive: "packet_step s (snd (snd (honk_tcp_passive e owned ops storage s)))"

section \<open>What the invariants say\<close>

text \<open>What only the control plane writes.\<close>

definition control_view ::
  "dp \<Rightarrow> u32 \<times> (tuples_key \<rightharpoonup> retirement_fence) \<times> (u64 \<rightharpoonup> u8) \<times> (nat \<Rightarrow> u64) \<times> u32 \<times> u32 \<times> u32"
where
  "control_view s = (RETIRE_ACTIVE s, RETIRE_FENCE s, TCP_LIVE_PINS s, OUTBOUND_CONNECTIVITY_MAP s,
     DATAPATH_STATE_MAP s, DATAPATH_FLAGS_MAP s, ADMISSION_PRESSURE s)"

definition owned_keys :: "dp \<Rightarrow> tuples_key set \<times> redirect_tuple set \<times> tuples_key set" where
  "owned_keys s = (dom (CONN_STATE_MAP s), dom (REDIRECT_TRACK s), dom (ROUTING_HANDOFF_MAP s))"

text \<open>Every incarnation in use was handed out by the counter, and no two tuples use the same one.\<close>

definition owner_of :: "dp \<Rightarrow> tuples_key \<Rightarrow> u64 \<Rightarrow> bool" where
  "owner_of s k i \<longleftrightarrow> conn_incarnation s k = Some i \<or> (TCP_PUBLISHING s k = Some i \<and> i \<noteq> 0)"

definition owners_distinct :: "dp \<Rightarrow> bool" where
  "owners_distinct s \<longleftrightarrow>
     FLOW_INCARNATION_SEQUENCE s \<le> FLOW_INCARNATION_MAX
     \<and> (\<forall>k i. owner_of s k i \<longrightarrow> i \<noteq> 0 \<and> i \<le> FLOW_INCARNATION_SEQUENCE s)
     \<and> (\<forall>k k' i. owner_of s k i \<longrightarrow> owner_of s k' i \<longrightarrow> k = k')"

text \<open>A UDP entry that left the Preparing state or carries a token.\<close>

definition udp_settled :: "conn_state \<Rightarrow> bool" where
  "udp_settled c \<longleftrightarrow> cs_state c \<noteq> udp_state_u8 Preparing \<or> cs_decision_token c \<noteq> 0"

text \<open>A publisher that holds its claim is the only change to the publisher map.\<close>

definition claim_held :: "(tuples_key \<rightharpoonup> u64) \<Rightarrow> tcp_publisher \<Rightarrow> dp \<Rightarrow> bool" where
  "claim_held P p s \<longleftrightarrow>
     (if tp_claimed p
      then P (tp_key p) = None
           \<and> TCP_PUBLISHING s = P(tp_key p \<mapsto> if is_fresh p then tp_incarnation p else 0)
      else TCP_PUBLISHING s = P)"

section \<open>Frame properties hold after every step\<close>

context publishing_frame
begin

lemma kept_run_record:
  assumes "Q (tc_dp (snd r))"
  shows "Q (tc_dp (snd (run_record e r)))"
  using kept_record[OF assms] by (simp add: run_record_def on_dp_def case_prod_unfold Let_def)

lemma step_kept: "packet_step s s' \<Longrightarrow> Q s \<Longrightarrow> Q s'"
proof (induction rule: packet_step.induct)
  case (step_tcp_passive s e owned ops storage)
  then show ?case using kept_bind_child[OF step_tcp_passive] by (simp add: honk_tcp_passive_def)
qed (simp_all add: lan_ingress_l2_def lan_ingress_l3_def wan_ingress_l2_def wan_ingress_l3_def
    dae0peer_ingress_def dae0_ingress_def lan_egress_l2_def lan_egress_l3_def wan_egress_l2_def
    wan_egress_l3_def case_prod_unfold Let_def kept_run_record kept_lan_ingress kept_wan_egress kept_wan_ingress
    kept_dae0peer kept_dae0_ingress kept_lan_egress)

lemma steps_kept: "rtranclp packet_step s s' \<Longrightarrow> Q s \<Longrightarrow> Q s'"
  by (induction rule: rtranclp_induct) (auto intro: step_kept)

end

section \<open>The control plane's maps\<close>

interpretation control: publishing_frame "\<lambda>s. control_view s = v" for v
  by unfold_locales (auto simp: control_view_def same_owned_def)

section \<open>No entry is deleted\<close>

interpretation keys: publishing_frame
  "\<lambda>s. C \<subseteq> dom (CONN_STATE_MAP s) \<and> R \<subseteq> dom (REDIRECT_TRACK s) \<and> H \<subseteq> dom (ROUTING_HANDOFF_MAP s)"
  for C R H
  by unfold_locales (auto simp: same_owned_def)

section \<open>Owners\<close>

lemma word_less_Suc:
  fixes n m :: "'a::len word"
  assumes "n < m"
  shows "n + 1 \<noteq> 0" "n < n + 1" "n + 1 \<le> m"
proof -
  show ne: "n + 1 \<noteq> 0"
  proof
    assume "n + 1 = 0"
    then have "n = - 1" by (simp add: eq_neg_iff_add_eq_0)
    then show False using assms by (simp add: not_less word_order.extremum)
  qed
  then have "unat (n + 1) = Suc (unat n)" by (simp add: unatSuc add.commute)
  then show "n < n + 1" "n + 1 \<le> m"
    using assms by (simp_all add: word_less_nat_alt word_le_nat_alt)
qed

lemma owners_distinct_mono:
  assumes "owners_distinct s" "\<And>k i. owner_of s' k i \<Longrightarrow> owner_of s k i"
    "FLOW_INCARNATION_SEQUENCE s \<le> FLOW_INCARNATION_SEQUENCE s'"
    "FLOW_INCARNATION_SEQUENCE s' \<le> FLOW_INCARNATION_MAX"
  shows "owners_distinct s'"
  using assms unfolding owners_distinct_def by (blast intro: order_trans)

lemma owners_distinct_new:
  assumes "owners_distinct s" "FLOW_INCARNATION_SEQUENCE s < FLOW_INCARNATION_MAX"
    "FLOW_INCARNATION_SEQUENCE s' = FLOW_INCARNATION_SEQUENCE s + 1"
    "\<And>k' i. owner_of s' k' i \<Longrightarrow> (k' = k \<and> i = FLOW_INCARNATION_SEQUENCE s + 1) \<or> owner_of s k' i"
  shows "owners_distinct s'"
proof -
  note w = word_less_Suc[OF assms(2)]
  have old: "i \<noteq> 0" "i < FLOW_INCARNATION_SEQUENCE s + 1" if "owner_of s k' i" for k' i
  proof -
    show "i \<noteq> 0" using assms(1) that by (auto simp: owners_distinct_def)
    have "i \<le> FLOW_INCARNATION_SEQUENCE s" using assms(1) that by (auto simp: owners_distinct_def)
    then show "i < FLOW_INCARNATION_SEQUENCE s + 1" using w(2) by (rule order_le_less_trans)
  qed
  have "k1 = k2" if "owner_of s' k1 i" "owner_of s' k2 i" for k1 k2 i
    using assms(4)[OF that(1)] assms(4)[OF that(2)] old(2)[of k1 i] old(2)[of k2 i] assms(1)
    unfolding owners_distinct_def by (elim disjE conjE) auto
  moreover have "i \<noteq> 0 \<and> i \<le> FLOW_INCARNATION_SEQUENCE s + 1" if "owner_of s' k1 i" for k1 i
    using assms(4)[OF that] old[of k1 i] w(1) by (elim disjE conjE) auto
  ultimately show ?thesis using assms(3) w(3) unfolding owners_distinct_def by simp
qed

lemma owners_distinct_sub:
  assumes "owners_distinct s" "\<And>k i. owner_of s' k i \<Longrightarrow> owner_of s k i"
    "FLOW_INCARNATION_SEQUENCE s' = FLOW_INCARNATION_SEQUENCE s"
  shows "owners_distinct s'"
  by (rule owners_distinct_mono[OF assms(1,2)]) (use assms(1,3) in \<open>simp_all add: owners_distinct_def\<close>)

lemma owners_distinct_same:
  assumes "owners_distinct s" "\<And>k i. owner_of s' k i = owner_of s k i"
    "FLOW_INCARNATION_SEQUENCE s' = FLOW_INCARNATION_SEQUENCE s"
  shows "owners_distinct s'"
  using assms by (simp add: owners_distinct_def)

lemma owner_of_put_conn:
  "owner_of (put_conn k c s) k' i \<longleftrightarrow>
     (if k' = k then i = cs_incarnation c \<or> (TCP_PUBLISHING s k = Some i \<and> i \<noteq> 0) else owner_of s k' i)"
  by (auto simp: owner_of_def conn_incarnation_def)

lemma owners_put_conn:
  assumes "owners_distinct s" "CONN_STATE_MAP s k = Some c" "cs_incarnation c' = cs_incarnation c"
  shows "owners_distinct (put_conn k c' s)"
  by (rule owners_distinct_same[OF assms(1)])
     (use assms(2,3) in \<open>auto simp: owner_of_put_conn owner_of_def conn_incarnation_def\<close>)

interpretation owners: publishing_frame owners_distinct
proof (unfold_locales, goal_cases)
  case (1 s s')
  show ?case by (rule owners_distinct_same[OF 1(1)]) (use 1(2) in \<open>simp_all add: same_owned_def owner_of_def conn_incarnation_def\<close>)
next
  case (2 s)
  note w = word_less_Suc[OF 2(2)]
  show ?case
    by (rule owners_distinct_mono[OF 2(1)]) (use w in \<open>simp_all add: owner_of_def conn_incarnation_def\<close>)
next
  case (4 s k c n)
  show ?case by (rule owners_put_conn[OF 4(1,3)]) simp
next
  case (5 s k c c')
  show ?case by (rule owners_put_conn[OF 5(1,2,5)])
next
  case (6 s k c c')
  show ?case by (rule owners_put_conn[OF 6(1,3,5)])
next
  case (7 s k c')
  have sub: "owner_of (put_conn k c' s) k' i \<Longrightarrow> owner_of s k' i" for k' i
    using 7(4,5) by (auto simp: owner_of_def conn_incarnation_def split: if_splits)
  show ?case by (rule owners_distinct_sub[OF 7(1) sub]) simp_all
next
  case (8 s k c')
  let ?s' = "put_conn k c' (s\<lparr>FLOW_INCARNATION_SEQUENCE := FLOW_INCARNATION_SEQUENCE s + 1\<rparr>)"
  have sub: "owner_of ?s' k' i \<Longrightarrow> (k' = k \<and> i = FLOW_INCARNATION_SEQUENCE s + 1) \<or> owner_of s k' i" for k' i
    using 8(5) by (auto simp: owner_of_def conn_incarnation_def split: if_splits)
  show ?case by (rule owners_distinct_new[OF 8(1,3) _ sub]) simp_all
next
  case (15 s k)
  have sub: "owner_of (s\<lparr>TCP_PUBLISHING := (TCP_PUBLISHING s)(k \<mapsto> 0)\<rparr>) k' i \<Longrightarrow> owner_of s k' i" for k' i
    by (auto simp: owner_of_def conn_incarnation_def split: if_splits)
  show ?case by (rule owners_distinct_sub[OF 15(1) sub]) simp_all
next
  case (16 s k)
  let ?s' = "s\<lparr>FLOW_INCARNATION_SEQUENCE := FLOW_INCARNATION_SEQUENCE s + 1,
     TCP_PUBLISHING := (TCP_PUBLISHING s)(k \<mapsto> FLOW_INCARNATION_SEQUENCE s + 1)\<rparr>"
  have sub: "owner_of ?s' k' i \<Longrightarrow> (k' = k \<and> i = FLOW_INCARNATION_SEQUENCE s + 1) \<or> owner_of s k' i" for k' i
    by (auto simp: owner_of_def conn_incarnation_def split: if_splits)
  show ?case by (rule owners_distinct_new[OF 16(1,2) _ sub]) simp_all
next
  case (17 s k)
  have sub: "owner_of (s\<lparr>TCP_PUBLISHING := remove_key k (TCP_PUBLISHING s)\<rparr>) k' i \<Longrightarrow> owner_of s k' i" for k' i
    by (auto simp: owner_of_def conn_incarnation_def remove_key_def split: if_splits)
  show ?case by (rule owners_distinct_sub[OF 17 sub]) simp_all
qed (erule owners_distinct_same, simp add: owner_of_def conn_incarnation_def, simp)+

lemma from_tuples_inj: "from_tuples k = from_tuples k' \<Longrightarrow> k = k'"
  by (simp add: from_tuples_def)

interpretation settled: publishing_frame
  "\<lambda>s. l4proto k0 \<noteq> IPPROTO_TCP \<and> udp_settled c0 \<and> (\<exists>n. CONN_STATE_MAP s k0 = Some (c0\<lparr>cs_last_seen_ns := n\<rparr>))"
  for k0 c0
  by unfold_locales (auto simp: same_owned_def udp_settled_def, (rule exI, rule refl)+)

interpretation redirect_owner: publishing_frame
  "\<lambda>s. rt_l4proto rk0 \<noteq> IPPROTO_TCP \<and> (\<exists>r. REDIRECT_TRACK s rk0 = Some r \<and> re_incarnation r = i0 \<and> re_decision_token r = tok0)"
  for rk0 i0 tok0
  by unfold_locales (auto simp: same_owned_def syn_publisher_def from_tuples_def)

interpretation handoff_owner: publishing_frame
  "\<lambda>s. l4proto k0 \<noteq> IPPROTO_TCP \<and> (\<exists>h. ROUTING_HANDOFF_MAP s k0 = Some h \<and> he_incarnation h = i0
     \<and> rr_decision_token (he_result h) = tok0)"
  for k0 i0 tok0
  by unfold_locales (auto simp: same_owned_def syn_publisher_def)

text \<open>A fenced tuple: its entries keep their owner, and a settled connection entry is not written.\<close>

interpretation fenced: publishing_frame
  "\<lambda>s. tuple_retiring s k0 \<and> conn_incarnation s k0 = i0 \<and> REDIRECT_TRACK s (from_tuples k0) = r0
     \<and> ROUTING_HANDOFF_MAP s k0 = h0"
  for k0 i0 r0 h0
  by unfold_locales (auto simp: same_owned_def tuple_retiring_def conn_incarnation_def dest: from_tuples_inj)

interpretation fenced_conn: publishing_frame
  "\<lambda>s. tuple_retiring s k0 \<and> udp_settled c0 \<and> CONN_STATE_MAP s k0 = Some c0" for k0 c0
  by unfold_locales (auto simp: same_owned_def tuple_retiring_def udp_settled_def)

interpretation counter: publishing_frame
  "\<lambda>s. n \<le> FLOW_INCARNATION_SEQUENCE s \<and> FLOW_INCARNATION_SEQUENCE s \<le> FLOW_INCARNATION_MAX" for n
proof (unfold_locales, goal_cases)
  case (2 s)
  then show ?case using word_less_Suc[OF 2(2)] by (auto intro: order_trans order_less_imp_le)
next
  case (8 s k c')
  then show ?case using word_less_Suc[OF 8(3)] by (auto intro: order_trans order_less_imp_le)
next
  case (16 s k)
  then show ?case using word_less_Suc[OF 16(2)] by (auto intro: order_trans order_less_imp_le)
qed (auto simp: same_owned_def)

interpretation publishing: datapath_frame "\<lambda>s. TCP_PUBLISHING s = P" for P
  by unfold_locales (auto simp: same_owned_def)

section \<open>The publisher map after a run\<close>

lemma claim_held_drop: "claim_held P p s \<Longrightarrow> TCP_PUBLISHING (publisher_drop p s) = P"
  by (auto simp: claim_held_def publisher_drop_def remove_key_def Let_def fun_eq_iff)

lemma claim_held_claim:
  assumes "\<not> tp_claimed p" "tp_syn p = NonSyn" "publisher_claim e p s = (ok, p1, s1)"
  shows "claim_held (TCP_PUBLISHING s) p1 s1" "ok \<Longrightarrow> tp_claimed p1" "tp_syn p1 = NonSyn"
  using assms
  by (auto simp: publisher_claim_def claim_held_def Let_def is_fresh_def increment_bpf_stat_def
      split: if_splits option.splits)

lemma claim_held_cong: "claim_held P p s \<Longrightarrow> TCP_PUBLISHING s' = TCP_PUBLISHING s \<Longrightarrow> claim_held P p s'"
  by (simp add: claim_held_def)

lemma claim_held_fresh:
  assumes "claim_held P p s" "tp_claimed p"
  shows "claim_held P (fst (snd (select_fresh p s))) (snd (snd (select_fresh p s)))"
proof -
  obtain r s1 where a: "allocate_flow_incarnation s = (r, s1)" by (cases "allocate_flow_incarnation s")
  have "TCP_PUBLISHING s1 = TCP_PUBLISHING s"
    using publishing.kept_allocate_incarnation[of s] a by simp
  then show ?thesis
    using assms a by (auto simp: select_fresh_def claim_held_def is_fresh_def split: option.splits)
qed

lemma claim_held_acquire:
  assumes "\<not> tp_claimed p" "tp_syn p = NonSyn"
  shows "claim_held (TCP_PUBLISHING s) (fst (snd (publisher_acquire e tcph p s)))
           (snd (snd (publisher_acquire e tcph p s)))"
proof -
  obtain ok p1 s1 where c: "publisher_claim e p s = (ok, p1, s1)" by (metis prod.exhaust_sel)
  note h = claim_held_claim[OF assms c]
  have 0: "claim_held (TCP_PUBLISHING s) p s" using assms(1) by (simp add: claim_held_def)
  have n: "TCP_PUBLISHING (snd (native_syn_owner e key isn s1)) = TCP_PUBLISHING s1" for key isn
    by (rule publishing.kept_native_owner) simp
  have q: "TCP_PUBLISHING (snd (pending_syn_publication e key i (snd (native_syn_owner e k isn s1)))) = TCP_PUBLISHING s1"
    for key i k isn
    by (rule publishing.kept_pending_publication) (rule n)
  note hn = claim_held_cong[OF h(1) n] and hq = claim_held_cong[OF h(1) q]
  have cached: "claim_held P (p1\<lparr>tp_incarnation := i, tp_syn := Cached\<rparr>) s2"
    if "claim_held P p1 s2" for P i s2
    using that h(3) by (simp add: claim_held_def is_fresh_def)
  show ?thesis
    unfolding publisher_acquire_def c prod.case Let_def case_prod_unfold
    using 0 h(2)
    by (simp add: h(1) hn hq claim_held_fresh cached split: bool.split option.split publication.split)
qed

lemma claim_held_run:
  assumes "TCP_PUBLISHING (tc_dp t) = P" "run_acquire e syn (TcpPublisher_new key) t = ((ok, p), t1)"
  shows "claim_held P p (tc_dp t1)"
  using claim_held_acquire[of "TcpPublisher_new key" "tc_dp t" e "pp_tcph (tc_pkt t)"] assms
  by (auto simp: run_acquire_def TcpPublisher_new_def claim_held_def Let_def split: if_splits prod.splits)

lemma lan_admitted_releases:
  assumes "pkt_ok (tc_pkt t)"
  shows "TCP_PUBLISHING (tc_dp (snd (lan_admitted e pe l t))) = TCP_PUBLISHING (tc_dp t)"
proof -
  define syn where "syn = (pp_l4proto (tc_pkt t) = IPPROTO_TCP \<and> is_new_tcp_connection (pp_tcph (tc_pkt t)))"
  define key where "key = five (pp_tuples (tc_pkt t))"
  obtain limited t1 where 1: "(if syn then on_dp (exceeded e (src_ip key)) t else (False, t)) = (limited, t1)"
    by (metis prod.exhaust_sel)
  have p1: "TCP_PUBLISHING (tc_dp t1) = TCP_PUBLISHING (tc_dp t)" "tc_pkt t1 = tc_pkt t"
    using 1 publishing.kept_exceeded[of "tc_dp t" _ e "src_ip key"]
    by (auto simp: on_dp_def Let_def split: if_splits prod.splits)
  obtain ok p t2 where 2: "run_acquire e syn (TcpPublisher_new key) t1 = ((ok, p), t2)" by (metis prod.exhaust_sel)
  have held: "claim_held (TCP_PUBLISHING (tc_dp t)) p (tc_dp t2)"
    by (rule claim_held_run[OF p1(1) 2])
  have "tc_pkt t2 = tc_pkt t"
    using 2 p1(2) by (auto simp: run_acquire_def Let_def split: if_splits prod.splits)
  then have "on_maps (\<lambda>s. TCP_PUBLISHING s = TCP_PUBLISHING (tc_dp t2)) t2"
    using assms by (simp add: on_maps_def)
  then have "on_maps (\<lambda>s. TCP_PUBLISHING s = TCP_PUBLISHING (tc_dp t2)) (snd (lan_dispatch e pe l syn ok p t2))"
    by (rule publishing.t_lan_dispatch)
  then have "TCP_PUBLISHING (tc_dp (snd (lan_dispatch e pe l syn ok p t2))) = TCP_PUBLISHING (tc_dp t2)"
    by (simp add: on_maps_def)
  note c = claim_held_drop[OF claim_held_cong[OF held this]]
  show ?thesis
    unfolding lan_admitted_def Let_def syn_def[symmetric] key_def[symmetric] 1
    using p1(1) c 2 by (simp add: case_prod_unfold upd_dp_def)
qed

lemma lan_ingress_releases:
  "TCP_PUBLISHING (tc_dp (snd (do_tproxy_lan_ingress e pe nt l t))) = TCP_PUBLISHING (tc_dp t)"
proof -
  obtain v t1 where a: "lan_admission e nt l t = (v, t1)" by (cases "lan_admission e nt l t")
  have p1: "TCP_PUBLISHING (tc_dp t1) = TCP_PUBLISHING (tc_dp t)"
    using publishing.kept_lan_admission[of "TCP_PUBLISHING (tc_dp t)" t e nt l] a by (simp add: dp_sat_def)
  have "pkt_ok (tc_pkt t1)" if "v = None"
    using publishing.lan_admitted_maps[of "TCP_PUBLISHING (tc_dp t)" t e nt l t1] a that
    by (simp add: dp_sat_def on_maps_def)
  then show ?thesis
    using p1 lan_admitted_releases[of t1 e pe l]
    by (simp add: do_tproxy_lan_ingress_def a split: option.split)
qed

lemma wan_egress_releases:
  "TCP_PUBLISHING (tc_dp (snd (do_tproxy_wan_egress e pe nt l t))) = TCP_PUBLISHING (tc_dp t)"
proof -
  obtain v t1 where a: "wan_egress_admission e nt l t = (v, t1)" by (cases "wan_egress_admission e nt l t")
  have p1: "TCP_PUBLISHING (tc_dp t1) = TCP_PUBLISHING (tc_dp t)"
    using publishing.kept_wan_admission[of "TCP_PUBLISHING (tc_dp t)" t e nt l] a by (simp add: dp_sat_def)
  show ?thesis
  proof (cases v)
    case (Some x)
    then show ?thesis using a p1 by (simp add: do_tproxy_wan_egress_def)
  next
    case None
    have ok: "pkt_ok (tc_pkt t1)"
      using publishing.wan_admitted_maps[of "TCP_PUBLISHING (tc_dp t)" t e nt l t1] a None
      by (simp add: dp_sat_def on_maps_def)
    define syn where "syn = (pp_l4proto (tc_pkt t1) = IPPROTO_TCP \<and> is_new_tcp_connection (pp_tcph (tc_pkt t1)))"
    obtain ok' p t2 where 2: "run_acquire e syn (TcpPublisher_new (five (pp_tuples (tc_pkt t1)))) t1 = ((ok', p), t2)"
      by (metis prod.exhaust_sel)
    have held: "claim_held (TCP_PUBLISHING (tc_dp t)) p (tc_dp t2)" by (rule claim_held_run[OF p1 2])
    have "tc_pkt t2 = tc_pkt t1"
      using 2 by (auto simp: run_acquire_def Let_def split: if_splits prod.splits)
    then have "on_maps (\<lambda>s. TCP_PUBLISHING s = TCP_PUBLISHING (tc_dp t2)) t2"
      using ok by (simp add: on_maps_def)
    then have "on_maps (\<lambda>s. TCP_PUBLISHING s = TCP_PUBLISHING (tc_dp t2)) (snd (wan_dispatch e pe l syn ok' p t2))"
      by (rule publishing.t_wan_dispatch)
    then have "TCP_PUBLISHING (tc_dp (snd (wan_dispatch e pe l syn ok' p t2))) = TCP_PUBLISHING (tc_dp t2)"
      by (simp add: on_maps_def)
    note c = claim_held_drop[OF claim_held_cong[OF held this]]
    show ?thesis
      unfolding do_tproxy_wan_egress_def a None Let_def
      using c 2 by (simp add: case_prod_unfold upd_dp_def syn_def)
  qed
qed

lemma run_record_publishing:
  "TCP_PUBLISHING (tc_dp (snd (run_record e r))) = TCP_PUBLISHING (tc_dp (snd r))"
  using publishing.kept_record[of "tc_dp (snd r)"]
  by (simp add: run_record_def on_dp_def case_prod_unfold Let_def)

lemma step_releases: "packet_step s s' \<Longrightarrow> TCP_PUBLISHING s' = TCP_PUBLISHING s"
proof (induction rule: packet_step.induct)
  case (step_tcp_passive s e owned ops storage)
  then show ?case using publishing.kept_bind_child[of s] by (simp add: honk_tcp_passive_def)
next
  case (step_wan_ingress_l2 t e nt)
  then show ?case using publishing.kept_wan_ingress[of t] by (simp add: wan_ingress_l2_def case_prod_unfold Let_def)
next
  case (step_wan_ingress_l3 t e nt)
  then show ?case using publishing.kept_wan_ingress[of t] by (simp add: wan_ingress_l3_def case_prod_unfold Let_def)
next
  case (step_dae0peer_ingress t pe)
  then show ?case using publishing.kept_dae0peer[of t] by (simp add: dae0peer_ingress_def case_prod_unfold Let_def)
next
  case (step_dae0_ingress t e pe nt)
  then show ?case using publishing.kept_dae0_ingress[of t] by (simp add: dae0_ingress_def case_prod_unfold Let_def)
next
  case (step_lan_egress_l2 t e nt)
  then show ?case using publishing.kept_lan_egress[of t] by (simp add: lan_egress_l2_def case_prod_unfold Let_def)
next
  case (step_lan_egress_l3 t e nt)
  then show ?case using publishing.kept_lan_egress[of t] by (simp add: lan_egress_l3_def case_prod_unfold Let_def)
qed (simp_all add: lan_ingress_l2_def lan_ingress_l3_def wan_egress_l2_def wan_egress_l3_def
    run_record_publishing lan_ingress_releases wan_egress_releases)

end
