(* ===== verification/Retirement_Plan.thy ===== *)
theory Retirement_Plan
  imports Datapath_State Marks
begin

text \<open>
  The decisions of the control plane about owned flows, before any map is touched: the
  transitions of a staged UDP flow (\<open>ebpf/mod.rs\<close>) and the plans of retirement
  (\<open>ebpf/retirement.rs\<close>). A plan is computed from snapshots of the connection, hand-off and
  redirect entries; \<open>Inl\<close> is a refusal that leaves every map untouched.
\<close>

section \<open>UDP decisions\<close>

datatype udp_decision_transition =
  ArmDirect u32 | ActivateDirect u32 | ActivateProxy u8 u32 | TransitionBlock

datatype commit_result = Applied | Missing | Superseded | TokenMismatch | StateMismatch

definition transition_mark_ok :: "udp_decision_transition \<Rightarrow> bool" where
  "transition_mark_ok tr =
     (case tr of
        ArmDirect mark \<Rightarrow> \<not> skb_mark_has_reserved_bits mark
      | ActivateDirect mark \<Rightarrow> \<not> skb_mark_has_reserved_bits mark
      | ActivateProxy _ mark \<Rightarrow> \<not> skb_mark_has_reserved_bits mark
      | TransitionBlock \<Rightarrow> True)"

definition final_udp_meta :: "routing_meta \<Rightarrow> u8 \<Rightarrow> u32 \<Rightarrow> bool \<Rightarrow> routing_meta" where
  "final_udp_meta previous outbound mark offload =
     (let preserved = previous AND (push_bit 48 0xff OR ROUTING_META_FLAG_PUBLISHED);
          flags = (if offload then ROUTING_META_FLAG_OFFLOAD else 0)
      in preserved OR as_u64 outbound OR push_bit 8 (as_u64 mark) OR flags)"

definition expected_state :: "udp_decision_transition \<Rightarrow> udp_decision_state" where
  "expected_state tr = (case tr of ActivateDirect _ \<Rightarrow> DirectArmed | _ \<Rightarrow> Pending)"

definition apply_udp_decision_transition ::
  "conn_state \<Rightarrow> udp_decision_transition \<Rightarrow> commit_result + conn_state"
where
  "apply_udp_decision_transition state tr =
     (if cs_state state \<noteq> udp_state_u8 (expected_state tr) then Inl StateMismatch
      else case tr of
        ArmDirect mark \<Rightarrow>
          Inr (state\<lparr>cs_state := udp_state_u8 DirectArmed,
                     cs_meta := final_udp_meta (cs_meta state) (outbound_u8 Direct) mark False\<rparr>)
      | ActivateDirect mark \<Rightarrow>
          let raw = cs_meta state; armed_mark = as_u32 (drop_bit 8 raw AND 0xffffffff) in
          if raw AND 0xff \<noteq> as_u64 (outbound_u8 Direct) \<or> armed_mark \<noteq> mark
             \<or> raw AND ROUTING_META_FLAG_OFFLOAD \<noteq> 0
          then Inl StateMismatch
          else Inr (state\<lparr>cs_state := udp_state_u8 UdpNone,
                          cs_meta := final_udp_meta (cs_meta state) (outbound_u8 Direct) mark True\<rparr>)
      | ActivateProxy outbound mark \<Rightarrow>
          Inr (state\<lparr>cs_state := udp_state_u8 Proxy,
                     cs_meta := final_udp_meta (cs_meta state) outbound mark False\<rparr>)
      | TransitionBlock \<Rightarrow>
          Inr (state\<lparr>cs_state := udp_state_u8 UdpBlock,
                     cs_meta := final_udp_meta (cs_meta state) (outbound_u8 Block) 0 False\<rparr>))"

definition udp_state_is_userspace_owned :: "u8 \<Rightarrow> bool" where
  "udp_state_is_userspace_owned state \<longleftrightarrow>
     state = udp_state_u8 Preparing \<or> state = udp_state_u8 Pending
     \<or> state = udp_state_u8 Aborted \<or> state = udp_state_u8 Proxy"

definition udp_state_is_staged :: "u8 \<Rightarrow> bool" where
  "udp_state_is_staged state \<longleftrightarrow>
     state = udp_state_u8 Preparing \<or> state = udp_state_u8 Pending \<or> state = udp_state_u8 Aborted"

definition udp_state_is_legacy_userspace_owned :: "conn_state \<Rightarrow> bool" where
  "udp_state_is_legacy_userspace_owned state =
     (if cs_decision_token state \<noteq> 0 \<or> cs_state state \<noteq> udp_state_u8 UdpNone then False
      else
        let raw = cs_meta state in
        if raw AND ROUTING_META_FLAG_PUBLISHED = 0 \<or> raw AND ROUTING_META_FLAG_OFFLOAD \<noteq> 0 then False
        else
          let outbound = as_u8 (raw AND 0xff); must = (drop_bit 40 raw AND 1 \<noteq> 0) in
          outbound \<noteq> outbound_u8 Block
          \<and> (outbound \<noteq> outbound_u8 Direct \<or> \<not> must \<or> raw AND ROUTING_META_FLAG_WAN_USERSPACE \<noteq> 0))"

section \<open>Requests, counts and outcomes\<close>

definition RETIRE_BATCH_CAPACITY :: nat where [rust_consts]: "RETIRE_BATCH_CAPACITY = 1024"

datatype retire_kind =
    RetireTcp u64
  | RetireUdp u32 "u64 option" bool
  | ExpiredConn conn_state u64
  | ExpiredRedirect redirect_entry u64
  | ExpiredHandoff routing_handoff_entry u64
  | ExpiryHint u64 u64

record retire_request =
  rq_key :: tuples_key
  rq_kind :: retire_kind

definition pending_udp :: "tuples_key \<Rightarrow> u32 \<Rightarrow> u64 option \<Rightarrow> retire_request" where
  "pending_udp key token incarnation = \<lparr>rq_key = key, rq_kind = RetireUdp token incarnation True\<rparr>"

record owner_reads =
  or_conn :: bool
  or_handoff :: bool
  or_redirect :: bool

definition kind_owner_reads :: "retire_kind \<Rightarrow> owner_reads" where
  "kind_owner_reads kind =
     (case kind of
        ExpiredRedirect _ _ \<Rightarrow> \<lparr>or_conn = False, or_handoff = False, or_redirect = True\<rparr>
      | ExpiredHandoff _ _ \<Rightarrow> \<lparr>or_conn = False, or_handoff = True, or_redirect = False\<rparr>
      | _ \<Rightarrow> \<lparr>or_conn = True, or_handoff = True, or_redirect = True\<rparr>)"

record retire_counts =
  rc_conn :: u64
  rc_redirect :: u64
  rc_handoff :: u64

definition zero_counts :: retire_counts where
  "zero_counts = \<lparr>rc_conn = 0, rc_redirect = 0, rc_handoff = 0\<rparr>"

definition counts_since :: "retire_counts \<Rightarrow> retire_counts \<Rightarrow> retire_counts" where
  "counts_since c before =
     \<lparr>rc_conn = rc_conn c - rc_conn before, rc_redirect = rc_redirect c - rc_redirect before,
      rc_handoff = rc_handoff c - rc_handoff before\<rparr>"

datatype retire_outcome = NotRun | ConnRetired | Done commit_result

definition settled :: "retire_outcome \<Rightarrow> bool" where
  "settled r \<longleftrightarrow> r = ConnRetired \<or> r = Done Applied \<or> r = Done Missing \<or> r = Done Superseded"

section \<open>Matching an expected entry\<close>

definition conn_matches :: "conn_state \<Rightarrow> conn_state \<Rightarrow> u64 \<Rightarrow> bool" where
  "conn_matches a b cutoff \<longleftrightarrow>
     cs_last_seen_ns a \<le> cutoff
     \<and> cs_last_seen_ns a = cs_last_seen_ns b
     \<and> cs_incarnation a = cs_incarnation b
     \<and> cs_state a = cs_state b
     \<and> cs_decision_token a = cs_decision_token b
     \<and> is_wan_ingress_direction a = is_wan_ingress_direction b
     \<and> cs_meta a = cs_meta b
     \<and> cs_mac a = cs_mac b
     \<and> cs_pname a = cs_pname b
     \<and> cs_pid a = cs_pid b
     \<and> cs_trace_id a = cs_trace_id b"

definition redirect_matches :: "redirect_entry \<Rightarrow> redirect_entry \<Rightarrow> u64 \<Rightarrow> bool" where
  "redirect_matches a b cutoff \<longleftrightarrow>
     re_last_seen_ns a \<le> cutoff
     \<and> re_last_seen_ns a = re_last_seen_ns b
     \<and> re_incarnation a = re_incarnation b
     \<and> re_decision_token a = re_decision_token b
     \<and> re_dmac a = re_dmac b
     \<and> re_smac a = re_smac b
     \<and> re_from_wan a = re_from_wan b
     \<and> re_outbound a = re_outbound b
     \<and> re_ifindex a = re_ifindex b"

definition handoff_matches :: "routing_handoff_entry \<Rightarrow> routing_handoff_entry \<Rightarrow> u64 \<Rightarrow> bool" where
  "handoff_matches a b cutoff \<longleftrightarrow>
     (let x = he_result a; y = he_result b in
      he_last_seen_ns a \<le> cutoff
      \<and> he_last_seen_ns a = he_last_seen_ns b
      \<and> he_incarnation a = he_incarnation b
      \<and> he_routing_generation a = he_routing_generation b
      \<and> he_trace_id a = he_trace_id b
      \<and> rr_mark x = rr_mark y
      \<and> rr_must x = rr_must y
      \<and> rr_mac x = rr_mac y
      \<and> rr_outbound x = rr_outbound y
      \<and> rr_pname x = rr_pname y
      \<and> rr_pid x = rr_pid y
      \<and> rr_dscp x = rr_dscp y
      \<and> rr_decision_token x = rr_decision_token y)"

definition conn_state_timeout_ns :: "u8 \<Rightarrow> conn_state \<Rightarrow> u64" where
  "conn_state_timeout_ns proto state =
     (if proto = IPPROTO_UDP
      then if cs_state state = udp_state_u8 Aborted then 0 else UDP_CONN_STATE_TIMEOUT_NS
      else if cs_state state = tcp_state_u8 TcpStateClosing then TCP_CONN_STATE_CLOSING_TIMEOUT_NS
      else TCP_CONN_STATE_ESTABLISHED_TIMEOUT_NS)"

definition conn_expired :: "u8 \<Rightarrow> conn_state \<Rightarrow> u64 \<Rightarrow> bool" where
  "conn_expired proto state now_ns \<longleftrightarrow>
     (let timeout = conn_state_timeout_ns proto state in
      timeout = 0 \<or> saturating_sub now_ns (cs_last_seen_ns state) > timeout)"

section \<open>Plans\<close>

text \<open>The source has no connection owner for the two auxiliary kinds and never asks for one;
  that branch is \<open>unreachable!\<close> there and unspecified here.\<close>

definition validate_conn_retirement :: "conn_state \<Rightarrow> u8 \<Rightarrow> retire_kind \<Rightarrow> commit_result + unit" where
  "validate_conn_retirement state proto kind =
     (case kind of
        RetireTcp incarnation \<Rightarrow>
          if cs_incarnation state \<noteq> incarnation then Inl Superseded else Inr ()
      | RetireUdp token incarnation pending_only \<Rightarrow>
          if cs_decision_token state \<noteq> token
             \<or> (case incarnation of None \<Rightarrow> False | Some i \<Rightarrow> i \<noteq> cs_incarnation state)
          then Inl (if pending_only then TokenMismatch else Superseded)
          else if pending_only then
            (if \<not> udp_state_is_staged (cs_state state) then Inl StateMismatch else Inr ())
          else if token \<noteq> 0 then
            (if \<not> udp_state_is_userspace_owned (cs_state state) then Inl StateMismatch else Inr ())
          else if \<not> udp_state_is_legacy_userspace_owned state
                  \<and> \<not> (cs_state state = udp_state_u8 Aborted \<and> incarnation = Some (cs_incarnation state))
          then Inl Superseded
          else Inr ()
      | ExpiredConn expected expired_before_ns \<Rightarrow>
          let cutoff = (if proto = IPPROTO_UDP \<and> cs_state state = udp_state_u8 Aborted
                        then - 1 else expired_before_ns) in
          if \<not> conn_matches state expected cutoff then Inl Superseded else Inr ()
      | ExpiryHint incarnation now_ns \<Rightarrow>
          if cs_incarnation state \<noteq> incarnation then Inl Superseded
          else if \<not> conn_expired proto state now_ns then Inl StateMismatch
          else Inr ()
      | ExpiredRedirect _ _ \<Rightarrow> undefined
      | ExpiredHandoff _ _ \<Rightarrow> undefined)"

definition auxiliaries_match ::
  "u64 \<Rightarrow> u32 \<Rightarrow> routing_handoff_entry option \<Rightarrow> redirect_entry option \<Rightarrow> bool"
where
  "auxiliaries_match incarnation token handoff track \<longleftrightarrow>
     (case handoff of None \<Rightarrow> True
      | Some entry \<Rightarrow> he_incarnation entry = incarnation \<and> rr_decision_token (he_result entry) = token)
     \<and> (case track of None \<Rightarrow> True
        | Some entry \<Rightarrow> re_incarnation entry = incarnation \<and> re_decision_token entry = token)"

record owners =
  ow_conn :: "conn_state option"
  ow_handoff :: "routing_handoff_entry option"
  ow_redirect :: "redirect_entry option"

record retire_plan =
  pl_handoff :: bool
  pl_redirect :: bool
  pl_conn :: bool
  pl_unchanged :: commit_result

definition plan_auxiliary :: "commit_result \<Rightarrow> retire_plan" where
  "plan_auxiliary unchanged =
     \<lparr>pl_handoff = False, pl_redirect = False, pl_conn = False, pl_unchanged = unchanged\<rparr>"

definition plan_outcome :: "retire_plan \<Rightarrow> retire_counts \<Rightarrow> retire_outcome" where
  "plan_outcome plan removed =
     (if pl_conn plan \<and> rc_conn removed \<noteq> 0 then ConnRetired
      else if \<not> pl_conn plan \<and> rc_handoff removed + rc_redirect removed \<noteq> 0 then Done Applied
      else Done (pl_unchanged plan))"

definition expiry_hint_auxiliary_plan :: "u64 \<Rightarrow> u64 \<Rightarrow> owners \<Rightarrow> commit_result + retire_plan" where
  "expiry_hint_auxiliary_plan incarnation now_ns ow =
     (let unchanged = (if ow_conn ow = None \<and> ow_handoff ow = None \<and> ow_redirect ow = None
                       then Missing else StateMismatch);
          handoff = (case ow_handoff ow of None \<Rightarrow> None
                     | Some entry \<Rightarrow> if he_incarnation entry = incarnation then Some entry else None);
          track = (case ow_redirect ow of None \<Rightarrow> None
                   | Some entry \<Rightarrow> if re_incarnation entry = incarnation then Some entry else None);
          token = (case ow_conn ow of Some state \<Rightarrow> Some (cs_decision_token state)
                   | None \<Rightarrow> (case handoff of Some entry \<Rightarrow> Some (rr_decision_token (he_result entry))
                              | None \<Rightarrow> map_option re_decision_token track)) in
      if (case token of None \<Rightarrow> False | Some tok \<Rightarrow> \<not> auxiliaries_match incarnation tok handoff track)
      then Inl TokenMismatch
      else Inr ((plan_auxiliary unchanged)\<lparr>
        pl_handoff := (case handoff of None \<Rightarrow> False
          | Some entry \<Rightarrow> saturating_sub now_ns (he_last_seen_ns entry) > ROUTING_HANDOFF_TIMEOUT_NS),
        pl_redirect := (case track of None \<Rightarrow> False
          | Some entry \<Rightarrow> saturating_sub now_ns (re_last_seen_ns entry) > REDIRECT_TRACK_TIMEOUT_NS)\<rparr>))"

definition conn_plan :: "tuples_key \<Rightarrow> retire_kind \<Rightarrow> owners \<Rightarrow> commit_result + retire_plan" where
  "conn_plan key kind ow =
     (case ow_conn ow of
        None \<Rightarrow> Inl Missing
      | Some state \<Rightarrow>
          (case validate_conn_retirement state (l4proto key) kind of
             Inl r \<Rightarrow> Inl r
           | Inr _ \<Rightarrow>
               if \<not> auxiliaries_match (cs_incarnation state) (cs_decision_token state)
                      (ow_handoff ow) (ow_redirect ow)
               then Inl TokenMismatch
               else Inr ((plan_auxiliary Missing)\<lparr>pl_handoff := (ow_handoff ow \<noteq> None),
                          pl_redirect := (ow_redirect ow \<noteq> None), pl_conn := True\<rparr>)))"

definition plan_retirement :: "retire_request \<Rightarrow> owners \<Rightarrow> commit_result + retire_plan" where
  "plan_retirement request ow =
     (case rq_kind request of
        ExpiredRedirect expected expired_before_ns \<Rightarrow>
          (case ow_redirect ow of
             None \<Rightarrow> Inl Missing
           | Some current \<Rightarrow>
               if redirect_matches current expected expired_before_ns
               then Inr ((plan_auxiliary Applied)\<lparr>pl_redirect := True\<rparr>) else Inl Superseded)
      | ExpiredHandoff expected expired_before_ns \<Rightarrow>
          (case ow_handoff ow of
             None \<Rightarrow> Inl Missing
           | Some current \<Rightarrow>
               if handoff_matches current expected expired_before_ns
               then Inr ((plan_auxiliary Applied)\<lparr>pl_handoff := True\<rparr>) else Inl Superseded)
      | ExpiryHint incarnation now_ns \<Rightarrow>
          (case conn_plan (rq_key request) (rq_kind request) ow of
             Inl Missing \<Rightarrow> expiry_hint_auxiliary_plan incarnation now_ns ow
           | Inl StateMismatch \<Rightarrow> expiry_hint_auxiliary_plan incarnation now_ns ow
           | plan \<Rightarrow> plan)
      | _ \<Rightarrow> conn_plan (rq_key request) (rq_kind request) ow)"

section \<open>Commit plans\<close>

datatype redirect_effect = EffectRemove | EffectRewrite redirect_entry

record udp_commit_plan =
  cp_state :: conn_state
  cp_remove_handoff :: bool
  cp_redirect :: "redirect_effect option"

definition plan_udp_commit ::
  "conn_state \<Rightarrow> u32 \<Rightarrow> udp_decision_transition \<Rightarrow> routing_handoff_entry option
   \<Rightarrow> redirect_entry option \<Rightarrow> commit_result + udp_commit_plan"
where
  "plan_udp_commit state token tr handoff track =
     (case apply_udp_decision_transition state tr of
        Inl r \<Rightarrow> Inl r
      | Inr state' \<Rightarrow>
          if \<not> auxiliaries_match (cs_incarnation state') token handoff track then Inl TokenMismatch
          else
            let initial = (case tr of ActivateDirect _ \<Rightarrow> False | _ \<Rightarrow> True) in
            if initial \<and> (handoff = None \<or> track = None) then Inl Missing
            else if \<not> initial \<and> (handoff \<noteq> None \<or> track \<noteq> None) then Inl StateMismatch
            else Inr \<lparr>cp_state = state', cp_remove_handoff = (handoff \<noteq> None),
                   cp_redirect = map_option (\<lambda>t. case tr of
                       ActivateProxy outbound _ \<Rightarrow> EffectRewrite (t\<lparr>re_outbound := outbound\<rparr>)
                     | _ \<Rightarrow> EffectRemove) track\<rparr>)"

end
