(* ===== verification/Backend.thy ===== *)
theory Backend
  imports Retirement_Plan Policy
begin

text \<open>
  The control plane's side of the shared maps: \<open>RealEbpfBackend\<close> of \<open>ebpf/real\<close> with its fenced
  retirement protocol, the commit of UDP decisions, staging quiescence and the decision-token
  generation. Every access to a map is one call into the kernel. \<open>kn_run n\<close> is what the
  classifiers did to the maps between the previous call and call \<open>n\<close>, \<open>kn_fails n\<close> says that
  call \<open>n\<close> fails, and the scan fields give the order in which a scan of a map that starts with call \<open>n\<close>
  lists its keys; \<open>kn_batches n\<close> gives the sizes of the batches before the last of such a scan, and
  \<open>kn_batch_errno n\<close> the error number of a batch call \<open>n\<close> that ends one. A scan lists finitely many keys;
  all of them are arguments of the model. A run of a classifier is one step of \<open>kn_run\<close>, so a
  run that began before a fence was set has ended when the next call returns, which is what
  \<open>grace_barrier\<close> waits for. A tuple of the model has no padding bytes, so the checks for
  canonical padding hold of every tuple here.
\<close>

record kernel =
  kn_run :: "nat \<Rightarrow> dp \<Rightarrow> dp"
  kn_fails :: "nat \<Rightarrow> bool"
  kn_conn_keys :: "nat \<Rightarrow> tuples_key list"
  kn_fence_keys :: "nat \<Rightarrow> tuples_key list"
  kn_handoff_keys :: "nat \<Rightarrow> tuples_key list"
  kn_redirect_keys :: "nat \<Rightarrow> redirect_tuple list"
  kn_batches :: "nat \<Rightarrow> nat list"
  kn_batch_errno :: "nat \<Rightarrow> int"

datatype be_error =
    MapFailed | OwnershipUnresolved | BatchCapacity | OwnerExhausted | FenceChanged
  | FenceDisappeared | LengthMismatch | NoncanonicalTuple | InvalidTcpOwner | InvalidUdpOwner
  | InvalidExpiryIncarnation | NoLifetimeIdentity | ReservedMark | ActivationInBatch
  | QuiescenceRejected retire_outcome | GenerationExhausted | InvalidGeneration | SequenceNotExhausted
  | SequenceInvalid | IncarnationDomain | IncarnationZero | NoConnState | TokenChanged
  | IncarnationMismatch | NoCapturedIncarnation | HandoffOwnership | NoHandoff | DnsHandoffToken
  | ListenersUnpublished | QuiescenceIncomplete | Combined be_error be_error

record backend =
  be_maps :: dp
  be_calls :: nat
  retirement_failed :: bool
  retirement_owner :: u64
  udp_staging_quiesce_incomplete :: bool
  cap_lookup_batch :: bool
  cap_flow_lookup_batch :: bool
  listeners_published :: bool
  aux_deletes_redirect :: u64
  aux_deletes_handoff :: u64
  USERSPACE_CONN_STATE_DELETES :: u64
  routing_generation :: "policy_descriptor option"
  routing_generation_counter :: u64
  routing_generation_sequence :: u64
  ROUTING_POLICY_ROOT :: "policy_descriptor option"

section \<open>Fallible steps\<close>

type_synonym 'a be = "backend \<Rightarrow> (be_error + 'a) \<times> backend"

text \<open>\<open>and_then\<close> is the \<open>?\<close> operator, \<open>ensure\<close> is \<open>anyhow::ensure!\<close>.\<close>

definition and_then :: "'a be \<Rightarrow> ('a \<Rightarrow> 'b be) \<Rightarrow> 'b be" where
  "and_then m f b = (case m b of (Inl e, b1) \<Rightarrow> (Inl e, b1) | (Inr a, b1) \<Rightarrow> f a b1)"

definition return :: "'a \<Rightarrow> 'a be" where
  "return a b = (Inr a, b)"

definition ensure :: "bool \<Rightarrow> be_error \<Rightarrow> 'a be \<Rightarrow> 'a be" where
  "ensure c e m b = (if c then m b else (Inl e, b))"

definition map_call :: "kernel \<Rightarrow> (dp \<Rightarrow> (be_error + 'a) \<times> dp) \<Rightarrow> 'a be" where
  "map_call kn f b =
     (let n = be_calls b; s = kn_run kn n (be_maps b); b1 = b\<lparr>be_calls := n + 1\<rparr> in
      if kn_fails kn n then (Inl MapFailed, b1\<lparr>be_maps := s\<rparr>)
      else let (r, s') = f s in (r, b1\<lparr>be_maps := s'\<rparr>))"

definition lookup_fence :: "kernel \<Rightarrow> tuples_key \<Rightarrow> retirement_fence option be" where
  "lookup_fence kn key = map_call kn (\<lambda>s. (Inr (RETIRE_FENCE s key), s))"

definition insert_fence :: "kernel \<Rightarrow> tuples_key \<Rightarrow> retirement_fence \<Rightarrow> unit be" where
  "insert_fence kn key fence = map_call kn (\<lambda>s.
     if RETIRE_FENCE s key \<noteq> None then (Inl MapFailed, s)
     else (Inr (), s\<lparr>RETIRE_FENCE := (RETIRE_FENCE s)(key \<mapsto> fence)\<rparr>))"

definition remove_fence :: "kernel \<Rightarrow> tuples_key \<Rightarrow> bool be" where
  "remove_fence kn key = map_call kn (\<lambda>s.
     (Inr (RETIRE_FENCE s key \<noteq> None), s\<lparr>RETIRE_FENCE := remove_key key (RETIRE_FENCE s)\<rparr>))"

definition set_retire_active :: "kernel \<Rightarrow> u32 \<Rightarrow> unit be" where
  "set_retire_active kn v = map_call kn (\<lambda>s. (Inr (), s\<lparr>RETIRE_ACTIVE := v\<rparr>))"

definition conn_state_lookup :: "kernel \<Rightarrow> tuples_key \<Rightarrow> conn_state option be" where
  "conn_state_lookup kn key = map_call kn (\<lambda>s. (Inr (CONN_STATE_MAP s key), s))"

definition routing_handoff_lookup :: "kernel \<Rightarrow> tuples_key \<Rightarrow> routing_handoff_entry option be" where
  "routing_handoff_lookup kn key = map_call kn (\<lambda>s. (Inr (ROUTING_HANDOFF_MAP s key), s))"

definition redirect_track_lookup :: "kernel \<Rightarrow> redirect_tuple \<Rightarrow> redirect_entry option be" where
  "redirect_track_lookup kn key = map_call kn (\<lambda>s. (Inr (REDIRECT_TRACK s key), s))"

definition remove_conn :: "kernel \<Rightarrow> tuples_key \<Rightarrow> bool be" where
  "remove_conn kn key = map_call kn (\<lambda>s.
     (Inr (CONN_STATE_MAP s key \<noteq> None), s\<lparr>CONN_STATE_MAP := remove_key key (CONN_STATE_MAP s)\<rparr>))"

definition remove_handoff :: "kernel \<Rightarrow> tuples_key \<Rightarrow> bool be" where
  "remove_handoff kn key = map_call kn (\<lambda>s.
     (Inr (ROUTING_HANDOFF_MAP s key \<noteq> None),
      s\<lparr>ROUTING_HANDOFF_MAP := remove_key key (ROUTING_HANDOFF_MAP s)\<rparr>))"

definition remove_redirect :: "kernel \<Rightarrow> redirect_tuple \<Rightarrow> bool be" where
  "remove_redirect kn key = map_call kn (\<lambda>s.
     (Inr (REDIRECT_TRACK s key \<noteq> None), s\<lparr>REDIRECT_TRACK := remove_key key (REDIRECT_TRACK s)\<rparr>))"

definition flow_insert_conn :: "kernel \<Rightarrow> tuples_key \<Rightarrow> conn_state \<Rightarrow> unit be" where
  "flow_insert_conn kn key state = map_call kn (\<lambda>s.
     (Inr (), s\<lparr>CONN_STATE_MAP := (CONN_STATE_MAP s)(key \<mapsto> state)\<rparr>))"

definition flow_insert_redirect :: "kernel \<Rightarrow> redirect_tuple \<Rightarrow> redirect_entry \<Rightarrow> unit be" where
  "flow_insert_redirect kn key entry = map_call kn (\<lambda>s.
     (Inr (), s\<lparr>REDIRECT_TRACK := (REDIRECT_TRACK s)(key \<mapsto> entry)\<rparr>))"

section \<open>The fence protocol\<close>

definition combine_error :: "be_error option \<Rightarrow> be_error \<Rightarrow> be_error option" where
  "combine_error original e = Some (case original of Some previous \<Rightarrow> Combined previous e | None \<Rightarrow> e)"

definition grace_barrier :: "kernel \<Rightarrow> unit be" where
  "grace_barrier kn b =
     ensure (\<not> retirement_failed b) OwnershipUnresolved (map_call kn (\<lambda>s. (Inr (), s))) b"

fun acquire_fences ::
  "kernel \<Rightarrow> u64 \<Rightarrow> (tuples_key \<times> u32) list \<Rightarrow> tuples_key list \<Rightarrow> tuples_key list \<Rightarrow> backend
   \<Rightarrow> (tuples_key list \<times> be_error option \<times> bool) \<times> backend"
where
  "acquire_fences kn owner [] seen acquired b = ((acquired, None, False), b)"
| "acquire_fences kn owner ((key, token) # rest) seen acquired b =
     (if key \<in> set seen then acquire_fences kn owner rest seen acquired b
      else case insert_fence kn key \<lparr>rf_owner = owner, rf_decision_token = token\<rparr> b of
        (Inr _, b1) \<Rightarrow> acquire_fences kn owner rest (key # seen) (acquired @ [key]) b1
      | (Inl e, b1) \<Rightarrow>
          (case lookup_fence kn key b1 of
             (Inr None, b2) \<Rightarrow> ((acquired, Some e, False), b2)
           | (Inr (Some _), b2) \<Rightarrow> ((acquired, Some e, True), b2)
           | (Inl e2, b2) \<Rightarrow> ((acquired, combine_error (Some e) e2, True), b2)))"

fun verify_fences :: "kernel \<Rightarrow> u64 \<Rightarrow> tuples_key list \<Rightarrow> unit be" where
  "verify_fences kn owner [] = return ()"
| "verify_fences kn owner (key # rest) =
     and_then (lookup_fence kn key) (\<lambda>current.
       ensure (case current of None \<Rightarrow> False | Some f \<Rightarrow> rf_owner f = owner) FenceChanged
         (verify_fences kn owner rest))"

definition release_fence :: "kernel \<Rightarrow> u64 \<Rightarrow> tuples_key \<Rightarrow> unit be" where
  "release_fence kn owner key =
     and_then (lookup_fence kn key) (\<lambda>current.
       ensure (case current of None \<Rightarrow> False | Some f \<Rightarrow> rf_owner f = owner) FenceDisappeared
         (and_then (remove_fence kn key) (\<lambda>present. ensure present FenceDisappeared (return ()))))"

fun release_fences ::
  "kernel \<Rightarrow> u64 \<Rightarrow> tuples_key list \<Rightarrow> be_error option \<Rightarrow> bool \<Rightarrow> backend \<Rightarrow> (be_error option \<times> bool) \<times> backend"
where
  "release_fences kn owner [] failure unresolved b = ((failure, unresolved), b)"
| "release_fences kn owner (key # rest) failure unresolved b =
     (case release_fence kn owner key b of
        (Inr _, b1) \<Rightarrow> release_fences kn owner rest failure unresolved b1
      | (Inl e, b1) \<Rightarrow> release_fences kn owner rest (combine_error failure e) True b1)"

text \<open>\<open>c\<close> is what the operation's closure captures mutably; it is kept when the operation fails
  and unchanged when it does not run.\<close>

definition with_retirement_fences ::
  "kernel \<Rightarrow> (tuples_key \<times> u32) list \<Rightarrow> ('c \<Rightarrow> backend \<Rightarrow> ((be_error + 'a) \<times> 'c) \<times> backend)
   \<Rightarrow> 'c \<Rightarrow> backend \<Rightarrow> ((be_error + 'a) \<times> 'c) \<times> backend"
where
  "with_retirement_fences kn keys operation c b =
     (if retirement_failed b then ((Inl OwnershipUnresolved, c), b)
      else if length keys > RETIRE_BATCH_CAPACITY then ((Inl BatchCapacity, c), b)
      else if retirement_owner b = - 1 then ((Inl OwnerExhausted, c), b\<lparr>retirement_failed := True\<rparr>)
      else
        let owner = retirement_owner b + 1 in
        case set_retire_active kn 1 (b\<lparr>retirement_owner := owner\<rparr>) of
          (Inl e, b2) \<Rightarrow> ((Inl e, c), b2)
        | (Inr _, b2) \<Rightarrow>
            let ((acquired, failure, unresolved), b3) = acquire_fences kn owner keys [] [] b2;
                ((result, c1), b4) =
                  (case failure of
                     Some e \<Rightarrow> ((Inl e, c), b3)
                   | None \<Rightarrow>
                       (case and_then (grace_barrier kn) (\<lambda>_. verify_fences kn owner acquired) b3 of
                          (Inl e, b') \<Rightarrow> ((Inl e, c), b')
                        | (Inr _, b') \<Rightarrow> operation c b'));
                ((failure1, unresolved1), b5) =
                  release_fences kn owner acquired
                    (case result of Inl e \<Rightarrow> Some e | Inr _ \<Rightarrow> None) unresolved b4;
                (failure2, b6) =
                  (if unresolved1 then (failure1, b5\<lparr>retirement_failed := True\<rparr>)
                   else case set_retire_active kn 0 b5 of
                     (Inr _, b') \<Rightarrow> (failure1, b')
                   | (Inl e, b') \<Rightarrow> (combine_error failure1 e, b'\<lparr>retirement_failed := True\<rparr>))
            in ((case failure2 of Some e \<Rightarrow> Inl e | None \<Rightarrow> result, c1), b6))"

section \<open>Retirement\<close>

text \<open>A removal of an entry in a plan, counted as it happens.\<close>

definition bool_u64 :: "bool \<Rightarrow> u64" where
  "bool_u64 c = (if c then 1 else 0)"

definition counted_removal ::
  "bool \<Rightarrow> bool be \<Rightarrow> (u64 \<Rightarrow> retire_counts \<Rightarrow> retire_counts) \<Rightarrow> retire_counts \<Rightarrow> backend
   \<Rightarrow> ((be_error + unit) \<times> retire_counts) \<times> backend"
where
  "counted_removal go remove upd counts b =
     (if \<not> go then ((Inr (), counts), b)
      else case remove b of
        (Inl e, b1) \<Rightarrow> ((Inl e, counts), b1)
      | (Inr present, b1) \<Rightarrow> ((Inr (), upd (bool_u64 present) counts), b1))"

definition execute_plan ::
  "kernel \<Rightarrow> retire_request \<Rightarrow> retire_plan \<Rightarrow> retire_counts \<Rightarrow> backend
   \<Rightarrow> ((be_error + retire_outcome) \<times> retire_counts) \<times> backend"
where
  "execute_plan kn request plan counts b =
     (let key = rq_key request in
      case counted_removal (pl_handoff plan) (remove_handoff kn key)
             (\<lambda>d c. c\<lparr>rc_handoff := rc_handoff c + d\<rparr>) counts b of
        ((Inl e, c1), b1) \<Rightarrow> ((Inl e, c1), b1)
      | ((Inr _, c1), b1) \<Rightarrow>
          (case counted_removal (pl_redirect plan) (remove_redirect kn (from_tuples key))
                  (\<lambda>d c. c\<lparr>rc_redirect := rc_redirect c + d\<rparr>) c1 b1 of
             ((Inl e, c2), b2) \<Rightarrow> ((Inl e, c2), b2)
           | ((Inr _, c2), b2) \<Rightarrow>
               (case counted_removal (pl_conn plan) (remove_conn kn key)
                       (\<lambda>d c. c\<lparr>rc_conn := rc_conn c + d\<rparr>) c2 b2 of
                  ((Inl e, c3), b3) \<Rightarrow> ((Inl e, c3), b3)
                | ((Inr _, c3), b3) \<Rightarrow> ((Inr (plan_outcome plan (counts_since c3 counts)), c3), b3))))"

definition lookup_if :: "bool \<Rightarrow> 'a option be \<Rightarrow> 'a option be" where
  "lookup_if c m = (if c then m else return None)"

definition read_owners :: "kernel \<Rightarrow> retire_request \<Rightarrow> owners be" where
  "read_owners kn request =
     (let key = rq_key request; reads = kind_owner_reads (rq_kind request) in
      and_then (lookup_if (or_conn reads) (conn_state_lookup kn key)) (\<lambda>conn.
      and_then (lookup_if (or_handoff reads) (routing_handoff_lookup kn key)) (\<lambda>handoff.
      and_then (lookup_if (or_redirect reads) (redirect_track_lookup kn (from_tuples key))) (\<lambda>redirect.
      return \<lparr>ow_conn = conn, ow_handoff = handoff, ow_redirect = redirect\<rparr>))))"

definition retire_one ::
  "kernel \<Rightarrow> retire_request \<Rightarrow> retire_counts \<Rightarrow> backend
   \<Rightarrow> ((be_error + retire_outcome) \<times> retire_counts) \<times> backend"
where
  "retire_one kn request counts b =
     (case read_owners kn request b of
        (Inl e, b1) \<Rightarrow> ((Inl e, counts), b1)
      | (Inr ow, b1) \<Rightarrow>
          (case plan_retirement request ow of
             Inl result \<Rightarrow> ((Inr (Done result), counts), b1)
           | Inr plan \<Rightarrow>
               if pl_conn plan \<and> (case rq_kind request of RetireUdp _ _ _ \<Rightarrow> True | _ \<Rightarrow> False)
                  \<and> \<not> (case ow_conn ow of None \<Rightarrow> False | Some state \<Rightarrow> cs_incarnation state \<noteq> 0)
               then ((Inl NoLifetimeIdentity, counts), b1)
               else execute_plan kn request plan counts b1))"

fun retire_each ::
  "kernel \<Rightarrow> retire_request list \<Rightarrow> retire_outcome list \<times> retire_counts \<Rightarrow> backend
   \<Rightarrow> ((be_error + unit) \<times> retire_outcome list \<times> retire_counts) \<times> backend"
where
  "retire_each kn [] (outcomes, counts) b = ((Inr (), outcomes, counts), b)"
| "retire_each kn (request # rest) (outcomes, counts) b =
     (case retire_one kn request counts b of
        ((Inl e, counts1), b1) \<Rightarrow>
          ((Inl e, outcomes @ replicate (length rest + 1) NotRun, counts1), b1)
      | ((Inr outcome, counts1), b1) \<Rightarrow> retire_each kn rest (outcomes @ [outcome], counts1) b1)"

definition request_token :: "retire_request \<Rightarrow> be_error + u32" where
  "request_token request =
     (let proto = l4proto (rq_key request) in
      if \<not> (proto = IPPROTO_TCP \<or> proto = IPPROTO_UDP) then Inl NoncanonicalTuple
      else case rq_kind request of
        RetireTcp incarnation \<Rightarrow>
          if proto = IPPROTO_TCP \<and> incarnation \<noteq> 0 then Inr 0 else Inl InvalidTcpOwner
      | RetireUdp token incarnation _ \<Rightarrow>
          if proto = IPPROTO_UDP \<and> incarnation \<noteq> Some 0 \<and> (token \<noteq> 0 \<or> incarnation \<noteq> None)
          then Inr token else Inl InvalidUdpOwner
      | ExpiredConn expected _ \<Rightarrow> Inr (cs_decision_token expected)
      | ExpiredRedirect expected _ \<Rightarrow> Inr (re_decision_token expected)
      | ExpiredHandoff expected _ \<Rightarrow> Inr (rr_decision_token (he_result expected))
      | ExpiryHint incarnation _ \<Rightarrow>
          if incarnation \<noteq> 0 then Inr 0 else Inl InvalidExpiryIncarnation)"

fun request_keys :: "retire_request list \<Rightarrow> be_error + (tuples_key \<times> u32) list" where
  "request_keys [] = Inr []"
| "request_keys (request # rest) =
     (case request_token request of
        Inl e \<Rightarrow> Inl e
      | Inr token \<Rightarrow>
          (case request_keys rest of Inl e \<Rightarrow> Inl e | Inr keys \<Rightarrow> Inr ((rq_key request, token) # keys)))"

text \<open>The two tallies a finished batch feeds, deletions before a failure included.\<close>

definition account_retirement :: "retire_counts \<Rightarrow> backend \<Rightarrow> backend" where
  "account_retirement counts b =
     b\<lparr>USERSPACE_CONN_STATE_DELETES := USERSPACE_CONN_STATE_DELETES b + rc_conn counts,
       aux_deletes_redirect := aux_deletes_redirect b + rc_redirect counts,
       aux_deletes_handoff := aux_deletes_handoff b + rc_handoff counts\<rparr>"

text \<open>\<open>outcomes_len\<close> is the length of the caller's outcome slice; the result carries the counts
  also when the batch fails.\<close>

definition retire_flows ::
  "kernel \<Rightarrow> retire_request list \<Rightarrow> nat \<Rightarrow> backend
   \<Rightarrow> ((be_error + unit) \<times> retire_outcome list \<times> retire_counts) \<times> backend"
where
  "retire_flows kn requests outcomes_len b =
     (let fresh = replicate outcomes_len NotRun;
          ((result, outcomes, counts), b1) =
            (if \<not> (length requests = outcomes_len \<and> length requests \<le> RETIRE_BATCH_CAPACITY)
             then ((Inl LengthMismatch, fresh, zero_counts), b)
             else if retirement_failed b then ((Inl OwnershipUnresolved, fresh, zero_counts), b)
             else if requests = [] then ((Inr (), fresh, zero_counts), b)
             else case request_keys requests of
               Inl e \<Rightarrow> ((Inl e, fresh, zero_counts), b)
             | Inr keys \<Rightarrow>
                 (case with_retirement_fences kn keys
                         (\<lambda>_. retire_each kn requests ([], zero_counts)) (fresh, zero_counts) b of
                    ((r, c), b1) \<Rightarrow> ((r, c), b1)))
      in ((result, outcomes, counts), account_retirement counts b1))"

definition retire_pending ::
  "kernel \<Rightarrow> tuples_key \<Rightarrow> u32 \<Rightarrow> u64 option \<Rightarrow> retire_outcome be"
where
  "retire_pending kn key token incarnation b =
     (case retire_flows kn [pending_udp key token incarnation] 1 b of
        ((Inl e, _, _), b1) \<Rightarrow> (Inl e, b1)
      | ((Inr _, outcomes, _), b1) \<Rightarrow> (Inr (outcomes ! 0), b1))"

section \<open>UDP decisions\<close>

text \<open>The authorized writes: hand-off, redirect, then the connection entry.\<close>

definition apply_commit_plan :: "kernel \<Rightarrow> tuples_key \<Rightarrow> udp_commit_plan \<Rightarrow> commit_result be" where
  "apply_commit_plan kn key plan =
     and_then
       (if cp_remove_handoff plan
        then and_then (remove_handoff kn key) (\<lambda>_ b.
               (Inr (), b\<lparr>aux_deletes_handoff := aux_deletes_handoff b + 1\<rparr>))
        else return ()) (\<lambda>_.
     and_then
       (case cp_redirect plan of
          Some (EffectRewrite entry) \<Rightarrow> flow_insert_redirect kn (from_tuples key) entry
        | Some EffectRemove \<Rightarrow>
            and_then (remove_redirect kn (from_tuples key)) (\<lambda>_ b.
              (Inr (), b\<lparr>aux_deletes_redirect := aux_deletes_redirect b + 1\<rparr>))
        | None \<Rightarrow> return ()) (\<lambda>_.
     and_then (flow_insert_conn kn key (cp_state plan)) (\<lambda>_. return Applied)))"

definition commit_udp_checked ::
  "kernel \<Rightarrow> tuples_key \<Rightarrow> u32 \<Rightarrow> u64 \<Rightarrow> udp_decision_transition \<Rightarrow> commit_result be"
where
  "commit_udp_checked kn key token incarnation tr =
     and_then (conn_state_lookup kn key) (\<lambda>conn.
       case conn of
         None \<Rightarrow> return Missing
       | Some state \<Rightarrow>
           if cs_decision_token state \<noteq> token \<or> cs_incarnation state \<noteq> incarnation
           then return TokenMismatch
           else ensure (cs_incarnation state \<noteq> 0) NoLifetimeIdentity
             (and_then (routing_handoff_lookup kn key) (\<lambda>handoff.
              and_then (redirect_track_lookup kn (from_tuples key)) (\<lambda>track.
                case plan_udp_commit state token tr handoff track of
                  Inl result \<Rightarrow> return result
                | Inr plan \<Rightarrow> apply_commit_plan kn key plan))))"

definition commit_udp_fenced ::
  "kernel \<Rightarrow> tuples_key \<Rightarrow> u32 \<Rightarrow> udp_decision_transition \<Rightarrow> commit_result be"
where
  "commit_udp_fenced kn key token tr b =
     (if retirement_failed b then (Inl OwnershipUnresolved, b)
      else if \<not> transition_mark_ok tr then (Inl ReservedMark, b)
      else if token = 0 then (Inr TokenMismatch, b)
      else and_then (conn_state_lookup kn key) (\<lambda>conn.
        case conn of
          None \<Rightarrow> return Missing
        | Some captured \<Rightarrow> (\<lambda>b1.
            case with_retirement_fences kn [(key, token)]
                   (\<lambda>c b2. case commit_udp_checked kn key token (cs_incarnation captured) tr b2 of
                             (r, b3) \<Rightarrow> ((r, c), b3)) () b1 of
              ((r, _), b4) \<Rightarrow> (r, b4))) b)"

definition activate_udp_direct ::
  "kernel \<Rightarrow> tuples_key \<Rightarrow> u32 \<Rightarrow> udp_decision_transition \<Rightarrow> commit_result be"
where
  "activate_udp_direct kn key token tr b =
     (if retirement_failed b then (Inl OwnershipUnresolved, b)
      else if \<not> transition_mark_ok tr then (Inl ReservedMark, b)
      else if token = 0 then (Inr TokenMismatch, b)
      else and_then (conn_state_lookup kn key) (\<lambda>conn.
        case conn of
          None \<Rightarrow> return Missing
        | Some state \<Rightarrow>
            if cs_decision_token state \<noteq> token then return TokenMismatch
            else ensure (cs_incarnation state \<noteq> 0) NoLifetimeIdentity
              (and_then (routing_handoff_lookup kn key) (\<lambda>handoff.
               and_then (redirect_track_lookup kn (from_tuples key)) (\<lambda>track.
                 case plan_udp_commit state token tr handoff track of
                   Inl result \<Rightarrow> return result
                 | Inr plan \<Rightarrow> map_call kn (\<lambda>s.
                     if CONN_STATE_MAP s key = None then (Inr Missing, s)
                     else (Inr Applied,
                           s\<lparr>CONN_STATE_MAP := (CONN_STATE_MAP s)(key \<mapsto> cp_state plan)\<rparr>)))))) b)"

definition commit_udp_decision ::
  "kernel \<Rightarrow> tuples_key \<Rightarrow> u32 \<Rightarrow> udp_decision_transition \<Rightarrow> commit_result be"
where
  "commit_udp_decision kn key token tr =
     (case tr of ActivateDirect _ \<Rightarrow> activate_udp_direct kn key token tr
      | _ \<Rightarrow> commit_udp_fenced kn key token tr)"

record udp_decision_commit =
  uc_key :: tuples_key
  uc_token :: u32
  uc_transition :: udp_decision_transition

fun capture_commits ::
  "kernel \<Rightarrow> udp_decision_commit list \<Rightarrow> (u64 option list \<times> (tuples_key \<times> u32) list) be"
where
  "capture_commits kn [] = return ([], [])"
| "capture_commits kn (request # rest) =
     ensure (transition_mark_ok (uc_transition request)) ReservedMark
     (ensure (case uc_transition request of ActivateDirect _ \<Rightarrow> False | _ \<Rightarrow> True) ActivationInBatch
     (ensure (l4proto (uc_key request) = IPPROTO_UDP) NoncanonicalTuple
       (and_then
          (if uc_token request \<noteq> 0
           then and_then (conn_state_lookup kn (uc_key request))
                  (\<lambda>conn. return (map_option cs_incarnation conn))
           else return None) (\<lambda>captured.
        and_then (capture_commits kn rest) (\<lambda>(cs, keys).
          return (captured # cs,
                  (if captured \<noteq> None then [(uc_key request, uc_token request)] else []) @ keys))))))"

text \<open>\<open>applies i\<close> says whether the visitor, which holds the cell lock of item \<open>i\<close>, applies the item
  or skips it because it expired or its cell was refused.\<close>

fun commit_each ::
  "kernel \<Rightarrow> (nat \<Rightarrow> bool) \<Rightarrow> nat \<Rightarrow> (udp_decision_commit \<times> u64 option) list
   \<Rightarrow> commit_result option list \<Rightarrow> backend \<Rightarrow> ((be_error + unit) \<times> commit_result option list) \<times> backend"
where
  "commit_each kn applies i [] done b = ((Inr (), done), b)"
| "commit_each kn applies i ((request, captured) # rest) done b =
     (if \<not> applies i then commit_each kn applies (i + 1) rest (done @ [None]) b
      else case (if uc_token request = 0 then return TokenMismatch
                 else case captured of
                   None \<Rightarrow> return Missing
                 | Some incarnation \<Rightarrow>
                     commit_udp_checked kn (uc_key request) (uc_token request) incarnation
                       (uc_transition request)) b of
             (Inl e, b1) \<Rightarrow> ((Inl e, done), b1)
           | (Inr r, b1) \<Rightarrow> commit_each kn applies (i + 1) rest (done @ [Some r]) b1)"

definition commit_udp_decisions ::
  "kernel \<Rightarrow> (nat \<Rightarrow> bool) \<Rightarrow> udp_decision_commit list \<Rightarrow> backend
   \<Rightarrow> ((be_error + unit) \<times> commit_result option list) \<times> backend"
where
  "commit_udp_decisions kn applies requests b =
     (if length requests > RETIRE_BATCH_CAPACITY then ((Inl BatchCapacity, []), b)
      else if retirement_failed b then ((Inl OwnershipUnresolved, []), b)
      else case capture_commits kn requests b of
        (Inl e, b1) \<Rightarrow> ((Inl e, []), b1)
      | (Inr (captured, keys), b1) \<Rightarrow>
          let operation = (\<lambda>done. commit_each kn applies 0 (zip requests captured) done) in
          if keys = [] then operation [] b1
          else with_retirement_fences kn keys operation [] b1)"

section \<open>Staging quiescence and the token generation\<close>

text \<open>A scan asks for whole batches of entries as long as the kernel supports that, see
  \<open>ebpf/map_snapshot.rs\<close> and \<open>ebpf/probe.rs\<close>. The keys come in the batches the kernel chooses; each
  batch is copied by one call, which sees the entries as they are then. The call for the last
  batch returns an error number, which is \<open>ENOENT\<close> when the map is exhausted.\<close>

definition LIBC_EPERM :: int where [rust_consts]: "LIBC_EPERM = 1"
definition LIBC_ENOENT :: int where [rust_consts]: "LIBC_ENOENT = 2"
definition LIBC_EINVAL :: int where [rust_consts]: "LIBC_EINVAL = 22"
definition LIBC_ENOSYS :: int where [rust_consts]: "LIBC_ENOSYS = 38"
definition LIBC_EOPNOTSUPP :: int where [rust_consts]: "LIBC_EOPNOTSUPP = 95"
definition BPF_BATCH_CHUNK :: nat where [rust_consts]: "BPF_BATCH_CHUNK = 128"

definition is_capability_errno :: "int \<Rightarrow> bool" where
  "is_capability_errno errno \<longleftrightarrow>
     errno = LIBC_EINVAL \<or> errno = LIBC_EOPNOTSUPP \<or> errno = LIBC_EPERM \<or> errno = LIBC_ENOSYS"

text \<open>Whether the caller goes on, and the flag afterwards.\<close>

definition observe_capability :: "bool \<Rightarrow> int option \<Rightarrow> bool \<times> bool" where
  "observe_capability unsupported result =
     (case result of
        None \<Rightarrow> (True, False)
      | Some errno \<Rightarrow>
          if errno = LIBC_ENOENT then (True, False)
          else if is_capability_errno errno then (False, True)
          else (True, unsupported))"

text \<open>The two \<open>BatchCapability\<close> fields of the backend.\<close>

datatype batch_capability = PlainBatch | FlowBatch

fun is_unsupported :: "batch_capability \<Rightarrow> backend \<Rightarrow> bool" where
  "is_unsupported PlainBatch b = cap_lookup_batch b"
| "is_unsupported FlowBatch b = cap_flow_lookup_batch b"

fun set_unsupported :: "batch_capability \<Rightarrow> bool \<Rightarrow> backend \<Rightarrow> backend" where
  "set_unsupported PlainBatch v b = b\<lparr>cap_lookup_batch := v\<rparr>"
| "set_unsupported FlowBatch v b = b\<lparr>cap_flow_lookup_batch := v\<rparr>"

definition lookup_batch ::
  "kernel \<Rightarrow> (dp \<Rightarrow> 'k \<Rightarrow> 'v option) \<Rightarrow> 'k list \<Rightarrow> backend \<Rightarrow> ('k \<times> 'v) list \<times> backend"
where
  "lookup_batch kn read keys b =
     (let n = be_calls b; s = kn_run kn n (be_maps b) in
      (take BPF_BATCH_CHUNK (List.map_filter (\<lambda>k. map_option (Pair k) (read s k)) keys),
       b\<lparr>be_calls := n + 1, be_maps := s\<rparr>))"

text \<open>\<open>Inr None\<close> is \<open>Ok(false)\<close>: batches are not supported and nothing was visited.\<close>

fun scan_with ::
  "kernel \<Rightarrow> (dp \<Rightarrow> 'k \<Rightarrow> 'v option) \<Rightarrow> batch_capability \<Rightarrow> ('c \<Rightarrow> ('k \<times> 'v) list \<Rightarrow> 'c \<times> bool)
   \<Rightarrow> bool \<Rightarrow> 'k list list \<Rightarrow> 'c \<Rightarrow> 'c option be"
where
  "scan_with kn read cap visit has_previous [] c b = (Inr (Some c), b)"
| "scan_with kn read cap visit has_previous (keys # rest) c b =
     (let (chunk, b1) = lookup_batch kn read keys b;
          result = (if rest = [] then Some (kn_batch_errno kn (be_calls b)) else None);
          terminal = (result = Some LIBC_ENOENT) in
      if result \<noteq> None \<and> has_previous \<and> \<not> terminal then (Inl MapFailed, b1)
      else
        let (usable, unsupported) = observe_capability (is_unsupported cap b1) result;
            b2 = set_unsupported cap unsupported b1 in
        if \<not> usable then (Inr None, b2)
        else if result \<noteq> None \<and> \<not> terminal then (Inl MapFailed, b2)
        else if chunk = [] \<and> \<not> terminal then (Inl MapFailed, b2)
        else
          let (c1, more) = (if chunk = [] then (c, True) else visit c chunk) in
          if \<not> more \<or> terminal then (Inr (Some c1), b2)
          else scan_with kn read cap visit True rest c1 b2)"

fun split_batches :: "nat list \<Rightarrow> 'k list \<Rightarrow> 'k list list" where
  "split_batches [] keys = [keys]"
| "split_batches (n # ns) keys = take n keys # split_batches ns (drop n keys)"

definition bpf_lookup_batch_scan_cb_flags ::
  "kernel \<Rightarrow> (kernel \<Rightarrow> nat \<Rightarrow> 'k list) \<Rightarrow> (dp \<Rightarrow> 'k \<Rightarrow> 'v option) \<Rightarrow> batch_capability
   \<Rightarrow> ('c \<Rightarrow> ('k \<times> 'v) list \<Rightarrow> 'c \<times> bool) \<Rightarrow> 'c \<Rightarrow> 'c option be"
where
  "bpf_lookup_batch_scan_cb_flags kn keys read cap visit c b =
     (if is_unsupported cap b then (Inr None, b)
      else scan_with kn read cap visit False
             (split_batches (kn_batches kn (be_calls b)) (keys kn (be_calls b))) c b)"

text \<open>Without batches a scan enumerates the keys, reads each entry in a call of its own and hands
  the entries it found to the visitor in chunks; the visitor may stop it after a chunk. A key whose
  entry is gone by the time it is read is skipped. A flow scan asks for the next key before it
  reads an entry; the iterator of a plain map does so afterwards.\<close>

definition next_flow_key :: "kernel \<Rightarrow> unit be" where
  "next_flow_key kn = map_call kn (\<lambda>s. (Inr (), s))"

definition flow_lookup :: "kernel \<Rightarrow> (dp \<Rightarrow> 'k \<Rightarrow> 'v option) \<Rightarrow> 'k \<Rightarrow> 'v option be" where
  "flow_lookup kn read key = map_call kn (\<lambda>s. (Inr (read s key), s))"

fun scan_keys ::
  "kernel \<Rightarrow> (dp \<Rightarrow> 'k \<Rightarrow> 'v option) \<Rightarrow> nat \<Rightarrow> ('c \<Rightarrow> ('k \<times> 'v) list \<Rightarrow> 'c \<times> bool)
   \<Rightarrow> 'k list \<Rightarrow> ('k \<times> 'v) list \<Rightarrow> 'c \<Rightarrow> 'c be"
where
  "scan_keys kn read n visit [] projected c =
     return (if projected = [] then c else fst (visit c projected))"
| "scan_keys kn read n visit (k # ks) projected c =
     and_then (next_flow_key kn) (\<lambda>_.
     and_then (flow_lookup kn read k) (\<lambda>value.
       case value of
         None \<Rightarrow> scan_keys kn read n visit ks projected c
       | Some v \<Rightarrow>
           if length projected + 1 = max n 1
           then (case visit c (projected @ [(k, v)]) of
                   (c1, True) \<Rightarrow> scan_keys kn read n visit ks [] c1
                 | (c1, False) \<Rightarrow> return c1)
           else scan_keys kn read n visit ks (projected @ [(k, v)]) c))"

text \<open>A scan starts at the default cursor; the cursor it leaves behind is not needed here.\<close>

definition flow_scan_from ::
  "kernel \<Rightarrow> (kernel \<Rightarrow> nat \<Rightarrow> 'k list) \<Rightarrow> (dp \<Rightarrow> 'k \<Rightarrow> 'v option) \<Rightarrow> nat
   \<Rightarrow> ('c \<Rightarrow> ('k \<times> 'v) list \<Rightarrow> 'c \<times> bool) \<Rightarrow> 'c \<Rightarrow> 'c be"
where
  "flow_scan_from kn keys read n visit c =
     and_then (bpf_lookup_batch_scan_cb_flags kn keys read FlowBatch visit c) (\<lambda>scanned b.
       case scanned of
         Some c1 \<Rightarrow> (Inr c1, b)
       | None \<Rightarrow> and_then (next_flow_key kn) (\<lambda>_. scan_keys kn read n visit (keys kn (be_calls b)) [] c) b)"

definition flow_for_each_chunk ::
  "kernel \<Rightarrow> (kernel \<Rightarrow> nat \<Rightarrow> 'k list) \<Rightarrow> (dp \<Rightarrow> 'k \<Rightarrow> 'v option) \<Rightarrow> nat
   \<Rightarrow> ('c \<Rightarrow> ('k \<times> 'v) list \<Rightarrow> 'c \<times> bool) \<Rightarrow> 'c \<Rightarrow> 'c be"
where
  "flow_for_each_chunk kn keys read n visit c = flow_scan_from kn keys read n visit c"

fun iter_map ::
  "kernel \<Rightarrow> (dp \<Rightarrow> 'k \<Rightarrow> 'v option) \<Rightarrow> nat \<Rightarrow> ('c \<Rightarrow> ('k \<times> 'v) list \<Rightarrow> 'c \<times> bool)
   \<Rightarrow> 'k list \<Rightarrow> ('k \<times> 'v) list \<Rightarrow> 'c \<Rightarrow> 'c be"
where
  "iter_map kn read n visit [] chunk c =
     and_then (next_flow_key kn) (\<lambda>_. return (if chunk = [] then c else fst (visit c chunk)))"
| "iter_map kn read n visit (k # ks) chunk c =
     and_then (next_flow_key kn) (\<lambda>_.
     and_then (flow_lookup kn read k) (\<lambda>value.
       case value of
         None \<Rightarrow> iter_map kn read n visit ks chunk c
       | Some v \<Rightarrow>
           if length chunk + 1 = max n 1
           then (case visit c (chunk @ [(k, v)]) of
                   (c1, True) \<Rightarrow> iter_map kn read n visit ks [] c1
                 | (c1, False) \<Rightarrow> return c1)
           else iter_map kn read n visit ks (chunk @ [(k, v)]) c))"

definition for_each_map_chunk ::
  "kernel \<Rightarrow> (kernel \<Rightarrow> nat \<Rightarrow> 'k list) \<Rightarrow> (dp \<Rightarrow> 'k \<Rightarrow> 'v option) \<Rightarrow> nat
   \<Rightarrow> ('c \<Rightarrow> ('k \<times> 'v) list \<Rightarrow> 'c \<times> bool) \<Rightarrow> 'c \<Rightarrow> 'c be"
where
  "for_each_map_chunk kn keys read n visit c =
     and_then (bpf_lookup_batch_scan_cb_flags kn keys read PlainBatch visit c) (\<lambda>scanned b.
       case scanned of
         Some c1 \<Rightarrow> (Inr c1, b)
       | None \<Rightarrow> iter_map kn read n visit (keys kn (be_calls b)) [] c b)"

text \<open>\<open>chunks(n)\<close> of a slice.\<close>

fun chunks :: "nat \<Rightarrow> 'a list \<Rightarrow> 'a list list" where
  "chunks n [] = []"
| "chunks n (x # xs) = (x # take (n - 1) xs) # chunks n (drop (n - 1) xs)"

definition quiescence_accepts :: "retire_outcome \<Rightarrow> u32 \<Rightarrow> bool" where
  "quiescence_accepts outcome token \<longleftrightarrow> settled outcome \<or> (token = 0 \<and> outcome = Done StateMismatch)"

fun check_quiescence :: "(retire_outcome \<times> u32) list \<Rightarrow> be_error + unit" where
  "check_quiescence [] = Inr ()"
| "check_quiescence ((outcome, token) # rest) =
     (if quiescence_accepts outcome token then check_quiescence rest else Inl (QuiescenceRejected outcome))"

fun retire_chunks :: "kernel \<Rightarrow> (tuples_key \<times> u32 \<times> u64) list list \<Rightarrow> unit be" where
  "retire_chunks kn [] b = (Inr (), b)"
| "retire_chunks kn (chunk # rest) b =
     (case retire_flows kn (map (\<lambda>(key, token, incarnation). pending_udp key token (Some incarnation)) chunk)
             (length chunk) b of
        ((Inl e, _, _), b1) \<Rightarrow> (Inl e, b1)
      | ((Inr _, outcomes, _), b1) \<Rightarrow>
          (case check_quiescence (zip outcomes (map (\<lambda>(_, token, _). token) chunk)) of
             Inl e \<Rightarrow> (Inl e, b1)
           | Inr _ \<Rightarrow> retire_chunks kn rest b1))"

definition retire_staged_udp :: "kernel \<Rightarrow> (tuples_key \<times> u32 \<times> u64) list \<Rightarrow> unit be" where
  "retire_staged_udp kn staged = retire_chunks kn (chunks RETIRE_BATCH_CAPACITY staged)"

definition reserve_routing_generation :: "kernel \<Rightarrow> u64 be" where
  "reserve_routing_generation kn =
     and_then (map_call kn (\<lambda>s. (Inr (), s))) (\<lambda>_ b.
       let generation = routing_generation_sequence b + 1 in
       if routing_generation_sequence b = - 1 \<or> generation > DNS_ROUTE_GENERATION_MAX
       then (Inl GenerationExhausted, b)
       else and_then (map_call kn (\<lambda>s. (Inr (), s)))
              (\<lambda>_ b1. (Inr generation, b1\<lparr>routing_generation_sequence := generation\<rparr>)) b)"

definition publish_routing_descriptor :: "kernel \<Rightarrow> policy_descriptor \<Rightarrow> unit be" where
  "publish_routing_descriptor kn v =
     and_then (map_call kn (\<lambda>s. (Inr (), s))) (\<lambda>_.
     and_then (map_call kn (\<lambda>s. (Inr (), s))) (\<lambda>_.
     and_then (map_call kn (\<lambda>s. (Inr (), s))) (\<lambda>_ b. (Inr (), b\<lparr>ROUTING_POLICY_ROOT := Some v\<rparr>))))"

definition fence_routing_generation :: "kernel \<Rightarrow> unit be" where
  "fence_routing_generation kn b =
     (case routing_generation b of
        None \<Rightarrow> (Inr (), b)
      | Some active \<Rightarrow>
          and_then (map_call kn (\<lambda>s. (Inr (), s))) (\<lambda>_.
          and_then (reserve_routing_generation kn) (\<lambda>generation.
            let v = active\<lparr>pd_generation := generation\<rparr> in
            and_then (publish_routing_descriptor kn v) (\<lambda>_ b1.
              (Inr (), b1\<lparr>routing_generation := Some v, routing_generation_counter := generation\<rparr>)))) b)"

definition staged_flows :: "(tuples_key \<times> conn_state) list \<Rightarrow> (tuples_key \<times> u32 \<times> u64) list" where
  "staged_flows chunk = List.map_filter (\<lambda>(key, state).
     if l4proto key = IPPROTO_UDP \<and> udp_state_is_staged (cs_state state)
     then Some (key, cs_decision_token state, cs_incarnation state) else None) chunk"

definition quiesce_staged_udp :: "kernel \<Rightarrow> unit be" where
  "quiesce_staged_udp kn b =
     and_then (grace_barrier kn) (\<lambda>_.
     and_then (flow_for_each_chunk kn kn_conn_keys CONN_STATE_MAP 256
                 (\<lambda>staged chunk. (staged @ staged_flows chunk, True)) []) (\<lambda>staged.
     and_then (retire_staged_udp kn staged) (\<lambda>_.
     and_then (fence_routing_generation kn) (\<lambda>_ b1.
       (Inr (), b1\<lparr>udp_staging_quiesce_incomplete := False\<rparr>)))))
     (b\<lparr>udp_staging_quiesce_incomplete := True\<rparr>)"

definition set_datapath_ready :: "kernel \<Rightarrow> bool \<Rightarrow> unit be" where
  "set_datapath_ready kn ready b =
     (if ready \<and> retirement_failed b then (Inl OwnershipUnresolved, b)
      else if ready \<and> \<not> listeners_published b then (Inl ListenersUnpublished, b)
      else map_call kn (\<lambda>s. (Inr (), s\<lparr>DATAPATH_STATE_MAP := (if ready then 1 else 0)\<rparr>)) b)"

definition set_datapath_flags :: "kernel \<Rightarrow> u32 \<Rightarrow> unit be" where
  "set_datapath_flags kn flags b =
     (if flags AND DATAPATH_FLAG_NFQ_READY = 0
         \<or> (\<not> udp_staging_quiesce_incomplete b \<and> \<not> retirement_failed b)
      then map_call kn (\<lambda>s. (Inr (), s\<lparr>DATAPATH_FLAGS_MAP := flags\<rparr>)) b
      else (Inl QuiescenceIncomplete, b))"

definition validate_udp_decision_sequence_value :: "udp_sequence \<Rightarrow> bool" where
  "validate_udp_decision_sequence_value q \<longleftrightarrow>
     seq_next q \<le> NFQUEUE_TOKEN_MASK \<and> seq_exhausted q \<le> 1
     \<and> (seq_exhausted q \<noteq> 0 \<longrightarrow> seq_next q = NFQUEUE_TOKEN_MASK)"

record sequence_status =
  st_next :: u32
  st_generation :: u32

definition udp_decision_sequence_status :: "kernel \<Rightarrow> sequence_status be" where
  "udp_decision_sequence_status kn =
     and_then (map_call kn (\<lambda>s. (Inr (UDP_DECISION_SEQUENCE s), s))) (\<lambda>q.
       ensure (validate_udp_decision_sequence_value q) SequenceInvalid
         (return \<lparr>st_next = seq_next q AND UDP_DECISION_SEQUENCE_MASK,
                  st_generation = udp_decision_token_generation (seq_next q)\<rparr>))"

definition sequence_exhausted :: "sequence_status \<Rightarrow> bool" where
  "sequence_exhausted st \<longleftrightarrow> st_next st \<ge> UDP_DECISION_SEQUENCE_MASK"

definition conflicts_with_rollback :: "u32 \<Rightarrow> u32 \<Rightarrow> bool" where
  "conflicts_with_rollback generation token \<longleftrightarrow>
     token \<noteq> 0 \<and> udp_decision_token_generation token \<ge> generation"

text \<open>One of the four scans for a live token; a scan stops at the chunk that has one, and is skipped
  once an earlier scan found one. The fences are scanned as a plain map.\<close>

definition live_chunk :: "('v \<Rightarrow> u32) \<Rightarrow> u32 \<Rightarrow> bool \<Rightarrow> ('k \<times> 'v) list \<Rightarrow> bool \<times> bool" where
  "live_chunk token_of generation _ chunk =
     (let live = list_ex (\<lambda>(_, v). conflicts_with_rollback generation (token_of v)) chunk in (live, \<not> live))"

definition find_live ::
  "kernel \<Rightarrow> (kernel \<Rightarrow> nat \<Rightarrow> 'k list) \<Rightarrow> (dp \<Rightarrow> 'k \<Rightarrow> 'v option) \<Rightarrow> ('v \<Rightarrow> u32) \<Rightarrow> u32 \<Rightarrow> bool \<Rightarrow> bool be"
where
  "find_live kn keys read token_of generation live =
     (if live then return True
      else flow_for_each_chunk kn keys read 256 (live_chunk token_of generation) False)"

definition find_live_fence :: "kernel \<Rightarrow> u32 \<Rightarrow> bool \<Rightarrow> bool be" where
  "find_live_fence kn generation live =
     (if live then return True
      else for_each_map_chunk kn kn_fence_keys RETIRE_FENCE 256 (live_chunk rf_decision_token generation) False)"

definition reset_udp_decision_sequence :: "kernel \<Rightarrow> u32 \<Rightarrow> bool be" where
  "reset_udp_decision_sequence kn generation =
     ensure (generation \<le> UDP_DECISION_GENERATION_MASK) InvalidGeneration
     (and_then (udp_decision_sequence_status kn) (\<lambda>st.
      ensure (sequence_exhausted st) SequenceNotExhausted
     (and_then (find_live kn kn_conn_keys CONN_STATE_MAP cs_decision_token generation False) (\<lambda>l1.
      and_then (find_live_fence kn generation l1) (\<lambda>l2.
      and_then (find_live kn kn_handoff_keys ROUTING_HANDOFF_MAP
                  (\<lambda>h. rr_decision_token (he_result h)) generation l2) (\<lambda>l3.
      and_then (find_live kn kn_redirect_keys REDIRECT_TRACK re_decision_token generation l3) (\<lambda>l4.
        if l4 then return False
        else map_call kn (\<lambda>s. (Inr True, s\<lparr>UDP_DECISION_SEQUENCE :=
               \<lparr>seq_next = push_bit UDP_DECISION_GENERATION_SHIFT generation, seq_exhausted = 0\<rparr>\<rparr>)))))))))"

section \<open>Admission of a UDP flow\<close>

record udp_flow_owner =
  fo_token :: u32
  fo_incarnation :: "u64 option"

definition UdpFlowOwner_new :: "u32 \<Rightarrow> u64 option \<Rightarrow> be_error + udp_flow_owner" where
  "UdpFlowOwner_new token incarnation =
     (case incarnation of
        None \<Rightarrow> Inr \<lparr>fo_token = token, fo_incarnation = None\<rparr>
      | Some i \<Rightarrow>
          if i > FLOW_INCARNATION_MAX then Inl IncarnationDomain
          else if i = 0 then Inl IncarnationZero
          else Inr \<lparr>fo_token = token, fo_incarnation = Some i\<rparr>)"

definition owner_is_stateless :: "udp_flow_owner \<Rightarrow> u16 \<Rightarrow> u16 \<Rightarrow> bool" where
  "owner_is_stateless ow sp dp \<longleftrightarrow> fo_token ow = 0 \<and> is_stateless_udp_ports sp dp"

definition backend_udp_flow_owner :: "u32 \<Rightarrow> conn_state option \<Rightarrow> udp_flow_owner be" where
  "backend_udp_flow_owner token state b =
     (if retirement_failed b then (Inl OwnershipUnresolved, b)
      else case state of
        None \<Rightarrow> (Inl NoConnState, b)
      | Some st \<Rightarrow>
          if cs_decision_token st \<noteq> token then (Inl TokenChanged, b)
          else (UdpFlowOwner_new token (Some (cs_incarnation st)), b))"

definition verify_udp_admission ::
  "kernel \<Rightarrow> tuples_key \<Rightarrow> udp_flow_owner \<Rightarrow> routing_handoff_entry option be"
where
  "verify_udp_admission kn tuples ow =
     and_then (routing_handoff_lookup kn tuples) (\<lambda>entry.
       if \<not> owner_is_stateless ow (src_port tuples) (dst_port tuples) then
         and_then (conn_state_lookup kn tuples) (\<lambda>state.
         and_then (backend_udp_flow_owner (fo_token ow) state) (\<lambda>current.
           (if fo_incarnation ow \<noteq> None
            then ensure (fo_incarnation ow = fo_incarnation current) IncarnationMismatch
            else ensure (fo_token ow \<noteq> 0 \<or> fo_incarnation current = None) NoCapturedIncarnation)
           (case entry of
              Some h \<Rightarrow>
                ensure (rr_decision_token (he_result h) = fo_token ow
                        \<and> he_incarnation h = (case fo_incarnation current of Some i \<Rightarrow> i | None \<Rightarrow> 0))
                  HandoffOwnership (return entry)
            | None \<Rightarrow> ensure (fo_token ow = 0) NoHandoff (return entry))))
       else case entry of
         Some h \<Rightarrow> ensure (rr_decision_token (he_result h) = 0) DnsHandoffToken (return entry)
       | None \<Rightarrow> return entry)"

end
