(* ===== verification/Retirement.thy ===== *)
theory Retirement
  imports Invariants Backend
begin

text \<open>
  The retirement protocol beside a running datapath. Between any two calls of the backend the
  classifiers may run any number of times (\<open>datapath_runs\<close>). \<open>mediated\<close> and \<open>shared_maps\<close> are
  the interface between a property of the maps and the backend's calls.
\<close>

definition datapath_runs :: "kernel \<Rightarrow> bool" where
  "datapath_runs kn \<longleftrightarrow> (\<forall>n s. rtranclp packet_step s (kn_run kn n s))"

definition fences_held :: "(tuples_key \<times> u32) list \<Rightarrow> dp \<Rightarrow> bool" where
  "fences_held keys s \<longleftrightarrow> (\<forall>k \<in> fst ` set keys. tuple_retiring s k)"

definition fences_but :: "tuples_key list \<Rightarrow> dp \<Rightarrow> tuples_key \<rightharpoonup> retirement_fence" where
  "fences_but ks s = (\<lambda>k. if k \<in> set ks then None else RETIRE_FENCE s k)"

text \<open>What a fenced tuple looks like to a commit: its settled entry stays put.\<close>

definition committing :: "kernel \<Rightarrow> tuples_key \<Rightarrow> conn_state \<Rightarrow> dp \<Rightarrow> bool" where
  "committing kn k c s \<longleftrightarrow> datapath_runs kn \<and> tuple_retiring s k \<and> udp_settled c \<and> CONN_STATE_MAP s k = Some c"

text \<open>A fenced tuple as the calls see it: its incarnation and its two auxiliary entries.\<close>

definition fenced_view ::
  "kernel \<Rightarrow> tuples_key \<Rightarrow> u64 option \<Rightarrow> redirect_entry option \<Rightarrow> routing_handoff_entry option \<Rightarrow> dp \<Rightarrow> bool"
where
  "fenced_view kn k i r h s \<longleftrightarrow>
     datapath_runs kn \<and> tuple_retiring s k \<and> conn_incarnation s k = i
     \<and> REDIRECT_TRACK s (from_tuples k) = r \<and> ROUTING_HANDOFF_MAP s k = h"

text \<open>An incarnation that no longer owns its tuple.\<close>

definition retired :: "tuples_key \<Rightarrow> u64 \<Rightarrow> dp \<Rightarrow> bool" where
  "retired k i s \<longleftrightarrow>
     conn_incarnation s k \<noteq> Some i \<and> TCP_PUBLISHING s k \<noteq> Some i \<and> i \<noteq> 0
     \<and> i \<le> FLOW_INCARNATION_SEQUENCE s \<and> FLOW_INCARNATION_SEQUENCE s \<le> FLOW_INCARNATION_MAX"

text \<open>The specification of a retirement: one atomic step on the three entries of a tuple.\<close>

definition visible :: "retire_kind \<Rightarrow> owners \<Rightarrow> owners" where
  "visible kind ow =
     (let reads = kind_owner_reads kind in
      \<lparr>ow_conn = (if or_conn reads then ow_conn ow else None),
       ow_handoff = (if or_handoff reads then ow_handoff ow else None),
       ow_redirect = (if or_redirect reads then ow_redirect ow else None)\<rparr>)"

definition retire_spec :: "retire_request \<Rightarrow> owners \<Rightarrow> retire_outcome \<times> owners" where
  "retire_spec request ow =
     (case plan_retirement request (visible (rq_kind request) ow) of
        Inl r \<Rightarrow> (Done r, ow)
      | Inr plan \<Rightarrow>
          (plan_outcome plan
             \<lparr>rc_conn = bool_u64 (pl_conn plan \<and> ow_conn ow \<noteq> None),
              rc_redirect = bool_u64 (pl_redirect plan \<and> ow_redirect ow \<noteq> None),
              rc_handoff = bool_u64 (pl_handoff plan \<and> ow_handoff ow \<noteq> None)\<rparr>,
           \<lparr>ow_conn = (if pl_conn plan then None else ow_conn ow),
            ow_handoff = (if pl_handoff plan then None else ow_handoff ow),
            ow_redirect = (if pl_redirect plan then None else ow_redirect ow)\<rparr>))"

text \<open>The whole system: runs of the classifiers, the operations of the backend with classifiers
  running between their calls, and the control plane's plain settings. \<open>commit_udp_decision\<close> does not
  check the protocol of its tuple, as \<open>commit_udp_decisions\<close> does; its callers pass UDP tuples only, so
  the steps have that condition.\<close>

inductive system_step :: "backend \<Rightarrow> backend \<Rightarrow> bool" where
  sys_packet: "packet_step (be_maps b) s \<Longrightarrow> system_step b (b\<lparr>be_maps := s\<rparr>)"
| sys_retire: "datapath_runs kn \<Longrightarrow> system_step b (snd (retire_flows kn requests n b))"
| sys_commit: "datapath_runs kn \<Longrightarrow> l4proto key = IPPROTO_UDP \<Longrightarrow>
     system_step b (snd (commit_udp_decision kn key token tr b))"
| sys_commit_batch: "datapath_runs kn \<Longrightarrow> system_step b (snd (commit_udp_decisions kn applies commits b))"
| sys_quiesce: "datapath_runs kn \<Longrightarrow> system_step b (snd (quiesce_staged_udp kn b))"
| sys_reset: "datapath_runs kn \<Longrightarrow> system_step b (snd (reset_udp_decision_sequence kn generation b))"
| sys_ready: "datapath_runs kn \<Longrightarrow> system_step b (snd (set_datapath_ready kn ready b))"
| sys_flags: "datapath_runs kn \<Longrightarrow> system_step b (snd (set_datapath_flags kn flags b))"
| sys_settings: "system_step b (b\<lparr>be_maps := (be_maps b)\<lparr>TCP_LIVE_PINS := pins,
     OUTBOUND_CONNECTIVITY_MAP := conn, ADMISSION_PRESSURE := pressure\<rparr>\<rparr>)"

section \<open>Calls\<close>

text \<open>\<open>mediated\<close> is the contract of a property with the calls of the backend: it survives whatever
  the classifiers do before a call. Its lemmas carry the property through the reading calls.\<close>

lemma then_post:
  assumes "I (snd (m b))" "\<And>b1. I b1 \<Longrightarrow> K b1" "\<And>a b1. I b1 \<Longrightarrow> K (snd (f a b1))"
  shows "K (snd (and_then m f b))"
  using assms by (auto simp: and_then_def split: prod.split sum.split)

locale mediated =
  fixes kn :: kernel and J :: "backend \<Rightarrow> bool"
  assumes run: "J b \<Longrightarrow> J (b\<lparr>be_calls := n, be_maps := kn_run kn m (be_maps b)\<rparr>)"

sublocale mediated \<subseteq> b: threaded_state J .

context mediated
begin

lemma call_post:
  assumes "J b" "\<And>b1. J b1 \<Longrightarrow> K b1" "\<And>b1. J b1 \<Longrightarrow> K (b1\<lparr>be_maps := snd (f (be_maps b1))\<rparr>)"
  shows "K (snd (map_call kn f b))"
proof -
  let ?s = "kn_run kn (be_calls b) (be_maps b)"
  have r: "J (b\<lparr>be_calls := be_calls b + 1, be_maps := ?s\<rparr>)" by (rule run[OF assms(1)])
  show ?thesis
    using assms(2)[OF r] assms(3)[OF r] by (simp add: map_call_def Let_def case_prod_unfold)
qed

lemma call:
  assumes "J b" "\<And>b1. J b1 \<Longrightarrow> J (b1\<lparr>be_maps := snd (f (be_maps b1))\<rparr>)"
  shows "J (snd (map_call kn f b))"
  by (rule call_post[where K = J, OF assms(1)]) (simp_all add: assms(2))

lemma read_call: "J b \<Longrightarrow> (\<And>s. snd (f s) = s) \<Longrightarrow> J (snd (map_call kn f b))"
  by (rule call) simp_all

lemma kept_lookup_fence: "J b \<Longrightarrow> J (snd (lookup_fence kn k b))"
  unfolding lookup_fence_def by (rule read_call) simp_all

lemma kept_conn_lookup: "J b \<Longrightarrow> J (snd (conn_state_lookup kn k b))"
  unfolding conn_state_lookup_def by (rule read_call) simp_all

lemma kept_handoff_lookup: "J b \<Longrightarrow> J (snd (routing_handoff_lookup kn k b))"
  unfolding routing_handoff_lookup_def by (rule read_call) simp_all

lemma kept_redirect_lookup: "J b \<Longrightarrow> J (snd (redirect_track_lookup kn rk b))"
  unfolding redirect_track_lookup_def by (rule read_call) simp_all

lemma kept_barrier: "J b \<Longrightarrow> J (snd (grace_barrier kn b))"
  unfolding grace_barrier_def ensure_def by (simp add: read_call)

lemma kept_then:
  assumes "J (snd (m b))" "\<And>a b1. m b = (Inr a, b1) \<Longrightarrow> J b1 \<Longrightarrow> J (snd (f a b1))"
  shows "J (snd (and_then m f b))"
  using assms by (auto simp: and_then_def split: prod.split sum.split)

lemma kept_ensure: "J b \<Longrightarrow> J (snd (m b)) \<Longrightarrow> J (snd (ensure c e m b))"
  by (simp add: ensure_def)

lemma kept_return: "J b \<Longrightarrow> J (snd (return a b))"
  by (simp add: return_def)

lemma kept_if:
  "(c \<Longrightarrow> J (snd (m1 b))) \<Longrightarrow> (\<not> c \<Longrightarrow> J (snd (m2 b))) \<Longrightarrow> J (snd ((if c then m1 else m2) b))"
  by simp

lemma kept_verify: "J b \<Longrightarrow> J (snd (verify_fences kn ow ks b))"
proof (induction ks arbitrary: b)
  case (Cons k ks)
  show ?case
    unfolding verify_fences.simps
    by (intro kept_then kept_lookup_fence kept_ensure Cons)
qed (simp add: kept_return)

lemma kept_checks: "J b \<Longrightarrow> J (snd (and_then (grace_barrier kn) (\<lambda>_. verify_fences kn ow ks) b))"
  by (intro kept_then kept_barrier kept_verify)

lemma kept_read_owners: "J b \<Longrightarrow> J (snd (read_owners kn rq b))"
  unfolding read_owners_def Let_def lookup_if_def
  by (auto intro!: kept_then kept_return kept_conn_lookup kept_handoff_lookup kept_redirect_lookup)

end

text \<open>A property that does not depend on the fences.\<close>

locale shared_maps = mediated +
  assumes fence_write: "J b \<Longrightarrow> J (b\<lparr>be_maps := be_maps b\<lparr>RETIRE_FENCE := F\<rparr>\<rparr>)"
    and active_write: "J b \<Longrightarrow> J (b\<lparr>be_maps := be_maps b\<lparr>RETIRE_ACTIVE := v\<rparr>\<rparr>)"

context shared_maps
begin

lemma kept_set_active: "J b \<Longrightarrow> J (snd (set_retire_active kn v b))"
  unfolding set_retire_active_def by (rule call) (simp_all add: active_write)

lemma kept_insert_fence: "J b \<Longrightarrow> J (snd (insert_fence kn k f b))"
  unfolding insert_fence_def
proof (rule call)
  fix b1 assume "J b1"
  then show "J (b1\<lparr>be_maps := snd (if RETIRE_FENCE (be_maps b1) k \<noteq> None then (Inl MapFailed, be_maps b1)
      else (Inr (), be_maps b1\<lparr>RETIRE_FENCE := (RETIRE_FENCE (be_maps b1))(k \<mapsto> f)\<rparr>))\<rparr>)"
    by (simp add: fence_write)
qed

lemma kept_remove_fence: "J b \<Longrightarrow> J (snd (remove_fence kn k b))"
  unfolding remove_fence_def by (rule call) (simp_all add: fence_write)

lemma kept_acquire_fences: "J b \<Longrightarrow> J (snd (acquire_fences kn ow ks seen acq b))"
proof (induction ks arbitrary: seen acq b)
  case (Cons kt ks)
  obtain key token where kt: "kt = (key, token)" by (cases kt)
  let ?f = "\<lparr>rf_owner = ow, rf_decision_token = token\<rparr>"
  have i: "J (snd (insert_fence kn key ?f b))" by (rule kept_insert_fence[OF Cons.prems])
  note l = kept_lookup_fence[OF i, of key]
  show ?case
    using Cons i l unfolding kt acquire_fences.simps case_prod_unfold
    by (simp split: sum.split option.split)
qed simp

lemma kept_release_fence: "J b \<Longrightarrow> J (snd (release_fence kn ow k b))"
  unfolding release_fence_def
  by (intro kept_then kept_lookup_fence kept_ensure kept_remove_fence kept_return)

lemma kept_release_fences: "J b \<Longrightarrow> J (snd (release_fences kn ow ks fl un b))"
proof (induction ks arbitrary: fl un b)
  case (Cons k ks)
  show ?case
    using Cons.IH kept_release_fence[OF Cons.prems] unfolding release_fences.simps case_prod_unfold
    by (simp split: sum.split)
qed simp

end

text \<open>Retirement removes whole entries and counts them.\<close>

locale flow_calls = mediated +
  assumes drop_conn: "J b \<Longrightarrow> J (b\<lparr>be_maps := be_maps b\<lparr>CONN_STATE_MAP := remove_key k (CONN_STATE_MAP (be_maps b))\<rparr>\<rparr>)"
    and drop_redirect: "J b \<Longrightarrow> J (b\<lparr>be_maps := be_maps b\<lparr>REDIRECT_TRACK := remove_key rk (REDIRECT_TRACK (be_maps b))\<rparr>\<rparr>)"
    and drop_handoff: "J b \<Longrightarrow>
          J (b\<lparr>be_maps := be_maps b\<lparr>ROUTING_HANDOFF_MAP := remove_key k (ROUTING_HANDOFF_MAP (be_maps b))\<rparr>\<rparr>)"
    and conn_tally: "J b \<Longrightarrow> J (b\<lparr>USERSPACE_CONN_STATE_DELETES := x\<rparr>)"
    and redirect_tally: "J b \<Longrightarrow> J (b\<lparr>aux_deletes_redirect := x\<rparr>)"
    and handoff_tally: "J b \<Longrightarrow> J (b\<lparr>aux_deletes_handoff := x\<rparr>)"
begin

lemma kept_remove_conn: "J b \<Longrightarrow> J (snd (remove_conn kn k b))"
  unfolding remove_conn_def by (rule call) (simp_all add: drop_conn)

lemma kept_remove_redirect: "J b \<Longrightarrow> J (snd (remove_redirect kn rk b))"
  unfolding remove_redirect_def by (rule call) (simp_all add: drop_redirect)

lemma kept_remove_handoff: "J b \<Longrightarrow> J (snd (remove_handoff kn k b))"
  unfolding remove_handoff_def by (rule call) (simp_all add: drop_handoff)

lemma kept_counted: "J b \<Longrightarrow> J (snd (m b)) \<Longrightarrow> J (snd (counted_removal go m upd counts b))"
  by (simp add: counted_removal_def case_prod_unfold split: sum.split)

lemma kept_execute: "J b \<Longrightarrow> J (snd (execute_plan kn rq pl counts b))"
  unfolding execute_plan_def
  by (rule b.binds kept_counted kept_remove_conn kept_remove_redirect kept_remove_handoff | assumption)+

lemma kept_retire_one: "J b \<Longrightarrow> J (snd (retire_one kn rq counts b))"
  unfolding retire_one_def
  by (rule b.binds kept_read_owners kept_execute | assumption)+

lemma kept_retire_each: "J b \<Longrightarrow> J (snd (retire_each kn rqs oc b))"
proof (induction rqs arbitrary: oc b)
  case (Cons rq rqs)
  obtain out counts where "oc = (out, counts)" by (cases oc)
  then show ?case
    using Cons.IH kept_retire_one[OF Cons.prems, of rq counts]
    by (simp add: case_prod_unfold split: sum.split)
next
  case Nil
  then show ?case by (cases oc) simp
qed

lemma tally: "J b \<Longrightarrow> J (account_retirement counts b)"
  unfolding account_retirement_def by (intro handoff_tally redirect_tally conn_tally)

end

text \<open>A property that depends on no flow entry at all.\<close>

locale blind_calls = flow_calls +
  assumes put_any_conn: "J b \<Longrightarrow> J (b\<lparr>be_maps := put_conn k c (be_maps b)\<rparr>)"
    and put_any_redirect: "J b \<Longrightarrow> J (b\<lparr>be_maps := put_redirect rk r (be_maps b)\<rparr>)"
begin

lemma blind_apply_plan: "J b \<Longrightarrow> J (snd (apply_commit_plan kn key pl b))"
proof -
  have conn: "J (snd (flow_insert_conn kn key c b0))" if "J b0" for c b0
    unfolding flow_insert_conn_def by (rule call[OF that]) (simp add: put_any_conn)
  have red: "J (snd (flow_insert_redirect kn rk r b0))" if "J b0" for rk r b0
    unfolding flow_insert_redirect_def by (rule call[OF that]) (simp add: put_any_redirect)
  assume "J b"
  then show ?thesis
    unfolding apply_commit_plan_def
    by (intro kept_then)
       (auto intro!: kept_then kept_return kept_remove_handoff kept_remove_redirect conn red handoff_tally redirect_tally
         split: option.split redirect_effect.split)
qed

lemma blind_commit_checked: "J b \<Longrightarrow> J (snd (commit_udp_checked kn key token i tr b))"
  unfolding commit_udp_checked_def
  by (rule kept_then kept_conn_lookup | assumption
     | auto simp: ensure_def intro!: kept_then kept_return kept_handoff_lookup kept_redirect_lookup blind_apply_plan
         split: option.split sum.split)+

end

section \<open>Fences\<close>

lemma runs_control:
  assumes "datapath_runs kn"
  shows "RETIRE_FENCE (kn_run kn n s) = RETIRE_FENCE s" "RETIRE_ACTIVE (kn_run kn n s) = RETIRE_ACTIVE s"
  using control.steps_kept[of s "kn_run kn n s" "control_view s"] assms
  by (simp_all add: datapath_runs_def control_view_def)

interpretation fences: blind_calls kn
  "\<lambda>b. datapath_runs kn \<and> RETIRE_FENCE (be_maps b) = F \<and> RETIRE_ACTIVE (be_maps b) = a" for kn F a
  by unfold_locales (auto simp: runs_control)

lemma insert_fence_effect:
  assumes "datapath_runs kn" "insert_fence kn k f b = (r, b1)"
  shows "RETIRE_ACTIVE (be_maps b1) = RETIRE_ACTIVE (be_maps b)"
    "r = Inr () \<Longrightarrow> RETIRE_FENCE (be_maps b) k = None \<and>
       RETIRE_FENCE (be_maps b1) = (RETIRE_FENCE (be_maps b))(k \<mapsto> f)"
    "r \<noteq> Inr () \<Longrightarrow> RETIRE_FENCE (be_maps b1) = RETIRE_FENCE (be_maps b)"
  using assms(2) by (auto simp: insert_fence_def map_call_def Let_def runs_control[OF assms(1)] split: if_splits)

lemma lookup_fence_maps:
  assumes "datapath_runs kn"
  shows "RETIRE_FENCE (be_maps (snd (lookup_fence kn k b))) = RETIRE_FENCE (be_maps b)"
    "RETIRE_ACTIVE (be_maps (snd (lookup_fence kn k b))) = RETIRE_ACTIVE (be_maps b)"
  using fences.kept_lookup_fence[of kn b "RETIRE_FENCE (be_maps b)" "RETIRE_ACTIVE (be_maps b)" k] assms by auto

lemma acquire_effect:
  assumes "datapath_runs kn" "acquire_fences kn ow ks seen acq b = ((acq', fl, un), b1)"
    "set seen = set acq" "\<forall>k \<in> set acq. RETIRE_FENCE (be_maps b) k \<noteq> None"
  shows "RETIRE_ACTIVE (be_maps b1) = RETIRE_ACTIVE (be_maps b) \<and> set acq \<subseteq> set acq'
    \<and> (\<forall>k \<in> set acq'. RETIRE_FENCE (be_maps b1) k \<noteq> None)
    \<and> fences_but acq' (be_maps b1) = fences_but acq (be_maps b)
    \<and> (fl = None \<longrightarrow> \<not> un \<and> set acq' = set acq \<union> fst ` set ks)"
  using assms(2-)
proof (induction ks arbitrary: seen acq b)
  case Nil
  then show ?case by auto
next
  case (Cons kt ks)
  obtain key token where kt: "kt = (key, token)" by (cases kt)
  show ?case
  proof (cases "key \<in> set seen")
    case True
    then show ?thesis using Cons.IH[of seen acq b] Cons.prems by (auto simp: kt)
  next
    case False
    obtain r b2 where i: "insert_fence kn key \<lparr>rf_owner = ow, rf_decision_token = token\<rparr> b = (r, b2)" by fastforce
    note eff = insert_fence_effect[OF assms(1) i]
    show ?thesis
    proof (cases r)
      case (Inl e)
      note m = lookup_fence_maps[OF assms(1), of key b2]
      have "acq' = acq" "fl \<noteq> None" "b1 = snd (lookup_fence kn key b2)"
        using Cons.prems(1) False Inl
        by (auto simp: kt i combine_error_def split: prod.splits sum.splits option.splits)
      then show ?thesis using Cons.prems(3) eff(1,3) m Inl by (auto simp: fences_but_def)
    next
      case (Inr u)
      have rec: "acquire_fences kn ow ks (key # seen) (acq @ [key]) b2 = ((acq', fl, un), b1)"
        using Cons.prems(1) False Inr by (simp add: kt i)
      have eff': "RETIRE_FENCE (be_maps b) key = None"
        "RETIRE_FENCE (be_maps b2) = (RETIRE_FENCE (be_maps b))(key \<mapsto> \<lparr>rf_owner = ow, rf_decision_token = token\<rparr>)"
        using eff(2) Inr by simp_all
      have "fences_but (acq @ [key]) (be_maps b2) = fences_but acq (be_maps b)"
        using eff' by (auto simp: fences_but_def)
      then show ?thesis
        using Cons.IH[OF rec] Cons.prems(2,3) eff(1) eff' by (auto simp: kt)
    qed
  qed
qed

lemma release_fence_effect:
  assumes "datapath_runs kn" "release_fence kn ow k b = (r, b1)"
  shows "RETIRE_ACTIVE (be_maps b1) = RETIRE_ACTIVE (be_maps b)"
    "r = Inr () \<Longrightarrow> RETIRE_FENCE (be_maps b1) = remove_key k (RETIRE_FENCE (be_maps b))"
  using assms(2)
  by (auto simp: release_fence_def and_then_def ensure_def return_def lookup_fence_def remove_fence_def
      map_call_def Let_def runs_control[OF assms(1)] split: if_splits option.splits)

lemma release_effect:
  assumes "datapath_runs kn" "release_fences kn ow ks fl un b = ((fl', un'), b1)"
  shows "RETIRE_ACTIVE (be_maps b1) = RETIRE_ACTIVE (be_maps b)
    \<and> (\<not> un' \<longrightarrow> \<not> un \<and> fl' = fl \<and> RETIRE_FENCE (be_maps b1) = fences_but ks (be_maps b))
    \<and> (un' \<longrightarrow> un \<or> fl' \<noteq> None) \<and> (fl \<noteq> None \<longrightarrow> fl' \<noteq> None)"
  using assms(2)
proof (induction ks arbitrary: fl un b)
  case Nil
  then show ?case by (auto simp: fences_but_def)
next
  case (Cons k ks)
  obtain r b2 where r: "release_fence kn ow k b = (r, b2)" by fastforce
  note eff = release_fence_effect[OF assms(1) r]
  show ?case
  proof (cases r)
    case (Inl e)
    then show ?thesis using Cons.IH[of "combine_error fl e" True b2] Cons.prems r eff(1)
      by (auto simp: combine_error_def)
  next
    case (Inr u)
    then show ?thesis
      using Cons.IH[of fl un b2] Cons.prems r eff by (auto simp: fences_but_def remove_key_def)
  qed
qed

text \<open>What a batch relies on: its operation runs with every fence in place, leaves the fences alone,
  and is framed by calls that only touch the fences.\<close>

lemma barrier_maps:
  assumes "datapath_runs kn" "and_then (grace_barrier kn) (\<lambda>_. verify_fences kn ow ks) b = (r, b1)"
  shows "RETIRE_FENCE (be_maps b1) = RETIRE_FENCE (be_maps b)" "RETIRE_ACTIVE (be_maps b1) = RETIRE_ACTIVE (be_maps b)"
  using fences.kept_checks[of kn b "RETIRE_FENCE (be_maps b)" "RETIRE_ACTIVE (be_maps b)" ow ks] assms
  by simp_all

lemma set_active_effect:
  assumes "datapath_runs kn" "set_retire_active kn v b = (r, b1)"
  shows "RETIRE_FENCE (be_maps b1) = RETIRE_FENCE (be_maps b)" "r = Inr () \<Longrightarrow> RETIRE_ACTIVE (be_maps b1) = v"
  using assms(2) by (auto simp: set_retire_active_def map_call_def Let_def runs_control[OF assms(1)] split: if_splits)


lemma pair3_exhaust: "(\<And>a b c. x = ((a, b), c) \<Longrightarrow> thesis) \<Longrightarrow> thesis"
  by (cases x) auto

lemma with_fences_cases:
  assumes "with_retirement_fences kn keys operation c b = ((r, c'), b')"
  obtains
    (refused) e where "r = Inl e" "c' = c" "b' = b \<or> b' = b\<lparr>retirement_failed := True\<rparr>"
  | (inactive) e where "r = Inl e" "c' = c" "\<not> retirement_failed b"
      "set_retire_active kn 1 (b\<lparr>retirement_owner := retirement_owner b + 1\<rparr>) = (Inl e, b')"
  | (ran) b2 acq fl un b3 res b4 fl1 un1 b5 where
      "\<not> retirement_failed b"
      "set_retire_active kn 1 (b\<lparr>retirement_owner := retirement_owner b + 1\<rparr>) = (Inr (), b2)"
      "acquire_fences kn (retirement_owner b + 1) keys [] [] b2 = ((acq, fl, un), b3)"
      "(\<exists>e. res = Inl e \<and> c' = c \<and>
          (fl = Some e \<and> b4 = b3 \<or>
           fl = None \<and> and_then (grace_barrier kn) (\<lambda>_. verify_fences kn (retirement_owner b + 1) acq) b3 = (Inl e, b4)))
       \<or> (fl = None \<and> (\<exists>b0. and_then (grace_barrier kn) (\<lambda>_. verify_fences kn (retirement_owner b + 1) acq) b3 = (Inr (), b0)
            \<and> operation c b0 = ((res, c'), b4)))"
      "release_fences kn (retirement_owner b + 1) acq (case res of Inl e \<Rightarrow> Some e | Inr _ \<Rightarrow> None) un b4 = ((fl1, un1), b5)"
      "(un1 \<and> b' = b5\<lparr>retirement_failed := True\<rparr> \<and> r = (case fl1 of Some e \<Rightarrow> Inl e | None \<Rightarrow> res))
       \<or> (\<not> un1 \<and> set_retire_active kn 0 b5 = (Inr (), b') \<and> r = (case fl1 of Some e \<Rightarrow> Inl e | None \<Rightarrow> res))
       \<or> (\<not> un1 \<and> (\<exists>e b6. set_retire_active kn 0 b5 = (Inl e, b6) \<and> b' = b6\<lparr>retirement_failed := True\<rparr> \<and> isl r))"
proof -
  let ?b1 = "b\<lparr>retirement_owner := retirement_owner b + 1\<rparr>"
  consider (1) "retirement_failed b \<or> length keys > RETIRE_BATCH_CAPACITY \<or> retirement_owner b = - 1"
    | (2) "\<not> retirement_failed b" "\<not> length keys > RETIRE_BATCH_CAPACITY" "retirement_owner b \<noteq> - 1" by blast
  then show ?thesis
  proof cases
    case 1
    have "\<exists>e. r = Inl e \<and> c' = c \<and> (b' = b \<or> b' = b\<lparr>retirement_failed := True\<rparr>)"
    proof (cases "retirement_failed b \<or> length keys > RETIRE_BATCH_CAPACITY")
      case True
      then obtain e where "with_retirement_fences kn keys operation c b = ((Inl e, c), b)"
        by (cases "retirement_failed b") (simp_all add: with_retirement_fences_def)
      then show ?thesis using assms by simp
    next
      case False
      then have "with_retirement_fences kn keys operation c b = ((Inl OwnerExhausted, c), b\<lparr>retirement_failed := True\<rparr>)"
        using 1 by (simp add: with_retirement_fences_def)
      then show ?thesis using assms by simp
    qed
    then show ?thesis using refused by blast
  next
    case 2
    obtain r1 b2 where a: "set_retire_active kn 1 ?b1 = (r1, b2)" by fastforce
    show ?thesis
    proof (cases r1)
      case (Inl e)
      show ?thesis by (rule inactive[of e]) (use assms 2 a Inl in \<open>simp_all add: with_retirement_fences_def\<close>)
    next
      case (Inr u)
      obtain acq fl un b3 where q: "acquire_fences kn (retirement_owner b + 1) keys [] [] b2 = ((acq, fl, un), b3)"
        by (metis prod.exhaust)
      let ?v = "and_then (grace_barrier kn) (\<lambda>_. verify_fences kn (retirement_owner b + 1) acq) b3"
      obtain res c1 b4 where m: "(case fl of Some e \<Rightarrow> ((Inl e, c), b3)
          | None \<Rightarrow> (case ?v of (Inl e, b') \<Rightarrow> ((Inl e, c), b') | (Inr _, b') \<Rightarrow> operation c b')) = ((res, c1), b4)"
        by (rule pair3_exhaust)
      obtain fl1 un1 b5 where l: "release_fences kn (retirement_owner b + 1) acq
          (case res of Inl e \<Rightarrow> Some e | Inr _ \<Rightarrow> None) un b4 = ((fl1, un1), b5)" by (rule pair3_exhaust)
      obtain r3 b6 where z: "set_retire_active kn 0 b5 = (r3, b6)" by fastforce
      have eq: "((r, c'), b') = (let (failure2, b6) =
                  (if un1 then (fl1, b5\<lparr>retirement_failed := True\<rparr>)
                   else case set_retire_active kn 0 b5 of
                     (Inr _, b') \<Rightarrow> (fl1, b')
                   | (Inl e, b') \<Rightarrow> (combine_error fl1 e, b'\<lparr>retirement_failed := True\<rparr>))
            in ((case failure2 of Some e \<Rightarrow> Inl e | None \<Rightarrow> res, c1), b6))"
        using assms 2 unfolding with_retirement_fences_def Let_def
        by (simp add: a Inr q m l)
      show ?thesis
      proof (rule ran[OF 2(1) _ q _ l])
        show "set_retire_active kn 1 ?b1 = (Inr (), b2)" using a Inr by simp
        have c1: "c1 = c'" using eq by (auto simp: z split: if_splits sum.splits)
        show "(\<exists>e. res = Inl e \<and> c' = c \<and> (fl = Some e \<and> b4 = b3 \<or> fl = None \<and> ?v = (Inl e, b4)))
          \<or> (fl = None \<and> (\<exists>b0. ?v = (Inr (), b0) \<and> operation c b0 = ((res, c'), b4)))"
          using m c1 by (auto split: option.splits prod.splits sum.splits)
        show "(un1 \<and> b' = b5\<lparr>retirement_failed := True\<rparr> \<and> r = (case fl1 of Some e \<Rightarrow> Inl e | None \<Rightarrow> res))
       \<or> (\<not> un1 \<and> set_retire_active kn 0 b5 = (Inr (), b') \<and> r = (case fl1 of Some e \<Rightarrow> Inl e | None \<Rightarrow> res))
       \<or> (\<not> un1 \<and> (\<exists>e b6. set_retire_active kn 0 b5 = (Inl e, b6) \<and> b' = b6\<lparr>retirement_failed := True\<rparr> \<and> isl r))"
          using eq by (auto simp: z combine_error_def split: if_splits sum.splits option.splits)
      qed
    qed
  qed
qed

text \<open>Only the protocol itself marks the backend as failed.\<close>

interpretation failed: shared_maps kn "\<lambda>b. retirement_failed b = q" for kn q
  by unfold_locales simp_all

interpretation failed_calls: blind_calls kn "\<lambda>b. retirement_failed b = q" for kn q
  by unfold_locales simp_all

lemma with_fences_outcome:
  assumes runs: "datapath_runs kn"
    and op: "\<And>b. RETIRE_FENCE (be_maps (snd (operation c b))) = RETIRE_FENCE (be_maps b)"
      "\<And>b. retirement_failed (snd (operation c b)) = retirement_failed b"
    and w: "with_retirement_fences kn keys operation c b = ((r, c'), b')"
  shows "(retirement_failed b' \<or> RETIRE_FENCE (be_maps b') = RETIRE_FENCE (be_maps b))
      \<and> (\<not> isl r \<longrightarrow> \<not> retirement_failed b' \<and> RETIRE_ACTIVE (be_maps b') = 0)"
  using w
proof (cases rule: with_fences_cases)
  case (ran b2 acq fl un b3 res b4 fl1 un1 b5)
  let ?o = "retirement_owner b + 1"
  note a = set_active_effect(1)[OF runs ran(2)]
  note q = acquire_effect[OF runs ran(3)]
  have f2: "\<not> retirement_failed b2"
    using failed.kept_set_active[of "b\<lparr>retirement_owner := ?o\<rparr>" False kn 1] ran(1,2) by simp
  have f3: "\<not> retirement_failed b3"
    using failed.kept_acquire_fences[of b2 False kn ?o keys "[]" "[]"] f2 ran(3) by simp
  have mid: "RETIRE_FENCE (be_maps b4) = RETIRE_FENCE (be_maps b3) \<and> \<not> retirement_failed b4"
    using ran(4)
  proof (elim disjE exE conjE)
    fix b0 assume v: "and_then (grace_barrier kn) (\<lambda>_. verify_fences kn ?o acq) b3 = (Inr (), b0)"
      and o: "operation c b0 = ((res, c'), b4)"
    then show ?thesis
      using barrier_maps(1)[OF runs v] failed.kept_checks[of b3 False kn ?o acq] f3 op[of b0] by simp
  next
    fix e assume v: "and_then (grace_barrier kn) (\<lambda>_. verify_fences kn ?o acq) b3 = (Inl e, b4)"
    then show ?thesis
      using barrier_maps(1)[OF runs v] failed.kept_checks[of b3 False kn ?o acq] f3 by simp
  qed (simp add: f3)
  have f5: "\<not> retirement_failed b5"
    using failed.kept_release_fences[of b4 False kn ?o acq _ un] ran(5) mid by (metis snd_conv)
  note l = release_effect[OF runs ran(5)]
  have rest: "\<not> un1 \<Longrightarrow> RETIRE_FENCE (be_maps b5) = RETIRE_FENCE (be_maps b)"
  proof -
    assume "\<not> un1"
    then have "RETIRE_FENCE (be_maps b5) = fences_but acq (be_maps b3)" using l mid by (auto simp: fences_but_def)
    then show ?thesis using q a by (auto simp: fences_but_def)
  qed
  have last: "RETIRE_FENCE (be_maps x) = RETIRE_FENCE (be_maps b5) \<and> RETIRE_ACTIVE (be_maps x) = 0 \<and> \<not> retirement_failed x"
    if "set_retire_active kn 0 b5 = (Inr (), x)" for x
    using set_active_effect[OF runs that] failed.kept_set_active[of b5 False kn 0] f5 that by simp
  have "un \<Longrightarrow> isl res" using q ran(4) by auto
  then have ul: "un1 \<Longrightarrow> fl1 \<noteq> None" using l by (cases res) auto
  show ?thesis
    using ran(6)
  proof (elim disjE exE conjE)
    assume "un1" "b' = b5\<lparr>retirement_failed := True\<rparr>" "r = (case fl1 of None \<Rightarrow> res | Some x \<Rightarrow> Inl x)"
    then show ?thesis using ul by auto
  next
    assume "\<not> un1" "set_retire_active kn 0 b5 = (Inr (), b')"
    then show ?thesis using last rest by simp
  qed simp
qed (use set_active_effect(1)[OF runs] in auto)

section \<open>Batches\<close>

text \<open>A property of the maps alone: the batch operation is entered with every fence in place.\<close>

locale batch_frame = shared_maps +
  assumes runs: "J b \<Longrightarrow> datapath_runs kn"
    and owner_write: "J b \<Longrightarrow> J (b\<lparr>retirement_owner := ow\<rparr>)"
    and failed_write: "J b \<Longrightarrow> J (b\<lparr>retirement_failed := True\<rparr>)"

context batch_frame
begin

lemma batch_entry:
  assumes "J b" "set_retire_active kn 1 (b\<lparr>retirement_owner := ow\<rparr>) = (Inr (), b2)"
    "acquire_fences kn ow' keys [] [] b2 = ((acq, None, un), b3)"
    "and_then (grace_barrier kn) (\<lambda>_. verify_fences kn ow' acq) b3 = (Inr (), b0)"
  shows "J b0" "fences_held keys (be_maps b0)"
proof -
  note run' = runs[OF assms(1)]
  have j2: "J b2" using kept_set_active[OF owner_write[OF assms(1)], of 1 ow] assms(2) by simp
  have j3: "J b3" using kept_acquire_fences[OF j2] assms(3) by (metis snd_conv)
  show "J b0" using kept_checks[OF j3] assms(4) by (metis snd_conv)
  show "fences_held keys (be_maps b0)"
    using acquire_effect[OF run' assms(3)] set_active_effect(2)[OF run' assms(2)] barrier_maps[OF run' assms(4)]
    by (auto simp: fences_held_def tuple_retiring_def)
qed

lemma kept_with_fences:
  assumes "J b" "\<And>b0. J b0 \<Longrightarrow> fences_held keys (be_maps b0) \<Longrightarrow> J (snd (operation c b0))"
  shows "J (snd (with_retirement_fences kn keys operation c b))"
proof -
  obtain r c' b' where w: "with_retirement_fences kn keys operation c b = ((r, c'), b')" by (rule pair3_exhaust)
  have act: "J (b\<lparr>retirement_owner := retirement_owner b + 1\<rparr>)" by (rule owner_write[OF assms(1)])
  have "J b'"
    using w
  proof (cases rule: with_fences_cases)
    case (refused e)
    then show ?thesis using assms(1) failed_write[of b] by auto
  next
    case (inactive e)
    then show ?thesis using kept_set_active[OF act, of 1] by simp
  next
    case (ran b2 acq fl un b3 res b4 fl1 un1 b5)
    have j2: "J b2" using kept_set_active[OF act, of 1] ran(2) by simp
    have j3: "J b3" using kept_acquire_fences[OF j2] ran(3) by (metis snd_conv)
    have j4: "J b4"
      using ran(4)
    proof (elim disjE exE conjE)
      fix b0 assume f: "fl = None"
        and v: "and_then (grace_barrier kn) (\<lambda>_. verify_fences kn (retirement_owner b + 1) acq) b3 = (Inr (), b0)"
        and o: "operation c b0 = ((res, c'), b4)"
      show ?thesis using assms(2)[OF batch_entry[OF assms(1) ran(2) ran(3)[unfolded f] v]] o by simp
    next
      fix e assume "and_then (grace_barrier kn) (\<lambda>_. verify_fences kn (retirement_owner b + 1) acq) b3 = (Inl e, b4)"
      then show ?thesis using kept_checks[OF j3] by (metis snd_conv)
    qed (simp add: j3)
    have j5: "J b5" using kept_release_fences[OF j4] ran(5) by (metis snd_conv)
    note j6 = kept_set_active[OF j5, of 0]
    show ?thesis
      using ran(6)
    proof (elim disjE exE conjE)
      fix e b6 assume "set_retire_active kn 0 b5 = (Inl e, b6)" "b' = b6\<lparr>retirement_failed := True\<rparr>"
      then show ?thesis using j6 failed_write[of b6] by simp
    next
      assume "set_retire_active kn 0 b5 = (Inr (), b')"
      then show ?thesis using j6 by simp
    qed (simp add: failed_write j5)
  qed
  then show ?thesis by (simp add: w)
qed

lemma batch_post:
  assumes "J b" "with_retirement_fences kn keys operation c b = ((Inr x, c'), b')" "shared_maps kn K"
    "\<And>b0 b4. J b0 \<Longrightarrow> fences_held keys (be_maps b0) \<Longrightarrow> operation c b0 = ((Inr x, c'), b4) \<Longrightarrow> K b4"
  shows "K b'"
  using assms(2)
proof (cases rule: with_fences_cases)
  case (ran b2 acq fl un b3 res b4 fl1 un1 b5)
  note l = release_effect[OF runs[OF assms(1)] ran(5)]
  have "fl = None \<Longrightarrow> \<not> un" using acquire_effect[OF runs[OF assms(1)] ran(3)] by simp
  moreover have "res = Inr x \<Longrightarrow> fl = None" using ran(4) by auto
  ultimately have fin: "\<not> un1" "set_retire_active kn 0 b5 = (Inr (), b')" "res = Inr x"
    using ran(6) l by (auto split: option.splits sum.splits)
  obtain b0 where b0: "fl = None"
      "and_then (grace_barrier kn) (\<lambda>_. verify_fences kn (retirement_owner b + 1) acq) b3 = (Inr (), b0)"
      "operation c b0 = ((Inr x, c'), b4)"
    using ran(4) fin(3) by auto
  have "K b4"
    using assms(4)[OF batch_entry[OF assms(1) ran(2) ran(3)[unfolded b0(1)] b0(2)] b0(3)] .
  then have "K b5" using shared_maps.kept_release_fences[OF assms(3)] ran(5) by (metis snd_conv)
  then show ?thesis using shared_maps.kept_set_active[OF assms(3), of b5 0] fin(2) by simp
qed simp_all

end

text \<open>A property of the maps alone that survives removals holds across a whole batch.\<close>

locale reclaim_frame = batch_frame + flow_calls
begin

lemma kept_retire_flows: "J b \<Longrightarrow> J (snd (retire_flows kn rqs n b))"
  unfolding retire_flows_def
  by (rule b.binds kept_with_fences kept_retire_each tally | assumption)+

end

section \<open>Decisions\<close>

lemma transition_keeps_owner:
  assumes "apply_udp_decision_transition c tr = Inr c'"
  shows "cs_incarnation c' = cs_incarnation c" "cs_decision_token c' = cs_decision_token c"
    "cs_state c = udp_state_u8 (expected_state tr)" "udp_settled c"
  using assms
  by (auto simp: apply_udp_decision_transition_def udp_settled_def Let_def expected_state_def
      split: if_splits udp_decision_transition.splits)

lemma plan_commit_state:
  assumes "plan_udp_commit c token tr handoff track = Inr pl"
  shows "cs_incarnation (cp_state pl) = cs_incarnation c" "cs_decision_token (cp_state pl) = cs_decision_token c"
    "udp_settled c"
    "cp_redirect pl = Some (EffectRewrite r) \<Longrightarrow>
       \<exists>t. track = Some t \<and> re_incarnation r = re_incarnation t \<and> re_decision_token r = re_decision_token t"
  using assms transition_keeps_owner[of c tr]
  by (auto simp: plan_udp_commit_def Let_def split: sum.splits if_splits udp_decision_transition.splits)

lemma committing_run: "committing kn k c s \<Longrightarrow> committing kn k c (kn_run kn n s)"
  using fenced_conn.steps_kept[of s "kn_run kn n s" k c] by (simp add: committing_def datapath_runs_def)

lemma fenced_redirect_run:
  assumes "committing kn k c s"
  shows "REDIRECT_TRACK (kn_run kn n s) (from_tuples k) = REDIRECT_TRACK s (from_tuples k)"
  using fenced.steps_kept[of s "kn_run kn n s" k "conn_incarnation s k" "REDIRECT_TRACK s (from_tuples k)"
      "ROUTING_HANDOFF_MAP s k"] assms
  by (simp add: committing_def datapath_runs_def)

lemma conn_lookup_value: "conn_state_lookup kn k b = (Inr c, b1) \<Longrightarrow> CONN_STATE_MAP (be_maps b1) k = c"
  by (auto simp: conn_state_lookup_def map_call_def Let_def split: if_splits)

lemma handoff_lookup_value: "routing_handoff_lookup kn k b = (Inr h, b1) \<Longrightarrow> ROUTING_HANDOFF_MAP (be_maps b1) k = h"
  by (auto simp: routing_handoff_lookup_def map_call_def Let_def split: if_splits)

lemma redirect_lookup_value: "redirect_track_lookup kn rk b = (Inr t, b1) \<Longrightarrow> REDIRECT_TRACK (be_maps b1) rk = t"
  by (auto simp: redirect_track_lookup_def map_call_def Let_def split: if_splits)

locale decision_frame = reclaim_frame +
  assumes commit_conn: "J b \<Longrightarrow> CONN_STATE_MAP (be_maps b) k = Some c \<Longrightarrow> cs_incarnation c' = cs_incarnation c \<Longrightarrow>
          cs_decision_token c' = cs_decision_token c \<Longrightarrow> J (b\<lparr>be_maps := put_conn k c' (be_maps b)\<rparr>)"
    and commit_redirect: "J b \<Longrightarrow> REDIRECT_TRACK (be_maps b) rk = Some r \<Longrightarrow> re_incarnation r' = re_incarnation r \<Longrightarrow>
          re_decision_token r' = re_decision_token r \<Longrightarrow> J (b\<lparr>be_maps := put_redirect rk r' (be_maps b)\<rparr>)"

context decision_frame
begin

lemma committing_mediated:
  "mediated kn (\<lambda>b. J b \<and> committing kn k c (be_maps b) \<and> REDIRECT_TRACK (be_maps b) (from_tuples k) = t)"
  by unfold_locales (auto simp: run committing_run fenced_redirect_run)

lemma committing_only: "mediated kn (\<lambda>b. J b \<and> committing kn k c (be_maps b))"
  by unfold_locales (simp add: run committing_run)

lemma kept_apply_plan:
  assumes "J b" "committing kn key c (be_maps b)" "REDIRECT_TRACK (be_maps b) (from_tuples key) = track"
    "plan_udp_commit c token tr handoff track = Inr pl"
  shows "J (snd (apply_commit_plan kn key pl b))"
proof -
  note pc = plan_commit_state[OF assms(4)]
  let ?I1 = "\<lambda>b. J b \<and> committing kn key c (be_maps b) \<and> REDIRECT_TRACK (be_maps b) (from_tuples key) = track"
  let ?I2 = "\<lambda>b. J b \<and> committing kn key c (be_maps b)"
  note M1 = committing_mediated[of key c track] and M2 = committing_only[of key c]
  have s1: "?I1 (snd ((if cp_remove_handoff pl
        then and_then (remove_handoff kn key) (\<lambda>_ b. (Inr (), b\<lparr>aux_deletes_handoff := aux_deletes_handoff b + 1\<rparr>))
        else return ()) b))"
  proof -
    have "?I1 (snd (remove_handoff kn key b))"
      unfolding remove_handoff_def
      by (rule mediated.call[OF M1]) (use assms(1-3) drop_handoff in \<open>auto simp: committing_def tuple_retiring_def\<close>)
    then have "?I1 (snd (and_then (remove_handoff kn key)
        (\<lambda>_ b. (Inr (), b\<lparr>aux_deletes_handoff := aux_deletes_handoff b + 1\<rparr>)) b))"
      by (rule then_post) (simp_all add: handoff_tally)
    then show ?thesis using assms(1-3) by (simp add: return_def)
  qed
  have s2: "?I2 (snd ((case cp_redirect pl of
          Some (EffectRewrite entry) \<Rightarrow> flow_insert_redirect kn (from_tuples key) entry
        | Some EffectRemove \<Rightarrow>
            and_then (remove_redirect kn (from_tuples key)) (\<lambda>_ b.
              (Inr (), b\<lparr>aux_deletes_redirect := aux_deletes_redirect b + 1\<rparr>))
        | None \<Rightarrow> return ()) b0))" if i: "?I1 b0" for b0
  proof -
    have "?I2 (snd (flow_insert_redirect kn (from_tuples key) r b0))" if "cp_redirect pl = Some (EffectRewrite r)" for r
      unfolding flow_insert_redirect_def
    proof (rule mediated.call_post[OF M1 i])
      fix b1 assume "?I1 b1"
      then show "?I2 (b1\<lparr>be_maps := snd (Inr (), put_redirect (from_tuples key) r (be_maps b1))\<rparr>)"
        using pc(4)[OF that] commit_redirect[of b1 "from_tuples key" _ r]
        by (auto simp: committing_def tuple_retiring_def)
    qed simp
    moreover have "?I2 (snd (remove_redirect kn (from_tuples key) b0))"
      unfolding remove_redirect_def
      by (rule mediated.call_post[OF M1 i]) (use drop_redirect in \<open>auto simp: committing_def tuple_retiring_def\<close>)
    then have "?I2 (snd (and_then (remove_redirect kn (from_tuples key)) (\<lambda>_ b.
              (Inr (), b\<lparr>aux_deletes_redirect := aux_deletes_redirect b + 1\<rparr>)) b0))"
      by (rule then_post) (simp_all add: redirect_tally)
    ultimately show ?thesis using i by (simp add: return_def split: option.split redirect_effect.split)
  qed
  have s3: "J (snd (flow_insert_conn kn key (cp_state pl) b0))" if "?I2 b0" for b0
    unfolding flow_insert_conn_def
    by (rule mediated.call_post[OF M2 that]) (use commit_conn pc(1,2) in \<open>auto simp: committing_def\<close>)
  show ?thesis
    unfolding apply_commit_plan_def
  proof (rule then_post[where I = ?I1])
    fix a b1 assume i1: "?I1 b1"
    show "J (snd (and_then
        (case cp_redirect pl of
          Some (EffectRewrite entry) \<Rightarrow> flow_insert_redirect kn (from_tuples key) entry
        | Some EffectRemove \<Rightarrow>
            and_then (remove_redirect kn (from_tuples key)) (\<lambda>_ b.
              (Inr (), b\<lparr>aux_deletes_redirect := aux_deletes_redirect b + 1\<rparr>))
        | None \<Rightarrow> return ())
        (\<lambda>_. and_then (flow_insert_conn kn key (cp_state pl)) (\<lambda>_. return Applied)) b1))"
    proof (rule then_post[where I = ?I2])
      fix a b2 assume i2: "?I2 b2"
      show "J (snd (and_then (flow_insert_conn kn key (cp_state pl)) (\<lambda>_. return Applied) b2))"
        by (rule then_post[where I = J]) (simp_all add: return_def s3[OF i2])
    qed (use s2[OF i1] in simp_all)
  qed (use s1 in simp_all)
qed

lemma fenced_mediated: "mediated kn (\<lambda>b. J b \<and> tuple_retiring (be_maps b) k)"
proof
  fix b n m assume "J b \<and> tuple_retiring (be_maps b) k"
  then show "J (b\<lparr>be_calls := n, be_maps := kn_run kn m (be_maps b)\<rparr>)
      \<and> tuple_retiring (be_maps (b\<lparr>be_calls := n, be_maps := kn_run kn m (be_maps b)\<rparr>)) k"
    using run[of b] runs[of b] runs_control by (simp add: tuple_retiring_def)
qed

lemma kept_commit_settled:
  assumes "J b" "committing kn key c (be_maps b)"
  shows "J (snd (and_then (routing_handoff_lookup kn key) (\<lambda>handoff.
              and_then (redirect_track_lookup kn (from_tuples key)) (\<lambda>track.
                case plan_udp_commit c token tr handoff track of
                  Inl result \<Rightarrow> return result
                | Inr plan \<Rightarrow> apply_commit_plan kn key plan)) b))"
proof (rule then_post[where I = "\<lambda>b. J b \<and> committing kn key c (be_maps b)"])
  show "J (snd (routing_handoff_lookup kn key b)) \<and> committing kn key c (be_maps (snd (routing_handoff_lookup kn key b)))"
    by (rule mediated.kept_handoff_lookup[OF committing_only]) (simp add: assms)
next
  fix handoff b1 assume i: "J b1 \<and> committing kn key c (be_maps b1)"
  have j: "J (snd (redirect_track_lookup kn (from_tuples key) b1))
      \<and> committing kn key c (be_maps (snd (redirect_track_lookup kn (from_tuples key) b1)))"
    by (rule mediated.kept_redirect_lookup[OF committing_only]) (rule i)
  have "J (snd (case plan_udp_commit c token tr handoff track of Inl result \<Rightarrow> return result b2
      | Inr plan \<Rightarrow> apply_commit_plan kn key plan b2))"
    if "redirect_track_lookup kn (from_tuples key) b1 = (Inr track, b2)" for track b2
    using j that kept_apply_plan[of b2 key c track token tr handoff] redirect_lookup_value[OF that]
    by (auto simp: return_def split: sum.split)
  then show "J (snd (and_then (redirect_track_lookup kn (from_tuples key)) (\<lambda>track.
      case plan_udp_commit c token tr handoff track of Inl result \<Rightarrow> return result
      | Inr plan \<Rightarrow> apply_commit_plan kn key plan) b1))"
    using j by (auto simp: and_then_def split: prod.split sum.split)
qed simp

lemma kept_commit_checked:
  assumes "J b" "tuple_retiring (be_maps b) key"
  shows "J (snd (commit_udp_checked kn key token i tr b))"
proof -
  obtain r b1 where l: "conn_state_lookup kn key b = (r, b1)" by fastforce
  have f: "J b1 \<and> tuple_retiring (be_maps b1) key"
    using mediated.kept_conn_lookup[OF fenced_mediated, of b key key] assms l by simp
  show ?thesis
  proof (cases "\<exists>c. r = Inr (Some c)")
    case False
    then show ?thesis using f l unfolding commit_udp_checked_def
      by (auto simp: and_then_def return_def split: sum.split option.split)
  next
    case True
    then obtain c where c: "r = Inr (Some c)" by blast
    then have cm: "CONN_STATE_MAP (be_maps b1) key = Some c" using conn_lookup_value[of kn key b] l by simp
    have reads: "J (snd (and_then (routing_handoff_lookup kn key) (\<lambda>handoff.
              and_then (redirect_track_lookup kn (from_tuples key)) (\<lambda>track. return (g handoff track))) b1))" for g
      using f by (intro kept_then kept_handoff_lookup kept_redirect_lookup kept_return) auto
    have "J (snd (and_then (routing_handoff_lookup kn key) (\<lambda>handoff.
              and_then (redirect_track_lookup kn (from_tuples key)) (\<lambda>track.
                case plan_udp_commit c token tr handoff track of
                  Inl result \<Rightarrow> return result
                | Inr plan \<Rightarrow> apply_commit_plan kn key plan)) b1))"
    proof (cases "udp_settled c")
      case True
      then show ?thesis using f cm kept_commit_settled[of b1 key c] runs[of b1] by (simp add: committing_def)
    next
      case False
      then have "\<exists>result. plan_udp_commit c token tr handoff track = Inl result" for handoff track
        using plan_commit_state(3)[of c token tr handoff track] by (cases "plan_udp_commit c token tr handoff track") auto
      then obtain g where "\<And>handoff track. plan_udp_commit c token tr handoff track = Inl (g handoff track)" by metis
      then show ?thesis using reads[of g] by simp
    qed
    then show ?thesis using f l c unfolding commit_udp_checked_def
      by (simp add: and_then_def ensure_def return_def)
  qed
qed

lemma kept_commit_fenced:
  assumes "J b"
  shows "J (snd (commit_udp_fenced kn key token tr b))"
proof -
  have fenced: "J (snd (with_retirement_fences kn [(key, token)]
      (\<lambda>c b2. case commit_udp_checked kn key token i tr b2 of (r, b3) \<Rightarrow> ((r, c), b3)) () b1))" if "J b1" for i b1
    by (rule kept_with_fences[OF that])
       (simp add: case_prod_unfold kept_commit_checked fences_held_def)
  have "J (snd (and_then (conn_state_lookup kn key) (\<lambda>conn.
        case conn of
          None \<Rightarrow> return Missing
        | Some captured \<Rightarrow> (\<lambda>b1.
            case with_retirement_fences kn [(key, token)]
                   (\<lambda>c b2. case commit_udp_checked kn key token (cs_incarnation captured) tr b2 of
                             (r, b3) \<Rightarrow> ((r, c), b3)) () b1 of
              ((r, _), b4) \<Rightarrow> (r, b4))) b))"
  proof (rule kept_then)
    fix conn b1 assume "J b1"
    then show "J (snd ((case conn of
          None \<Rightarrow> return Missing
        | Some captured \<Rightarrow> (\<lambda>b1.
            case with_retirement_fences kn [(key, token)]
                   (\<lambda>c b2. case commit_udp_checked kn key token (cs_incarnation captured) tr b2 of
                             (r, b3) \<Rightarrow> ((r, c), b3)) () b1 of
              ((r, _), b4) \<Rightarrow> (r, b4))) b1))"
      using fenced[of b1] by (cases conn) (simp_all add: return_def case_prod_unfold)
  qed (rule kept_conn_lookup[OF assms])
  then show ?thesis unfolding commit_udp_fenced_def by (intro b.bind_if b.bind_ret assms)
qed

lemma kept_capture: "J b \<Longrightarrow> J (snd (capture_commits kn rqs b))"
proof (induction rqs arbitrary: b)
  case (Cons rq rqs)
  have "J (snd ((if uc_token rq \<noteq> 0
           then and_then (conn_state_lookup kn (uc_key rq)) (\<lambda>conn. return (map_option cs_incarnation conn))
           else return None) b0))" if "J b0" for b0
    using that by (simp add: kept_then kept_conn_lookup kept_return)
  note cap = this
  show ?case
    unfolding capture_commits.simps
    by (rule kept_ensure kept_then cap Cons.prems Cons.IH kept_return | assumption | simp add: case_prod_unfold kept_return)+
qed (simp add: kept_return)

lemma capture_keys:
  assumes "capture_commits kn rqs b = (Inr (cs, keys), b1)"
  shows "(rq, Some i) \<in> set (zip rqs cs) \<Longrightarrow> uc_key rq \<in> fst ` set keys"
  using assms
proof (induction rqs arbitrary: b cs keys b1)
  case (Cons q rqs)
  obtain cap b2 where 1: "(if uc_token q \<noteq> 0
           then and_then (conn_state_lookup kn (uc_key q)) (\<lambda>conn. return (map_option cs_incarnation conn))
           else return None) b = (Inr cap, b2)"
    using Cons.prems(2) by (auto simp: and_then_def ensure_def split: if_splits prod.splits sum.splits)
  then obtain cs' keys' where 2: "capture_commits kn rqs b2 = (Inr (cs', keys'), b1)" "cs = cap # cs'"
      "keys = (if cap \<noteq> None then [(uc_key q, uc_token q)] else []) @ keys'"
    using Cons.prems(2) by (auto simp: and_then_def ensure_def return_def split: if_splits prod.splits sum.splits)
  show ?case using Cons.prems(1) Cons.IH[OF _ 2(1)] 2(2,3) by auto
qed simp

lemma commit_keeps_fences:
  assumes "datapath_runs kn"
  shows "tuple_retiring (be_maps (snd (commit_udp_checked kn key token i tr b))) k = tuple_retiring (be_maps b) k"
  using fences.blind_commit_checked[of kn b "RETIRE_FENCE (be_maps b)" "RETIRE_ACTIVE (be_maps b)" key token i tr] assms
  by (simp add: tuple_retiring_def)

lemma kept_commit_each:
  assumes "J b" "\<And>rq i. (rq, Some i) \<in> set items \<Longrightarrow> tuple_retiring (be_maps b) (uc_key rq)"
  shows "J (snd (commit_each kn applies n items dn b))"
  using assms
proof (induction items arbitrary: n dn b)
  case (Cons it items)
  obtain rq cap where it: "it = (rq, cap)" by (cases it)
  note same = commit_keeps_fences[OF runs[OF Cons.prems(1)]]
  show ?case
  proof (cases "applies n \<and> uc_token rq \<noteq> 0 \<and> cap \<noteq> None")
    case True
    then obtain i where i: "cap = Some i" by auto
    let ?r = "commit_udp_checked kn (uc_key rq) (uc_token rq) i (uc_transition rq) b"
    have j: "J (snd ?r)" by (rule kept_commit_checked[OF Cons.prems(1)]) (use Cons.prems(2) it i in auto)
    have "J (snd (commit_each kn applies (n + 1) items d (snd ?r)))" for d
      by (rule Cons.IH[OF j]) (use Cons.prems(2) same in auto)
    then show ?thesis using True j i it by (simp add: case_prod_unfold split: sum.split)
  next
    case False
    have "J (snd (commit_each kn applies (n + 1) items d b))" for d
      by (rule Cons.IH[OF Cons.prems(1)]) (use Cons.prems(2) in auto)
    then show ?thesis using False it by (auto simp: return_def split: option.split)
  qed
qed simp

lemma kept_commit_decisions:
  assumes "J b"
  shows "J (snd (commit_udp_decisions kn applies rqs b))"
proof -
  obtain r b1 where c: "capture_commits kn rqs b = (r, b1)" by fastforce
  have j: "J b1" using kept_capture[OF assms, of rqs] c by simp
  have "J (snd (if keys = [] then commit_each kn applies 0 (zip rqs cs) [] b1
          else with_retirement_fences kn keys (\<lambda>done. commit_each kn applies 0 (zip rqs cs) done) [] b1))"
    if "r = Inr (cs, keys)" for cs keys
  proof -
    note k = capture_keys[OF c[unfolded that]]
    have "J (snd (with_retirement_fences kn keys (\<lambda>done. commit_each kn applies 0 (zip rqs cs) done) [] b1))"
      by (rule kept_with_fences[OF j], rule kept_commit_each) (use k in \<open>fastforce simp: fences_held_def\<close>)+
    moreover have "J (snd (commit_each kn applies 0 (zip rqs cs) [] b1))" if "keys = []"
      by (rule kept_commit_each[OF j]) (use k that in auto)
    ultimately show ?thesis by simp
  qed
  then show ?thesis using assms j unfolding commit_udp_decisions_def Let_def c
    by (auto split: sum.split)
qed

lemma kept_activate:
  assumes "J b" "l4proto key \<noteq> IPPROTO_TCP"
  shows "J (snd (activate_udp_direct kn key token tr b))"
proof -
  let ?I = "\<lambda>c b. J b \<and> udp_settled c \<and> (\<exists>n. CONN_STATE_MAP (be_maps b) key = Some (c\<lparr>cs_last_seen_ns := n\<rparr>))"
  have M: "mediated kn (?I c)" for c
  proof
    fix b n m assume i: "?I c b"
    then have "\<exists>n. CONN_STATE_MAP (kn_run kn m (be_maps b)) key = Some (c\<lparr>cs_last_seen_ns := n\<rparr>)"
      using settled.steps_kept[of "be_maps b" "kn_run kn m (be_maps b)" key c] assms(2) runs[of b]
      by (auto simp: datapath_runs_def)
    then show "?I c (b\<lparr>be_calls := n, be_maps := kn_run kn m (be_maps b)\<rparr>)" using i run by simp
  qed
  have final: "J (snd (map_call kn (\<lambda>s. if CONN_STATE_MAP s key = None then (Inr Missing, s)
      else (Inr Applied, put_conn key (cp_state pl) s)) b0))"
    if "?I c b0" "plan_udp_commit c token tr handoff track = Inr pl" for c b0 handoff track pl
    by (rule mediated.call_post[OF M that(1)])
       (use commit_conn plan_commit_state(1,2)[OF that(2)] in auto)
  let ?rest = "\<lambda>c. and_then (routing_handoff_lookup kn key) (\<lambda>handoff.
               and_then (redirect_track_lookup kn (from_tuples key)) (\<lambda>track.
                 case plan_udp_commit c token tr handoff track of
                   Inl result \<Rightarrow> return result
                 | Inr plan \<Rightarrow> map_call kn (\<lambda>s.
                     if CONN_STATE_MAP s key = None then (Inr Missing, s)
                     else (Inr Applied,
                           s\<lparr>CONN_STATE_MAP := (CONN_STATE_MAP s)(key \<mapsto> cp_state plan)\<rparr>))))"
  have rest: "J (snd (?rest c b0))" if j: "J b0" and c: "CONN_STATE_MAP (be_maps b0) key = Some c" for c b0
  proof (cases "udp_settled c")
    case False
    then have "\<exists>g. plan_udp_commit c token tr handoff track = Inl g" for handoff track
      using plan_commit_state(3)[of c token tr handoff track] by (cases "plan_udp_commit c token tr handoff track") auto
    then obtain g where "\<And>handoff track. plan_udp_commit c token tr handoff track = Inl (g handoff track)" by metis
    then show ?thesis using j by (auto intro!: kept_then kept_handoff_lookup kept_redirect_lookup kept_return)
  next
    case True
    have "CONN_STATE_MAP (be_maps b0) key = Some (c\<lparr>cs_last_seen_ns := cs_last_seen_ns c\<rparr>)" using c by simp
    with True j have i: "?I c b0" by blast
    show ?thesis
    proof (rule then_post[where I = "?I c"])
      show "?I c (snd (routing_handoff_lookup kn key b0))" by (rule mediated.kept_handoff_lookup[OF M i])
      fix handoff b1 assume i1: "?I c b1"
      show "J (snd (and_then (redirect_track_lookup kn (from_tuples key)) (\<lambda>track.
                 case plan_udp_commit c token tr handoff track of
                   Inl result \<Rightarrow> return result
                 | Inr plan \<Rightarrow> map_call kn (\<lambda>s.
                     if CONN_STATE_MAP s key = None then (Inr Missing, s)
                     else (Inr Applied,
                           s\<lparr>CONN_STATE_MAP := (CONN_STATE_MAP s)(key \<mapsto> cp_state plan)\<rparr>))) b1))"
      proof (rule then_post[where I = "?I c"])
        show "?I c (snd (redirect_track_lookup kn (from_tuples key) b1))" by (rule mediated.kept_redirect_lookup[OF M i1])
        fix track b2 assume i2: "?I c b2"
        show "J (snd ((case plan_udp_commit c token tr handoff track of
                   Inl result \<Rightarrow> return result
                 | Inr plan \<Rightarrow> map_call kn (\<lambda>s.
                     if CONN_STATE_MAP s key = None then (Inr Missing, s)
                     else (Inr Applied,
                           s\<lparr>CONN_STATE_MAP := (CONN_STATE_MAP s)(key \<mapsto> cp_state plan)\<rparr>))) b2))"
          using i2 final[OF i2]
          by (cases "plan_udp_commit c token tr handoff track") (simp_all only: sum.case return_def snd_conv)
      qed simp
    qed simp
  qed
  have "J (snd (and_then (conn_state_lookup kn key) (\<lambda>conn.
        case conn of
          None \<Rightarrow> return Missing
        | Some state \<Rightarrow>
            if cs_decision_token state \<noteq> token then return TokenMismatch
            else ensure (cs_incarnation state \<noteq> 0) NoLifetimeIdentity (?rest state)) b))"
  proof (rule kept_then)
    show "J (snd (conn_state_lookup kn key b))" by (rule kept_conn_lookup[OF assms(1)])
  next
    fix conn b1 assume "conn_state_lookup kn key b = (Inr conn, b1)" "J b1"
    then show "J (snd ((case conn of
          None \<Rightarrow> return Missing
        | Some state \<Rightarrow>
            if cs_decision_token state \<noteq> token then return TokenMismatch
            else ensure (cs_incarnation state \<noteq> 0) NoLifetimeIdentity (?rest state)) b1))"
      using conn_lookup_value[of kn key b conn b1] rest[of b1]
      by (auto simp: return_def ensure_def split: option.split)
  qed
  then show ?thesis unfolding activate_udp_direct_def by (intro b.bind_if b.bind_ret assms)
qed

lemma kept_commit: "J b \<Longrightarrow> l4proto key \<noteq> IPPROTO_TCP \<Longrightarrow> J (snd (commit_udp_decision kn key token tr b))"
  by (simp add: commit_udp_decision_def kept_activate kept_commit_fenced split: udp_decision_transition.split)

end

section \<open>The whole control plane\<close>

locale system_frame = decision_frame +
  assumes settings: "J b \<Longrightarrow> J (b\<lparr>be_maps := be_maps b\<lparr>DATAPATH_STATE_MAP := d\<rparr>\<rparr>)"
      "J b \<Longrightarrow> J (b\<lparr>be_maps := be_maps b\<lparr>DATAPATH_FLAGS_MAP := d\<rparr>\<rparr>)"
    and generation: "J b \<Longrightarrow> gen \<le> UDP_DECISION_GENERATION_MASK \<Longrightarrow>
          J (b\<lparr>be_maps := be_maps b\<lparr>UDP_DECISION_SEQUENCE :=
               \<lparr>seq_next = push_bit UDP_DECISION_GENERATION_SHIFT gen, seq_exhausted = 0\<rparr>\<rparr>\<rparr>)"
    and routing: "J b \<Longrightarrow> J (b\<lparr>routing_generation := g, routing_generation_counter := n\<rparr>)"
      "J b \<Longrightarrow> J (b\<lparr>routing_generation_sequence := n\<rparr>)" "J b \<Longrightarrow> J (b\<lparr>ROUTING_POLICY_ROOT := g\<rparr>)"
    and quiescing: "J b \<Longrightarrow> J (b\<lparr>udp_staging_quiesce_incomplete := x\<rparr>)"
    and capability: "J b \<Longrightarrow> J (b\<lparr>cap_lookup_batch := x\<rparr>)" "J b \<Longrightarrow> J (b\<lparr>cap_flow_lookup_batch := x\<rparr>)"
begin

lemmas system_retire = kept_retire_flows and system_commit = kept_commit and system_batch = kept_commit_decisions

lemma kept_unsupported: "J b \<Longrightarrow> J (set_unsupported cap x b)"
  by (cases cap) (simp_all add: capability)

lemma kept_lookup_batch: "J b \<Longrightarrow> J (snd (lookup_batch kn read keys b))"
  by (simp add: lookup_batch_def Let_def run)

lemma kept_scan_with: "J b \<Longrightarrow> J (snd (scan_with kn read cap visit has_previous batches c b))"
proof (induction batches arbitrary: has_previous c b)
  case (Cons keys rest)
  show ?case
    unfolding scan_with.simps
    by (rule b.binds kept_lookup_batch[OF Cons.prems] kept_unsupported Cons.IH | assumption | simp)+
qed simp

lemma kept_batch_scan: "J b \<Longrightarrow> J (snd (bpf_lookup_batch_scan_cb_flags kn keys read cap visit c b))"
  by (simp add: bpf_lookup_batch_scan_cb_flags_def kept_scan_with)

lemma kept_next_key: "J b \<Longrightarrow> J (snd (next_flow_key kn b))"
  unfolding next_flow_key_def by (rule read_call) simp_all

lemma kept_flow_lookup: "J b \<Longrightarrow> J (snd (flow_lookup kn read k b))"
  unfolding flow_lookup_def by (rule read_call) simp_all

lemmas kept_reading = kept_then kept_next_key kept_flow_lookup kept_batch_scan kept_return

lemma kept_scan: "J b \<Longrightarrow> J (snd (scan_keys kn read n visit ks projected c b))"
proof (induction ks arbitrary: projected c b)
  case (Cons k ks)
  show ?case
    unfolding scan_keys.simps
    by (rule kept_reading Cons.prems | assumption
       | auto intro: Cons.IH kept_return split: prod.split option.split bool.split)+
qed (simp add: kept_return)

lemma kept_iter: "J b \<Longrightarrow> J (snd (iter_map kn read n visit ks chunk c b))"
proof (induction ks arbitrary: chunk c b)
  case Nil
  show ?case unfolding iter_map.simps by (rule kept_reading Nil | assumption)+
next
  case (Cons k ks)
  show ?case
    unfolding iter_map.simps
    by (rule kept_reading Cons.prems | assumption
       | auto intro: Cons.IH kept_return split: prod.split option.split bool.split)+
qed

lemma kept_for_each: "J b \<Longrightarrow> J (snd (flow_for_each_chunk kn keys read n visit c b))"
  unfolding flow_for_each_chunk_def flow_scan_from_def
  by (rule kept_reading | assumption | auto intro!: kept_reading kept_scan split: option.split)+

lemma kept_for_each_map: "J b \<Longrightarrow> J (snd (for_each_map_chunk kn keys read n visit c b))"
  unfolding for_each_map_chunk_def
  by (rule kept_reading | assumption | auto intro!: kept_iter split: option.split)+

lemma kept_retire_chunks: "J b \<Longrightarrow> J (snd (retire_chunks kn chs b))"
proof (induction chs arbitrary: b)
  case (Cons ch chs)
  show ?case
    unfolding retire_chunks.simps
    by (rule b.binds kept_retire_flows[OF Cons.prems] Cons.IH | assumption)+
qed simp

lemma kept_fence_generation: "J b \<Longrightarrow> J (snd (fence_routing_generation kn b))"
  unfolding fence_routing_generation_def reserve_routing_generation_def publish_routing_descriptor_def Let_def
  by (auto intro!: kept_then read_call simp: routing split: option.split)

lemma kept_quiesce: "J b \<Longrightarrow> J (snd (quiesce_staged_udp kn b))"
  unfolding quiesce_staged_udp_def retire_staged_udp_def
  by (rule kept_then kept_barrier kept_for_each kept_retire_chunks kept_fence_generation quiescing | assumption | simp add: quiescing)+

lemma kept_find_live:
  "J b \<Longrightarrow> J (snd (find_live kn keys read f g l b))" "J b \<Longrightarrow> J (snd (find_live_fence kn g l b))"
  unfolding find_live_def find_live_fence_def by (simp_all add: kept_return kept_for_each kept_for_each_map)

lemma kept_reset: "J b \<Longrightarrow> J (snd (reset_udp_decision_sequence kn g b))"
proof -
  have st: "J (snd (udp_decision_sequence_status kn b0))" if "J b0" for b0
    unfolding udp_decision_sequence_status_def using that by (auto intro!: kept_then read_call kept_ensure kept_return)
  assume b: "J b"
  show ?thesis
  proof (cases "g \<le> UDP_DECISION_GENERATION_MASK")
    case True
    have fin: "J (snd (map_call kn (\<lambda>s. (Inr True, s\<lparr>UDP_DECISION_SEQUENCE :=
        \<lparr>seq_next = push_bit UDP_DECISION_GENERATION_SHIFT g, seq_exhausted = 0\<rparr>\<rparr>)) b0))" if "J b0" for b0
      by (rule call[OF that]) (simp add: generation[OF _ True])
    show ?thesis
      unfolding reset_udp_decision_sequence_def
      by (rule b kept_ensure kept_then st kept_find_live kept_if kept_return fin | assumption)+
  next
    case False
    then show ?thesis using b by (simp add: reset_udp_decision_sequence_def ensure_def)
  qed
qed

lemma kept_settings:
  assumes "J b" shows "J (snd (set_datapath_ready kn r b))" "J (snd (set_datapath_flags kn f b))"
  using assms unfolding set_datapath_ready_def set_datapath_flags_def
  by (auto intro!: call simp: settings)

end

text \<open>A property that every classifier, every backend operation and every setting keeps.\<close>

locale system_invariant =
  fixes P :: "dp \<Rightarrow> bool"
  assumes framed: "system_frame kn (\<lambda>b. datapath_runs kn \<and> P (be_maps b))"
    and packet: "packet_step s s' \<Longrightarrow> P s \<Longrightarrow> P s'"
    and setting: "P s \<Longrightarrow> P (s\<lparr>TCP_LIVE_PINS := pins, OUTBOUND_CONNECTIVITY_MAP := conn, ADMISSION_PRESSURE := pressure\<rparr>)"
begin

lemma system_step_kept: "system_step b b' \<Longrightarrow> P (be_maps b) \<Longrightarrow> P (be_maps b')"
proof (induction rule: system_step.induct)
  case (sys_packet b s)
  then show ?case using packet by simp
next
  case (sys_commit kn key b token tr)
  then show ?case using system_frame.system_commit[OF framed, of kn b key token tr] by (simp add: IPPROTO_TCP_def IPPROTO_UDP_def)
next
  case (sys_settings b pins conn pressure)
  then show ?case by (simp add: setting)
next
  case (sys_retire kn b requests n)
  then show ?case using system_frame.system_retire[OF framed, of kn b requests n] by simp
next
  case (sys_commit_batch kn b applies commits)
  then show ?case using system_frame.system_batch[OF framed, of kn b applies commits] by simp
next
  case (sys_quiesce kn b)
  then show ?case using system_frame.kept_quiesce[OF framed, of kn b] by simp
next
  case (sys_reset kn b generation)
  then show ?case using system_frame.kept_reset[OF framed, of kn b generation] by simp
next
  case (sys_ready kn b ready)
  then show ?case using system_frame.kept_settings(1)[OF framed, of kn b ready] by simp
next
  case (sys_flags kn b flags)
  then show ?case using system_frame.kept_settings(2)[OF framed, of kn b flags] by simp
qed

lemma system_steps_kept: "rtranclp system_step b b' \<Longrightarrow> P (be_maps b) \<Longrightarrow> P (be_maps b')"
  by (induction rule: rtranclp_induct) (simp_all add: system_step_kept)

end

section \<open>Owners in the whole system\<close>

lemma runs_steps: "datapath_runs kn \<Longrightarrow> rtranclp packet_step s (kn_run kn n s)"
  by (simp add: datapath_runs_def)

lemma owners_fewer:
  assumes "owners_distinct s" "\<And>k i. conn_incarnation s' k = Some i \<Longrightarrow> conn_incarnation s k = Some i"
    "TCP_PUBLISHING s' = TCP_PUBLISHING s" "FLOW_INCARNATION_SEQUENCE s' = FLOW_INCARNATION_SEQUENCE s"
  shows "owners_distinct s'"
proof (rule owners_distinct_sub[OF assms(1) _ assms(4)])
  show "owner_of s k i" if "owner_of s' k i" for k i using that assms(2,3) by (auto simp: owner_of_def)
qed

interpretation owners_calls: system_frame kn "\<lambda>b. datapath_runs kn \<and> owners_distinct (be_maps b)" for kn
proof (unfold_locales, goal_cases)
  case (1 b n m)
  then show ?case using owners.steps_kept[OF runs_steps] by simp
qed (auto simp: conn_incarnation_def remove_key_def owners_put_conn elim!: owners_fewer split: if_splits)

interpretation sys_owners: system_invariant owners_distinct
proof (rule system_invariant.intro)
  show "system_frame kn (\<lambda>b. datapath_runs kn \<and> owners_distinct (be_maps b))" for kn
    by (rule owners_calls.system_frame_axioms)
  show "owners_distinct (s\<lparr>TCP_LIVE_PINS := pins, OUTBOUND_CONNECTIVITY_MAP := conn, ADMISSION_PRESSURE := pressure\<rparr>)"
    if "owners_distinct s" for s pins conn pressure
    using that by (auto simp: conn_incarnation_def elim!: owners_fewer)
qed (rule owners.step_kept)

lemma less_after_Suc:
  fixes i n m :: "'a::len word"
  assumes "i \<le> n" "n < m"
  shows "i \<le> n + 1" "n + 1 \<noteq> i" "n + 1 \<le> m"
  using word_less_Suc[OF assms(2)] assms(1) by auto

interpretation gone: publishing_frame "retired k0 i0" for k0 i0
proof (unfold_locales, goal_cases)
  case (2 s)
  then show ?case using less_after_Suc[of i0 "FLOW_INCARNATION_SEQUENCE s" FLOW_INCARNATION_MAX]
    by (simp add: retired_def conn_incarnation_def)
next
  case (8 s k c')
  then show ?case using less_after_Suc[of i0 "FLOW_INCARNATION_SEQUENCE s" FLOW_INCARNATION_MAX]
    by (auto simp: retired_def conn_incarnation_def)
next
  case (16 s k)
  then show ?case using less_after_Suc[of i0 "FLOW_INCARNATION_SEQUENCE s" FLOW_INCARNATION_MAX]
    by (auto simp: retired_def conn_incarnation_def)
qed (auto simp: retired_def conn_incarnation_def same_owned_def remove_key_def)

interpretation gone_calls: system_frame kn "\<lambda>b. datapath_runs kn \<and> retired k0 i0 (be_maps b)" for kn k0 i0
proof (unfold_locales, goal_cases)
  case (1 b n m)
  then show ?case using gone.steps_kept[OF runs_steps] by simp
qed (auto simp: retired_def conn_incarnation_def remove_key_def)

interpretation sys_gone: system_invariant "retired k0 i0" for k0 i0
proof (rule system_invariant.intro)
  show "system_frame kn (\<lambda>b. datapath_runs kn \<and> retired k0 i0 (be_maps b))" for kn
    by (rule gone_calls.system_frame_axioms)
qed (erule (1) gone.step_kept, simp add: retired_def conn_incarnation_def)

lemma view_run: "fenced_view kn k i r h s \<Longrightarrow> fenced_view kn k i r h (kn_run kn n s)"
  using fenced.steps_kept[OF runs_steps, of kn s k i r h] by (simp add: fenced_view_def)

interpretation view: mediated kn "\<lambda>b. fenced_view kn k i r h (be_maps b)" for kn k i r h
  by unfold_locales (simp add: view_run)

interpretation commit_view: mediated kn "\<lambda>b. committing kn k c (be_maps b)" for kn k c
  by unfold_locales (simp add: committing_run)

lemma view_removals:
  assumes "fenced_view kn k i r h s"
  shows "fenced_view kn k None r h (s\<lparr>CONN_STATE_MAP := remove_key k (CONN_STATE_MAP s)\<rparr>)"
    "fenced_view kn k i None h (s\<lparr>REDIRECT_TRACK := remove_key (from_tuples k) (REDIRECT_TRACK s)\<rparr>)"
    "fenced_view kn k i r None (s\<lparr>ROUTING_HANDOFF_MAP := remove_key k (ROUTING_HANDOFF_MAP s)\<rparr>)"
  using assms by (simp_all add: fenced_view_def tuple_retiring_def conn_incarnation_def remove_key_def)

lemma remove_handoff_view:
  assumes "fenced_view kn k i r h (be_maps b)" "remove_handoff kn k b = (Inr p, b1)"
  shows "p = (h \<noteq> None) \<and> fenced_view kn k i r None (be_maps b1)"
  using assms(2) view_run[OF assms(1)] view_removals(3)[OF view_run[OF assms(1)]]
  by (auto simp: remove_handoff_def map_call_def Let_def fenced_view_def split: if_splits)

lemma remove_redirect_view:
  assumes "fenced_view kn k i r h (be_maps b)" "remove_redirect kn (from_tuples k) b = (Inr p, b1)"
  shows "p = (r \<noteq> None) \<and> fenced_view kn k i None h (be_maps b1)"
  using assms(2) view_run[OF assms(1)] view_removals(2)[OF view_run[OF assms(1)]]
  by (auto simp: remove_redirect_def map_call_def Let_def fenced_view_def split: if_splits)

lemma remove_conn_view:
  assumes "fenced_view kn k i r h (be_maps b)" "remove_conn kn k b = (Inr p, b1)"
  shows "p = (i \<noteq> None) \<and> fenced_view kn k None r h (be_maps b1)"
proof -
  let ?s = "kn_run kn (be_calls b) (be_maps b)"
  have v: "fenced_view kn k i r h ?s" by (rule view_run[OF assms(1)])
  then have "(CONN_STATE_MAP ?s k \<noteq> None) = (i \<noteq> None)" by (auto simp: fenced_view_def conn_incarnation_def)
  then show ?thesis using assms(2) view_removals(1)[OF v]
    by (auto simp: remove_conn_def map_call_def Let_def split: if_splits)
qed

lemma counted_step:
  assumes "counted_removal go m upd c b = ((Inr u, c1), b1)" "P b" "upd 0 c = c"
    "\<And>p b1. m b = (Inr p, b1) \<Longrightarrow> p = x \<and> Q b1"
  shows "(if go then Q b1 else P b1) \<and> c1 = upd (bool_u64 (go \<and> x)) c"
  using assms by (auto simp: counted_removal_def bool_u64_def split: if_splits prod.splits sum.splits)

lemma execute_view:
  assumes "fenced_view kn (rq_key rq) i r h (be_maps b)" "execute_plan kn rq pl counts b = ((Inr out, c'), b')"
  shows "fenced_view kn (rq_key rq) (if pl_conn pl then None else i) (if pl_redirect pl then None else r)
      (if pl_handoff pl then None else h) (be_maps b')
    \<and> out = plan_outcome pl \<lparr>rc_conn = bool_u64 (pl_conn pl \<and> i \<noteq> None),
         rc_redirect = bool_u64 (pl_redirect pl \<and> r \<noteq> None), rc_handoff = bool_u64 (pl_handoff pl \<and> h \<noteq> None)\<rparr>"
proof -
  obtain c1 b1 c2 b2 c3 where
    1: "counted_removal (pl_handoff pl) (remove_handoff kn (rq_key rq)) (\<lambda>d c. c\<lparr>rc_handoff := rc_handoff c + d\<rparr>) counts b = ((Inr (), c1), b1)" and
    2: "counted_removal (pl_redirect pl) (remove_redirect kn (from_tuples (rq_key rq))) (\<lambda>d c. c\<lparr>rc_redirect := rc_redirect c + d\<rparr>) c1 b1 = ((Inr (), c2), b2)" and
    3: "counted_removal (pl_conn pl) (remove_conn kn (rq_key rq)) (\<lambda>d c. c\<lparr>rc_conn := rc_conn c + d\<rparr>) c2 b2 = ((Inr (), c3), b')" and
    out: "out = plan_outcome pl (counts_since c3 counts)"
    using assms(2) by (auto simp: execute_plan_def Let_def split: prod.splits sum.splits)
  let ?v = "\<lambda>i r h b. fenced_view kn (rq_key rq) i r h (be_maps b)"
  let ?h = "if pl_handoff pl then None else h" and ?r = "if pl_redirect pl then None else r"
  have v1: "(if pl_handoff pl then ?v i r None b1 else ?v i r h b1)
      \<and> c1 = counts\<lparr>rc_handoff := rc_handoff counts + bool_u64 (pl_handoff pl \<and> h \<noteq> None)\<rparr>"
    by (rule counted_step[where P = "?v i r h" and Q = "?v i r None", OF 1]) (rule assms(1), simp, rule remove_handoff_view[OF assms(1)])
  then have w1: "?v i r ?h b1" by simp
  have v2: "(if pl_redirect pl then ?v i None ?h b2 else ?v i r ?h b2)
      \<and> c2 = c1\<lparr>rc_redirect := rc_redirect c1 + bool_u64 (pl_redirect pl \<and> r \<noteq> None)\<rparr>"
    by (rule counted_step[where P = "?v i r ?h" and Q = "?v i None ?h", OF 2]) (rule w1, simp, rule remove_redirect_view[OF w1])
  then have w2: "?v i ?r ?h b2" by (cases "pl_redirect pl") simp_all
  have v3: "(if pl_conn pl then ?v None ?r ?h b' else ?v i ?r ?h b')
      \<and> c3 = c2\<lparr>rc_conn := rc_conn c2 + bool_u64 (pl_conn pl \<and> i \<noteq> None)\<rparr>"
    by (rule counted_step[where P = "?v i ?r ?h" and Q = "?v None ?r ?h", OF 3]) (rule w2, simp, rule remove_conn_view[OF w2])
  then have "?v (if pl_conn pl then None else i) ?r ?h b'" by (cases "pl_conn pl") simp_all
  moreover have "counts_since c3 counts = \<lparr>rc_conn = bool_u64 (pl_conn pl \<and> i \<noteq> None),
         rc_redirect = bool_u64 (pl_redirect pl \<and> r \<noteq> None), rc_handoff = bool_u64 (pl_handoff pl \<and> h \<noteq> None)\<rparr>"
    using v1 v2 v3 by (simp add: counts_since_def)
  ultimately show ?thesis using out by simp
qed

lemma read_owners_view:
  assumes "fenced_view kn (rq_key rq) i r h (be_maps b)" "read_owners kn rq b = (Inr ow, b1)"
  shows "fenced_view kn (rq_key rq) i r h (be_maps b1)
    \<and> (\<exists>c. map_option cs_incarnation c = i
        \<and> (CONN_STATE_MAP (be_maps b) (rq_key rq) = Some c0 \<and> udp_settled c0 \<longrightarrow> c = Some c0)
        \<and> ow = visible (rq_kind rq) \<lparr>ow_conn = c, ow_handoff = h, ow_redirect = r\<rparr>)"
proof -
  let ?k = "rq_key rq" and ?reads = "kind_owner_reads (rq_kind rq)"
  obtain conn b0 handoff b2 redirect where
    1: "lookup_if (or_conn ?reads) (conn_state_lookup kn ?k) b = (Inr conn, b0)" and
    2: "lookup_if (or_handoff ?reads) (routing_handoff_lookup kn ?k) b0 = (Inr handoff, b2)" and
    3: "lookup_if (or_redirect ?reads) (redirect_track_lookup kn (from_tuples ?k)) b2 = (Inr redirect, b1)" and
    ow: "ow = \<lparr>ow_conn = conn, ow_handoff = handoff, ow_redirect = redirect\<rparr>"
    using assms(2) by (auto simp: read_owners_def Let_def and_then_def return_def split: prod.splits sum.splits)
  have v0: "fenced_view kn ?k i r h (be_maps b0)"
    using view.kept_conn_lookup[OF assms(1), of ?k] assms(1) 1 by (auto simp: lookup_if_def return_def split: if_splits)
  have v2: "fenced_view kn ?k i r h (be_maps b2)"
    using view.kept_handoff_lookup[OF v0, of ?k] v0 2 by (auto simp: lookup_if_def return_def split: if_splits)
  have v1: "fenced_view kn ?k i r h (be_maps b1)"
    using view.kept_redirect_lookup[OF v2, of "from_tuples ?k"] v2 3
    by (auto simp: lookup_if_def return_def split: if_splits)
  have h: "handoff = (if or_handoff ?reads then h else None)"
    using 2 handoff_lookup_value[of kn ?k b0 handoff b2] v2
    by (auto simp: lookup_if_def return_def fenced_view_def split: if_splits)
  have r: "redirect = (if or_redirect ?reads then r else None)"
    using 3 redirect_lookup_value[of kn "from_tuples ?k" b2 redirect b1] v1
    by (auto simp: lookup_if_def return_def fenced_view_def split: if_splits)
  let ?c = "if or_conn ?reads then CONN_STATE_MAP (be_maps b0) ?k else CONN_STATE_MAP (be_maps b) ?k"
  have c: "conn = (if or_conn ?reads then ?c else None)"
    using 1 conn_lookup_value[of kn ?k b conn b0] by (auto simp: lookup_if_def return_def split: if_splits)
  have inc: "map_option cs_incarnation ?c = i"
    using v0 assms(1) by (simp add: fenced_view_def conn_incarnation_def)
  have frozen: "?c = Some c0" if "CONN_STATE_MAP (be_maps b) ?k = Some c0 \<and> udp_settled c0"
  proof -
    have "committing kn ?k c0 (be_maps b)" using that assms(1) by (simp add: committing_def fenced_view_def)
    then have "committing kn ?k c0 (be_maps (snd (conn_state_lookup kn ?k b)))" by (rule commit_view.kept_conn_lookup)
    then show ?thesis using that 1 by (auto simp: committing_def lookup_if_def)
  qed
  have "ow = visible (rq_kind rq) \<lparr>ow_conn = ?c, ow_handoff = h, ow_redirect = r\<rparr>"
    using ow c h r by (simp add: visible_def Let_def)
  with v1 inc frozen show ?thesis by blast
qed

lemma retire_one_spec:
  assumes "datapath_runs kn" "tuple_retiring (be_maps b) (rq_key rq)"
    and "retire_one kn rq counts b = ((Inr out, counts'), b')"
  shows "\<exists>conn ow.
      map_option cs_incarnation conn = conn_incarnation (be_maps b) (rq_key rq)
    \<and> (\<forall>c0. CONN_STATE_MAP (be_maps b) (rq_key rq) = Some c0 \<and> udp_settled c0 \<longrightarrow> conn = Some c0)
    \<and> retire_spec rq \<lparr>ow_conn = conn, ow_handoff = ROUTING_HANDOFF_MAP (be_maps b) (rq_key rq),
        ow_redirect = REDIRECT_TRACK (be_maps b) (from_tuples (rq_key rq))\<rparr> = (out, ow)
    \<and> conn_incarnation (be_maps b') (rq_key rq) = map_option cs_incarnation (ow_conn ow)
    \<and> ROUTING_HANDOFF_MAP (be_maps b') (rq_key rq) = ow_handoff ow
    \<and> REDIRECT_TRACK (be_maps b') (from_tuples (rq_key rq)) = ow_redirect ow"
proof -
  let ?k = "rq_key rq" and ?s = "be_maps b"
  let ?i = "conn_incarnation ?s ?k" and ?r = "REDIRECT_TRACK ?s (from_tuples ?k)" and ?h = "ROUTING_HANDOFF_MAP ?s ?k"
  have v: "fenced_view kn ?k ?i ?r ?h ?s" using assms(1,2) by (simp add: fenced_view_def)
  obtain ow1 b1 where ro: "read_owners kn rq b = (Inr ow1, b1)"
    using assms(3) by (auto simp: retire_one_def split: prod.splits sum.splits)
  obtain c where c: "map_option cs_incarnation c = ?i"
      "\<forall>c0. CONN_STATE_MAP ?s ?k = Some c0 \<and> udp_settled c0 \<longrightarrow> c = Some c0"
      "ow1 = visible (rq_kind rq) \<lparr>ow_conn = c, ow_handoff = ?h, ow_redirect = ?r\<rparr>"
    and v1: "fenced_view kn ?k ?i ?r ?h (be_maps b1)"
    using read_owners_view[OF v ro, of "the (CONN_STATE_MAP ?s ?k)"] by (metis option.sel)
  let ?ow = "\<lparr>ow_conn = c, ow_handoff = ?h, ow_redirect = ?r\<rparr>"
  have ci: "(c \<noteq> None) = (?i \<noteq> None)" using c(1)[symmetric] by simp
  have "\<exists>ow. retire_spec rq ?ow = (out, ow) \<and> fenced_view kn ?k (map_option cs_incarnation (ow_conn ow))
      (ow_redirect ow) (ow_handoff ow) (be_maps b')"
  proof (cases "plan_retirement rq ow1")
    case (Inl res)
    then show ?thesis using assms(3) ro v1 c by (auto simp: retire_one_def retire_spec_def)
  next
    case (Inr pl)
    have ex: "execute_plan kn rq pl counts b1 = ((Inr out, counts'), b')"
      using assms(3) ro Inr by (simp add: retire_one_def split: if_splits)
    note ev = execute_view[OF v1 ex]
    let ?r' = "if pl_redirect pl then None else ?r" and ?h' = "if pl_handoff pl then None else ?h"
    have e: "map_option cs_incarnation (if pl_conn pl then None else c) = (if pl_conn pl then None else ?i)"
      using c(1) by simp
    have "retire_spec rq ?ow = (out, \<lparr>ow_conn = (if pl_conn pl then None else c), ow_handoff = ?h', ow_redirect = ?r'\<rparr>)"
      unfolding retire_spec_def c(3)[symmetric] Inr sum.case owners.select_convs ci
      by (simp only: conjunct2[OF ev])
    moreover have "fenced_view kn ?k (map_option cs_incarnation (if pl_conn pl then None else c)) ?r' ?h' (be_maps b')"
      unfolding e by (rule conjunct1[OF ev])
    ultimately show ?thesis by (intro exI conjI) (assumption, simp only: owners.select_convs)
  qed
  then show ?thesis using c(1,2) by (auto simp: fenced_view_def)
qed

lemma steps_release: "rtranclp packet_step s s' \<Longrightarrow> TCP_PUBLISHING s' = TCP_PUBLISHING s"
  by (induction rule: rtranclp_induct) (simp_all add: step_releases)

text \<open>Between runs no publisher holds a claim, and the counter only grows.\<close>

interpretation quiet_calls: system_frame kn "\<lambda>b. datapath_runs kn \<and> TCP_PUBLISHING (be_maps b) = P
    \<and> n \<le> FLOW_INCARNATION_SEQUENCE (be_maps b) \<and> FLOW_INCARNATION_SEQUENCE (be_maps b) \<le> FLOW_INCARNATION_MAX"
  for kn P n
proof (unfold_locales, goal_cases)
  case (1 b m k)
  then show ?case
    using steps_release[OF runs_steps] counter.steps_kept[OF runs_steps, of kn n "be_maps b"] by simp
qed simp_all

interpretation sys_quiet: system_invariant "\<lambda>s. TCP_PUBLISHING s = P \<and> n \<le> FLOW_INCARNATION_SEQUENCE s
    \<and> FLOW_INCARNATION_SEQUENCE s \<le> FLOW_INCARNATION_MAX" for P n
proof (rule system_invariant.intro)
  show "system_frame kn (\<lambda>b. datapath_runs kn \<and> TCP_PUBLISHING (be_maps b) = P \<and> n \<le> FLOW_INCARNATION_SEQUENCE (be_maps b)
    \<and> FLOW_INCARNATION_SEQUENCE (be_maps b) \<le> FLOW_INCARNATION_MAX)" for kn
    by (rule quiet_calls.system_frame_axioms)
next
  fix s s' assume "packet_step s s'" and q: "TCP_PUBLISHING s = P \<and> n \<le> FLOW_INCARNATION_SEQUENCE s
    \<and> FLOW_INCARNATION_SEQUENCE s \<le> FLOW_INCARNATION_MAX"
  then show "TCP_PUBLISHING s' = P \<and> n \<le> FLOW_INCARNATION_SEQUENCE s' \<and> FLOW_INCARNATION_SEQUENCE s' \<le> FLOW_INCARNATION_MAX"
    using step_releases counter.step_kept[of s s' n] by simp
qed simp

text \<open>An expiry request for an entry that a packet refreshed in the meantime is superseded, and therefore
  settled, although the entry keeps its incarnation.\<close>

lemma refreshed_superseded:
  assumes "ow_conn ow = Some state" "cs_incarnation state = cs_incarnation expected"
    "cs_last_seen_ns state \<noteq> cs_last_seen_ns expected"
  shows "retire_spec \<lparr>rq_key = key, rq_kind = ExpiredConn expected cutoff\<rparr> ow = (Done Superseded, ow)
    \<and> settled (Done Superseded)"
  using assms
  by (simp add: retire_spec_def plan_retirement_def conn_plan_def visible_def kind_owner_reads_def
      validate_conn_retirement_def conn_matches_def settled_def Let_def)

lemma tcp_spec:
  assumes "rq_kind rq = RetireTcp i" "retire_spec rq ow = (out, ow')" "settled out"
  shows "map_option cs_incarnation (ow_conn ow') \<noteq> Some i"
  using assms
  by (auto simp: retire_spec_def plan_retirement_def conn_plan_def visible_def kind_owner_reads_def
      validate_conn_retirement_def settled_def Let_def plan_auxiliary_def plan_outcome_def bool_u64_def
      split: option.splits if_splits sum.splits)

lemma retire_one_tcp:
  assumes "datapath_runs kn" "tuple_retiring (be_maps b) (rq_key rq)" "settled out" "rq_kind rq = RetireTcp i"
    "retire_one kn rq counts b = ((Inr out, counts'), b')"
  shows "conn_incarnation (be_maps b') (rq_key rq) \<noteq> Some i"
proof -
  obtain conn ow where "retire_spec rq \<lparr>ow_conn = conn, ow_handoff = ROUTING_HANDOFF_MAP (be_maps b) (rq_key rq),
        ow_redirect = REDIRECT_TRACK (be_maps b) (from_tuples (rq_key rq))\<rparr> = (out, ow)"
      "conn_incarnation (be_maps b') (rq_key rq) = map_option cs_incarnation (ow_conn ow)"
    using retire_one_spec[OF assms(1,2,5)] by blast
  then show ?thesis using tcp_spec[OF assms(4) _ assms(3)] by simp
qed

lemma retire_each_tcp:
  assumes "datapath_runs kn" "retire_each kn rqs (outs0, counts) b = ((Inr (), outs, counts'), b')"
    "\<forall>rq \<in> set rqs. tuple_retiring (be_maps b) (rq_key rq)"
    "TCP_PUBLISHING (be_maps b) = Map.empty" "i \<noteq> 0" "i \<le> FLOW_INCARNATION_SEQUENCE (be_maps b)"
    "FLOW_INCARNATION_SEQUENCE (be_maps b) \<le> FLOW_INCARNATION_MAX"
  shows "\<exists>outs1. outs = outs0 @ outs1 \<and> length outs1 = length rqs
    \<and> (\<forall>j < length rqs. rqs ! j = \<lparr>rq_key = k, rq_kind = RetireTcp i\<rparr> \<and> settled (outs1 ! j) \<longrightarrow> retired k i (be_maps b'))"
  using assms(2-)
proof (induction rqs arbitrary: outs0 counts b)
  case (Cons rq rqs)
  obtain out c1 b1 where one: "retire_one kn rq counts b = ((Inr out, c1), b1)"
    and rest: "retire_each kn rqs (outs0 @ [out], c1) b1 = ((Inr (), outs, counts'), b')"
    using Cons.prems(1) by (auto split: prod.splits sum.splits)
  have q: "TCP_PUBLISHING (be_maps b1) = Map.empty \<and> i \<le> FLOW_INCARNATION_SEQUENCE (be_maps b1)
      \<and> FLOW_INCARNATION_SEQUENCE (be_maps b1) \<le> FLOW_INCARNATION_MAX"
    using quiet_calls.kept_retire_one[of kn b Map.empty i rq counts] one assms(1) Cons.prems(3,5,6) by simp
  have fences: "tuple_retiring (be_maps b1) x = tuple_retiring (be_maps b) x" for x
    using fences.kept_retire_one[of kn b "RETIRE_FENCE (be_maps b)" "RETIRE_ACTIVE (be_maps b)" rq counts] one assms(1)
    by (simp add: tuple_retiring_def)
  obtain outs1 where o: "outs = (outs0 @ [out]) @ outs1" "length outs1 = length rqs"
    and tail: "\<forall>j < length rqs. rqs ! j = \<lparr>rq_key = k, rq_kind = RetireTcp i\<rparr> \<and> settled (outs1 ! j) \<longrightarrow> retired k i (be_maps b')"
    using Cons.IH[OF rest] Cons.prems(2,4) q fences by auto
  have head: "retired k i (be_maps b')" if "rq = \<lparr>rq_key = k, rq_kind = RetireTcp i\<rparr>" "settled out"
  proof -
    have "conn_incarnation (be_maps b1) k \<noteq> Some i"
      using retire_one_tcp[OF assms(1) _ that(2) _ one, of i] Cons.prems(2) that(1) by simp
    then have "retired k i (be_maps b1)" using q Cons.prems(4) by (simp add: retired_def)
    then show ?thesis
      using gone_calls.kept_retire_each[of kn k i b1 rqs "(outs0 @ [out], c1)"] rest assms(1) by simp
  qed
  show ?case
    using o tail head by (intro exI[of _ "out # outs1"]) (auto simp: nth_Cons split: nat.split)
qed simp

lemma request_keys_ok:
  assumes "request_keys rqs = Inr keys"
  shows "map fst keys = map rq_key rqs \<and> (\<forall>rq \<in> set rqs. \<exists>token. request_token rq = Inr token)"
  using assms by (induction rqs arbitrary: keys) (auto split: sum.splits)

lemma map_call_ok: "\<forall>n. \<not> kn_fails kn n \<Longrightarrow> fst (map_call kn f b) = fst (f (kn_run kn (be_calls b) (be_maps b)))"
  by (simp add: map_call_def Let_def case_prod_unfold)

lemma acquire_ok:
  assumes "\<forall>n. \<not> kn_fails kn n" "datapath_runs kn" "set seen = set acq"
    "\<forall>k \<in> fst ` set ks - set acq. RETIRE_FENCE (be_maps b) k = None"
    "\<forall>k \<in> set acq. \<exists>f. RETIRE_FENCE (be_maps b) k = Some f \<and> rf_owner f = ow" "distinct acq"
  shows "\<exists>acq' b'. acquire_fences kn ow ks seen acq b = ((acq', None, False), b')
    \<and> (\<forall>k \<in> set acq'. \<exists>f. RETIRE_FENCE (be_maps b') k = Some f \<and> rf_owner f = ow) \<and> distinct acq'"
  using assms(3-)
proof (induction ks arbitrary: seen acq b)
  case (Cons kt ks)
  obtain key token where kt: "kt = (key, token)" by (cases kt)
  show ?case
  proof (cases "key \<in> set seen")
    case True
    then show ?thesis using Cons.IH[of seen acq b] Cons.prems by (auto simp: kt)
  next
    case False
    let ?f = "\<lparr>rf_owner = ow, rf_decision_token = token\<rparr>"
    obtain r b1 where i: "insert_fence kn key ?f b = (r, b1)" by fastforce
    have "RETIRE_FENCE (be_maps b) key = None" using Cons.prems(1,2) False by (auto simp: kt)
    then have r: "r = Inr ()"
      using i map_call_ok[OF assms(1)] runs_control(1)[OF assms(2)]
      by (auto simp: insert_fence_def map_call_def Let_def assms(1) split: if_splits)
    have f1: "RETIRE_FENCE (be_maps b1) = (RETIRE_FENCE (be_maps b))(key \<mapsto> ?f)"
      using insert_fence_effect(2)[OF assms(2) i r] by simp
    have "\<exists>acq' b'. acquire_fences kn ow ks (key # seen) (acq @ [key]) b1 = ((acq', None, False), b')
        \<and> (\<forall>k \<in> set acq'. \<exists>f. RETIRE_FENCE (be_maps b') k = Some f \<and> rf_owner f = ow) \<and> distinct acq'"
      by (rule Cons.IH) (use Cons.prems False f1 in \<open>auto simp: kt\<close>)
    then show ?thesis using False i r by (simp add: kt)
  qed
qed simp

lemma verify_ok:
  assumes "\<forall>n. \<not> kn_fails kn n" "datapath_runs kn"
    "\<forall>k \<in> set ks. \<exists>f. RETIRE_FENCE (be_maps b) k = Some f \<and> rf_owner f = ow"
  shows "\<exists>b'. verify_fences kn ow ks b = (Inr (), b')"
  using assms(3)
proof (induction ks arbitrary: b)
  case (Cons k ks)
  obtain r b1 where l: "lookup_fence kn k b = (r, b1)" by fastforce
  have r: "r = Inr (RETIRE_FENCE (be_maps b) k)"
    using l runs_control(1)[OF assms(2)] by (auto simp: lookup_fence_def map_call_def Let_def assms(1))
  have "RETIRE_FENCE (be_maps b1) = RETIRE_FENCE (be_maps b)" using lookup_fence_maps(1)[OF assms(2), of k b] l by simp
  then show ?case using Cons.IH[of b1] Cons.prems l r by (auto simp: and_then_def ensure_def)
qed (simp add: return_def)

lemma release_ok:
  assumes "\<forall>n. \<not> kn_fails kn n" "datapath_runs kn" "distinct ks"
    "\<forall>k \<in> set ks. \<exists>f. RETIRE_FENCE (be_maps b) k = Some f \<and> rf_owner f = ow"
  shows "\<exists>b'. release_fences kn ow ks None False b = ((None, False), b')"
  using assms(3-)
proof (induction ks arbitrary: b)
  case (Cons k ks)
  obtain r b1 where l: "release_fence kn ow k b = (r, b1)" by fastforce
  have r: "r = Inr ()"
    using l Cons.prems runs_control(1)[OF assms(2)]
    by (auto simp: release_fence_def and_then_def ensure_def return_def lookup_fence_def remove_fence_def map_call_def
        Let_def assms(1) split: if_splits)
  have "RETIRE_FENCE (be_maps b1) = remove_key k (RETIRE_FENCE (be_maps b))"
    using release_fence_effect(2)[OF assms(2) l r] .
  then have "\<forall>x \<in> set ks. \<exists>f. RETIRE_FENCE (be_maps b1) x = Some f \<and> rf_owner f = ow"
    using Cons.prems by (auto simp: remove_key_def)
  then show ?case using Cons.IH[of b1] Cons.prems l r by simp
qed simp

lemma reads_ok:
  assumes "\<forall>n. \<not> kn_fails kn n"
  shows "\<exists>c b'. lookup_if g (conn_state_lookup kn k) b = (Inr c, b')"
    "\<exists>c b'. lookup_if g (routing_handoff_lookup kn k) b = (Inr c, b')"
    "\<exists>c b'. lookup_if g (redirect_track_lookup kn rk) b = (Inr c, b')"
  by (simp_all add: lookup_if_def return_def conn_state_lookup_def routing_handoff_lookup_def redirect_track_lookup_def
      map_call_def Let_def assms)

lemma removals_ok:
  assumes "\<forall>n. \<not> kn_fails kn n"
  shows "\<exists>c b'. counted_removal g (remove_conn kn k) upd counts b = ((Inr (), c), b')"
    "\<exists>c b'. counted_removal g (remove_handoff kn k) upd counts b = ((Inr (), c), b')"
    "\<exists>c b'. counted_removal g (remove_redirect kn rk) upd counts b = ((Inr (), c), b')"
  by (simp_all add: counted_removal_def remove_conn_def remove_handoff_def remove_redirect_def map_call_def Let_def assms)

lemma owners_nonzero: "owners_distinct s \<Longrightarrow> CONN_STATE_MAP s k = Some c \<Longrightarrow> cs_incarnation c \<noteq> 0"
  unfolding owners_distinct_def owner_of_def by (metis conn_incarnation_def option.simps(9))

lemma execute_ok:
  assumes "\<forall>n. \<not> kn_fails kn n"
  shows "\<exists>out c b'. execute_plan kn rq pl counts b = ((Inr out, c), b') \<and> out \<noteq> NotRun"
proof -
  obtain c1 b1 where 1: "counted_removal (pl_handoff pl) (remove_handoff kn (rq_key rq)) (\<lambda>d c. c\<lparr>rc_handoff := rc_handoff c + d\<rparr>) counts b
      = ((Inr (), c1), b1)" using removals_ok(2)[OF assms] by blast
  obtain c2 b2 where 2: "counted_removal (pl_redirect pl) (remove_redirect kn (from_tuples (rq_key rq)))
      (\<lambda>d c. c\<lparr>rc_redirect := rc_redirect c + d\<rparr>) c1 b1 = ((Inr (), c2), b2)" using removals_ok(3)[OF assms] by blast
  obtain c3 b3 where 3: "counted_removal (pl_conn pl) (remove_conn kn (rq_key rq)) (\<lambda>d c. c\<lparr>rc_conn := rc_conn c + d\<rparr>) c2 b2
      = ((Inr (), c3), b3)" using removals_ok(1)[OF assms] by blast
  show ?thesis by (simp add: execute_plan_def 1 2 3 plan_outcome_def)
qed

lemma retire_one_ok:
  assumes "\<forall>n. \<not> kn_fails kn n" "datapath_runs kn" "owners_distinct (be_maps b)"
  shows "\<exists>out counts' b'. retire_one kn rq counts b = ((Inr out, counts'), b') \<and> out \<noteq> NotRun"
proof -
  let ?k = "rq_key rq" and ?reads = "kind_owner_reads (rq_kind rq)"
  obtain conn b0 where 1: "lookup_if (or_conn ?reads) (conn_state_lookup kn ?k) b = (Inr conn, b0)"
    using reads_ok(1)[OF assms(1)] by blast
  obtain handoff b2 where 2: "lookup_if (or_handoff ?reads) (routing_handoff_lookup kn ?k) b0 = (Inr handoff, b2)"
    using reads_ok(2)[OF assms(1)] by blast
  obtain redirect b1 where 3: "lookup_if (or_redirect ?reads) (redirect_track_lookup kn (from_tuples ?k)) b2 = (Inr redirect, b1)"
    using reads_ok(3)[OF assms(1)] by blast
  let ?ow = "\<lparr>ow_conn = conn, ow_handoff = handoff, ow_redirect = redirect\<rparr>"
  have ro: "read_owners kn rq b = (Inr ?ow, b1)"
    by (simp add: read_owners_def Let_def and_then_def return_def 1 2 3)
  have "cs_incarnation c \<noteq> 0" if "conn = Some c" for c
  proof -
    have "owners_distinct (be_maps b0)"
      using owners_calls.kept_conn_lookup[of kn b ?k] assms(2,3) 1 that by (auto simp: lookup_if_def return_def split: if_splits)
    moreover have "CONN_STATE_MAP (be_maps b0) ?k = Some c"
      using 1 conn_lookup_value[of kn ?k b conn b0] that by (auto simp: lookup_if_def return_def split: if_splits)
    ultimately show ?thesis by (rule owners_nonzero)
  qed
  moreover have "conn \<noteq> None" if "plan_retirement rq ?ow = Inr pl" "pl_conn pl" for pl
    using that by (auto simp: plan_retirement_def conn_plan_def expiry_hint_auxiliary_plan_def plan_auxiliary_def Let_def
        split: retire_kind.splits option.splits if_splits sum.splits commit_result.splits)
  ultimately show ?thesis
    using execute_ok[OF assms(1), of rq _ counts b1]
    by (auto simp: retire_one_def ro split: sum.split option.split)
qed

lemma retire_each_ok:
  assumes "\<forall>n. \<not> kn_fails kn n" "datapath_runs kn" "owners_distinct (be_maps b)" "NotRun \<notin> set outs0"
  shows "\<exists>outs counts' b'. retire_each kn rqs (outs0, counts) b = ((Inr (), outs, counts'), b')
    \<and> length outs = length outs0 + length rqs \<and> NotRun \<notin> set outs"
  using assms(3,4)
proof (induction rqs arbitrary: outs0 counts b)
  case (Cons rq rqs)
  obtain out c1 b1 where one: "retire_one kn rq counts b = ((Inr out, c1), b1)" "out \<noteq> NotRun"
    using retire_one_ok[OF assms(1,2) Cons.prems(1)] by blast
  have "owners_distinct (be_maps b1)" using owners_calls.kept_retire_one[of kn b rq counts] one assms(2) Cons.prems by simp
  then show ?case using Cons.IH[of b1 "outs0 @ [out]" c1] Cons.prems one by fastforce
qed simp

end
