(* ===== verification/Ownership.thy ===== *)
theory Ownership
  imports Retirement
begin

text \<open>
  What the classifiers and the control plane guarantee about a flow together: who owns a tuple,
  what a fence freezes, what a retirement or a committed decision leaves behind, and how the
  backend fails. The statements range over runs of the classifiers (\<open>packet_step\<close>) or of the whole
  system (\<open>system_step\<close>); the instances below them use the concrete flows defined first.
\<close>

section \<open>Definitions\<close>

text \<open>The specification of a commit: one atomic step on the three entries of a tuple.\<close>

definition commit_spec :: "u32 \<Rightarrow> u64 \<Rightarrow> udp_decision_transition \<Rightarrow> owners \<Rightarrow> commit_result \<times> owners" where
  "commit_spec token incarnation tr ow =
     (case ow_conn ow of
        None \<Rightarrow> (Missing, ow)
      | Some state \<Rightarrow>
          if cs_decision_token state \<noteq> token \<or> cs_incarnation state \<noteq> incarnation then (TokenMismatch, ow)
          else case plan_udp_commit state token tr (ow_handoff ow) (ow_redirect ow) of
            Inl r \<Rightarrow> (r, ow)
          | Inr plan \<Rightarrow>
              (Applied,
               \<lparr>ow_conn = Some (cp_state plan),
                ow_handoff = None,
                ow_redirect = (case cp_redirect plan of Some (EffectRewrite r) \<Rightarrow> Some r | _ \<Rightarrow> None)\<rparr>))"

text \<open>What the instances look at after the classifier's run on a first datagram.\<close>

definition flow_summary ::
  "dp \<Rightarrow> tuples_key \<Rightarrow> u64 option \<times> bool option \<times> (u64 \<times> u32) option \<times> (u64 \<times> u32) option"
where
  "flow_summary s k =
     (conn_incarnation s k, map_option udp_settled (CONN_STATE_MAP s k),
      map_option (\<lambda>r. (re_incarnation r, re_decision_token r)) (REDIRECT_TRACK s (from_tuples k)),
      map_option (\<lambda>h. (he_incarnation h, rr_decision_token (he_result h))) (ROUTING_HANDOFF_MAP s k))"

text \<open>A kernel in which no call fails and no packet arrives between two calls.\<close>

definition idle_kernel :: kernel where
  "idle_kernel = \<lparr>kn_run = (\<lambda>_ s. s), kn_fails = (\<lambda>_. False), kn_conn_keys = (\<lambda>_. [udp6_key]),
     kn_fence_keys = (\<lambda>_. []), kn_handoff_keys = (\<lambda>_. [udp6_key]), kn_redirect_keys = (\<lambda>_. [from_tuples udp6_key]),
     kn_batches = (\<lambda>_. []), kn_batch_errno = (\<lambda>_. LIBC_ENOENT)\<rparr>"

definition sample_backend :: "dp \<Rightarrow> backend" where
  "sample_backend s = \<lparr>be_maps = s, be_calls = 0, retirement_failed = False, retirement_owner = 0,
     udp_staging_quiesce_incomplete = False, cap_lookup_batch = False, cap_flow_lookup_batch = False, listeners_published = True, aux_deletes_redirect = 0,
     aux_deletes_handoff = 0, USERSPACE_CONN_STATE_DELETES = 0, routing_generation = None,
     routing_generation_counter = 0, routing_generation_sequence = 0, ROUTING_POLICY_ROOT = None\<rparr>"

definition tcp_key :: tuples_key where
  "tcp_key = udp6_key\<lparr>l4proto := IPPROTO_TCP\<rparr>"

text \<open>An established TCP flow of incarnation 41.\<close>

definition tcp_dp :: dp where
  "tcp_dp = sample_dp\<lparr>CONN_STATE_MAP := [tcp_key \<mapsto> zero_conn\<lparr>cs_incarnation := 41\<rparr>]\<rparr>"

definition tcp_request :: retire_request where
  "tcp_request = \<lparr>rq_key = tcp_key, rq_kind = RetireTcp 41\<rparr>"

definition retired_tcp :: "((be_error + unit) \<times> retire_outcome list \<times> retire_counts) \<times> backend" where
  "retired_tcp = retire_flows idle_kernel [tcp_request] 1 (sample_backend tcp_dp)"

text \<open>A UDP flow staged under token 7, already fenced.\<close>

definition staged_entry :: conn_state where
  "staged_entry = zero_conn\<lparr>cs_state := udp_state_u8 Pending, cs_decision_token := 7, cs_incarnation := 40\<rparr>"

definition staged_dp :: dp where
  "staged_dp = sample_dp\<lparr>CONN_STATE_MAP := [udp6_key \<mapsto> staged_entry],
     REDIRECT_TRACK := [from_tuples udp6_key \<mapsto> \<lparr>re_last_seen_ns = 1, re_dmac = [], re_smac = [], re_from_wan = 0,
       re_outbound = 2, re_ifindex = 4, re_decision_token = 7, re_incarnation = 40\<rparr>],
     ROUTING_HANDOFF_MAP := [udp6_key \<mapsto> \<lparr>he_last_seen_ns = 1, he_result = \<lparr>rr_mark = 0, rr_must = 0, rr_mac = [],
       rr_outbound = 2, rr_pname = [], rr_pid = 0, rr_dscp = 0, rr_decision_token = 7\<rparr>,
       he_routing_generation = 1, he_trace_id = 0, he_incarnation = 40\<rparr>],
     RETIRE_ACTIVE := 1,
     RETIRE_FENCE := [udp6_key \<mapsto> \<lparr>rf_owner = 1, rf_decision_token = 7\<rparr>]\<rparr>"

section \<open>Concrete runs\<close>

lemma sample_steps: "rtranclp packet_step sample_dp after_udp" "rtranclp packet_step after_udp after_udp_again"
  using step_lan_ingress_l3[of "sample_tc udp6_skb sample_dp" sample_env sample_pe wire_types]
    step_lan_ingress_l3[of "sample_tc udp6_skb after_udp" sample_env sample_pe wire_types]
  by (simp_all add: after_udp_def after_udp_again_def sample_tc_def)

lemma sample_summary: "flow_summary after_udp udp6_key = (Some 42, Some True, Some (42, 0), Some (42, 0))"
  by code_simp

lemma sample_flow:
  "conn_incarnation after_udp udp6_key = Some 42"
  "map_option udp_settled (CONN_STATE_MAP after_udp udp6_key) = Some True"
  "map_option (\<lambda>r. (re_incarnation r, re_decision_token r)) (REDIRECT_TRACK after_udp (from_tuples udp6_key)) = Some (42, 0)"
  using sample_summary by (simp_all add: flow_summary_def)

lemma sample_key [simp]: "l4proto udp6_key \<noteq> IPPROTO_TCP"
  by (simp add: udp6_key_def IPPROTO_TCP_def IPPROTO_UDP_def)

lemma idle_runs [simp]: "datapath_runs idle_kernel"
  by (simp add: datapath_runs_def idle_kernel_def)

lemma idle_succeeds [simp]: "\<not> kn_fails idle_kernel n"
  by (simp add: idle_kernel_def)

lemma backend_maps [simp]: "be_maps (sample_backend s) = s"
  by (simp add: sample_backend_def)

lemma run_system: "rtranclp packet_step s s' \<Longrightarrow> rtranclp system_step (sample_backend s) (sample_backend s')"
proof (induction rule: rtranclp_induct)
  case (step t t')
  have "(sample_backend t)\<lparr>be_maps := t'\<rparr> = sample_backend t'" by (simp add: sample_backend_def)
  then show ?case using step sys_packet[of "sample_backend t" t'] by (metis backend_maps rtranclp.rtrancl_into_rtrancl)
qed simp

lemma tcp_run: "fst retired_tcp = (Inr (), [ConnRetired], \<lparr>rc_conn = 1, rc_redirect = 0, rc_handoff = 0\<rparr>)"
  by code_simp

lemma tcp_owners: "owners_distinct tcp_dp"
  by (auto simp: owners_distinct_def owner_of_def conn_incarnation_def tcp_dp_def sample_dp_def FLOW_INCARNATION_MAX_def
      split: if_splits)

lemma staged_fenced: "tuple_retiring staged_dp udp6_key"
  by (simp add: tuple_retiring_def staged_dp_def)

section \<open>One owner per incarnation\<close>

text \<open>C5. No two tuples ever share an incarnation. From empty connection and publisher maps, whatever
  the classifiers, the retirements, the commits and the settings of the control plane do and in
  whatever order, two connection entries with the same incarnation are the same entry, and every
  incarnation in use was issued by the counter, which stays in its domain.\<close>

theorem incarnations_unique:
  assumes "rtranclp system_step b b'"
    and "CONN_STATE_MAP (be_maps b) = Map.empty" "TCP_PUBLISHING (be_maps b) = Map.empty"
    and "FLOW_INCARNATION_SEQUENCE (be_maps b) \<le> FLOW_INCARNATION_MAX"
    and "conn_incarnation (be_maps b') k = Some i" "conn_incarnation (be_maps b') k' = Some i"
  shows "k' = k \<and> 0 < i \<and> i \<le> FLOW_INCARNATION_SEQUENCE (be_maps b')
    \<and> FLOW_INCARNATION_SEQUENCE (be_maps b') \<le> FLOW_INCARNATION_MAX"
proof -
  have "owners_distinct (be_maps b)"
    using assms(2-4) by (simp add: owners_distinct_def owner_of_def conn_incarnation_def)
  then have "owners_distinct (be_maps b')" by (rule sys_owners.system_steps_kept[OF assms(1)])
  moreover have "owner_of (be_maps b') k i" "owner_of (be_maps b') k' i" using assms(5,6) by (simp_all add: owner_of_def)
  ultimately show ?thesis unfolding owners_distinct_def by (metis word_coorder.not_eq_extremum)
qed

theorem incarnations_unique_witness:
  "(0::u64) < 42 \<and> 42 \<le> FLOW_INCARNATION_SEQUENCE after_udp"
  using incarnations_unique[OF run_system[OF sample_steps(1)], of udp6_key 42 udp6_key] sample_flow(1)
  by (simp add: sample_dp_def FLOW_INCARNATION_MAX_def)

text \<open>C21. An incarnation that lost its tuple never owns it again: once the entry of a tuple does not
  carry an issued incarnation and no publisher holds it, no later step of the whole system brings
  it back.\<close>

theorem retired_forever:
  assumes "rtranclp system_step b b'" "conn_incarnation (be_maps b) k \<noteq> Some i" "TCP_PUBLISHING (be_maps b) k = None"
    and "0 < i" "i \<le> FLOW_INCARNATION_SEQUENCE (be_maps b)" "FLOW_INCARNATION_SEQUENCE (be_maps b) \<le> FLOW_INCARNATION_MAX"
  shows "conn_incarnation (be_maps b') k \<noteq> Some i"
proof -
  have "retired k i (be_maps b)" using assms(2-) by (simp add: retired_def word_gt_0)
  with assms(1) have "retired k i (be_maps b')" by (rule sys_gone.system_steps_kept)
  then show ?thesis by (simp add: retired_def)
qed

theorem retired_forever_witness:
  "conn_incarnation after_udp udp6_key \<noteq> Some 41"
  using retired_forever[OF run_system[OF sample_steps(1)], of udp6_key 41]
  by (simp add: sample_dp_def conn_incarnation_def FLOW_INCARNATION_MAX_def)

text \<open>C2. A settled TCP retirement is final. When a batch succeeds and reports the outcome of a TCP
  request as settled, no later step of the system shows that incarnation on that tuple again,
  although classifiers run between the calls of the batch and afterwards.\<close>

theorem settled_tcp_gone:
  assumes "datapath_runs kn" "retire_flows kn rqs n b = ((Inr (), outs, counts), b')"
    and "TCP_PUBLISHING (be_maps b) = Map.empty" "FLOW_INCARNATION_SEQUENCE (be_maps b) \<le> FLOW_INCARNATION_MAX"
    and "j < length rqs" "rqs ! j = \<lparr>rq_key = k, rq_kind = RetireTcp i\<rparr>" "i \<le> FLOW_INCARNATION_SEQUENCE (be_maps b)"
    and "settled (outs ! j)"
    and "rtranclp system_step b' b''"
  shows "conn_incarnation (be_maps b'') k \<noteq> Some i"
proof -
  obtain keys b1 where keys: "request_keys rqs = Inr keys" and
    w: "with_retirement_fences kn keys (\<lambda>_. retire_each kn rqs ([], zero_counts)) (replicate n NotRun, zero_counts) b
      = ((Inr (), outs, counts), b1)" and b': "b' = account_retirement counts b1"
    using assms(2,5) by (auto simp: retire_flows_def Let_def split: if_splits sum.splits prod.splits)
  have rq: "\<lparr>rq_key = k, rq_kind = RetireTcp i\<rparr> \<in> set rqs" using assms(5,6) by (metis nth_mem)
  note ok = request_keys_ok[OF keys]
  have i: "i \<noteq> 0" using ok rq by (auto simp: request_token_def Let_def split: if_splits)
  have "datapath_runs kn \<and> retired k i (be_maps b1)"
  proof (rule quiet_calls.batch_post[OF _ w gone_calls.shared_maps_axioms])
    fix b0 b4
    assume q: "datapath_runs kn \<and> TCP_PUBLISHING (be_maps b0) = Map.empty \<and> i \<le> FLOW_INCARNATION_SEQUENCE (be_maps b0)
        \<and> FLOW_INCARNATION_SEQUENCE (be_maps b0) \<le> FLOW_INCARNATION_MAX"
      and f: "fences_held keys (be_maps b0)"
      and op: "retire_each kn rqs ([], zero_counts) b0 = ((Inr (), outs, counts), b4)"
    have "\<forall>rq \<in> set rqs. tuple_retiring (be_maps b0) (rq_key rq)"
      using f ok unfolding fences_held_def by (metis image_eqI list.set_map)
    then show "datapath_runs kn \<and> retired k i (be_maps b4)"
      using retire_each_tcp[OF assms(1) op, of i k] q i assms(5,6,8) by auto
  qed (use assms(1,3,4,7) in simp)
  then have "retired k i (be_maps b')" by (simp add: b' account_retirement_def)
  then have "retired k i (be_maps b'')" by (rule sys_gone.system_steps_kept[OF assms(9)])
  then show ?thesis by (simp add: retired_def)
qed

theorem settled_tcp_gone_witness:
  "conn_incarnation (be_maps (snd retired_tcp)) tcp_key \<noteq> Some 41"
proof -
  have run: "retire_flows idle_kernel [tcp_request] 1 (sample_backend tcp_dp)
      = ((Inr (), [ConnRetired], \<lparr>rc_conn = 1, rc_redirect = 0, rc_handoff = 0\<rparr>), snd retired_tcp)"
    using tcp_run by (metis prod.collapse retired_tcp_def)
  show ?thesis
    by (rule settled_tcp_gone[OF idle_runs run, of 0 tcp_key 41])
       (simp_all add: tcp_dp_def sample_dp_def tcp_request_def FLOW_INCARNATION_MAX_def settled_def)
qed

section \<open>What a fence freezes\<close>

text \<open>C8. While a tuple is fenced the classifiers leave it alone: the fence stays, the incarnation of its
  connection entry and its redirect and hand-off entries do not change, and a settled connection
  entry is not written at all.\<close>

theorem fence_freezes_flow:
  assumes "rtranclp packet_step s s'" "tuple_retiring s k"
  shows "tuple_retiring s' k \<and> conn_incarnation s' k = conn_incarnation s k
    \<and> REDIRECT_TRACK s' (from_tuples k) = REDIRECT_TRACK s (from_tuples k)
    \<and> ROUTING_HANDOFF_MAP s' k = ROUTING_HANDOFF_MAP s k
    \<and> (\<forall>c. CONN_STATE_MAP s k = Some c \<and> udp_settled c \<longrightarrow> CONN_STATE_MAP s' k = Some c)"
  using fenced.steps_kept[OF assms(1), of k "conn_incarnation s k" "REDIRECT_TRACK s (from_tuples k)"
      "ROUTING_HANDOFF_MAP s k"] fenced_conn.steps_kept[OF assms(1), of k] assms(2)
  by auto

theorem fence_freezes_flow_witness:
  "CONN_STATE_MAP (tc_dp (snd (lan_ingress_l3 sample_env sample_pe wire_types (sample_tc udp6_skb staged_dp)))) udp6_key
   = Some staged_entry"
proof -
  have "rtranclp packet_step staged_dp
      (tc_dp (snd (lan_ingress_l3 sample_env sample_pe wire_types (sample_tc udp6_skb staged_dp))))"
    using step_lan_ingress_l3[of "sample_tc udp6_skb staged_dp" sample_env sample_pe wire_types]
    by (simp add: sample_tc_def)
  moreover have "CONN_STATE_MAP staged_dp udp6_key = Some staged_entry" "udp_settled staged_entry"
    by (simp_all add: staged_dp_def staged_entry_def udp_settled_def)
  ultimately show ?thesis using fence_freezes_flow staged_fenced by blast
qed

text \<open>C4. A retirement is atomic. On a fenced tuple, \<open>retire_one\<close>, which reads and deletes in up to six
  calls with classifiers running in between, has the outcome and the effect of one step of
  \<open>retire_spec\<close> on the connection, hand-off and redirect entries of the tuple; a settled connection
  entry is judged exactly as it was at the start.\<close>

theorem retire_one_atomic:
  assumes "datapath_runs kn" "tuple_retiring (be_maps b) (rq_key rq)"
    and "retire_one kn rq counts b = ((Inr out, counts'), b')"
  shows "\<exists>conn ow.
      map_option cs_incarnation conn = conn_incarnation (be_maps b) (rq_key rq)
    \<and> (\<forall>c0. CONN_STATE_MAP (be_maps b) (rq_key rq) = Some c0 \<and> udp_settled c0 \<longrightarrow> conn = Some c0)
    \<and> retire_spec rq \<lparr>ow_conn = conn, ow_handoff = ROUTING_HANDOFF_MAP (be_maps b) (rq_key rq),
        ow_redirect = REDIRECT_TRACK (be_maps b) (from_tuples (rq_key rq))\<rparr> = (out, ow)
    \<and> conn_incarnation (be_maps b') (rq_key rq) = map_option cs_incarnation (ow_conn ow)
    \<and> ROUTING_HANDOFF_MAP (be_maps b') (rq_key rq) = ow_handoff ow
    \<and> REDIRECT_TRACK (be_maps b') (from_tuples (rq_key rq)) = ow_redirect ow"
  by (rule retire_one_spec[OF assms])

theorem retire_one_atomic_witness:
  "\<exists>out b'. retire_one idle_kernel (pending_udp udp6_key 7 (Some 40)) zero_counts (sample_backend staged_dp) = ((Inr out, \<lparr>rc_conn = 1, rc_redirect = 1, rc_handoff = 1\<rparr>), b')
    \<and> conn_incarnation (be_maps b') udp6_key = None \<and> REDIRECT_TRACK (be_maps b') (from_tuples udp6_key) = None"
proof -
  let ?rq = "pending_udp udp6_key 7 (Some 40)"
  let ?run = "retire_one idle_kernel ?rq zero_counts (sample_backend staged_dp)"
  have "fst ?run = (Inr ConnRetired, \<lparr>rc_conn = 1, rc_redirect = 1, rc_handoff = 1\<rparr>)" by code_simp
  then have run: "?run = ((Inr ConnRetired, \<lparr>rc_conn = 1, rc_redirect = 1, rc_handoff = 1\<rparr>), snd ?run)"
    by (metis prod.collapse)
  have k: "rq_key ?rq = udp6_key" by (simp add: pending_udp_def)
  have c: "CONN_STATE_MAP staged_dp udp6_key = Some staged_entry" "udp_settled staged_entry"
    by (simp_all add: staged_dp_def staged_entry_def udp_settled_def)
  have spec: "snd (retire_spec ?rq \<lparr>ow_conn = Some staged_entry, ow_handoff = ROUTING_HANDOFF_MAP staged_dp udp6_key,
      ow_redirect = REDIRECT_TRACK staged_dp (from_tuples udp6_key)\<rparr>) = \<lparr>ow_conn = None, ow_handoff = None, ow_redirect = None\<rparr>"
    by code_simp
  obtain ow where "retire_spec ?rq \<lparr>ow_conn = Some staged_entry, ow_handoff = ROUTING_HANDOFF_MAP staged_dp udp6_key,
        ow_redirect = REDIRECT_TRACK staged_dp (from_tuples udp6_key)\<rparr> = (ConnRetired, ow)"
      "conn_incarnation (be_maps (snd ?run)) udp6_key = map_option cs_incarnation (ow_conn ow)"
      "REDIRECT_TRACK (be_maps (snd ?run)) (from_tuples udp6_key) = ow_redirect ow"
    using retire_one_atomic[OF idle_runs _ run] staged_fenced c unfolding k backend_maps by metis
  then show ?thesis using spec run by (intro exI[of _ "ConnRetired"] exI[of _ "snd ?run"]) simp
qed

section \<open>Commits\<close>

lemma insert_redirect_view:
  assumes "fenced_view kn k i r h (be_maps b)" "flow_insert_redirect kn (from_tuples k) r' b = (Inr u, b1)"
  shows "fenced_view kn k i (Some r') h (be_maps b1)"
  using assms(2) view_run[OF assms(1)]
  by (auto simp: flow_insert_redirect_def map_call_def Let_def fenced_view_def tuple_retiring_def conn_incarnation_def
      split: if_splits)

lemma insert_conn_view:
  assumes "fenced_view kn k i r h (be_maps b)" "flow_insert_conn kn k c b = (Inr u, b1)"
  shows "fenced_view kn k (Some (cs_incarnation c)) r h (be_maps b1) \<and> CONN_STATE_MAP (be_maps b1) k = Some c"
  using assms(2) view_run[OF assms(1)]
  by (auto simp: flow_insert_conn_def map_call_def Let_def fenced_view_def tuple_retiring_def conn_incarnation_def
      split: if_splits)

lemma apply_plan_view:
  assumes "fenced_view kn k i r h (be_maps b)" "apply_commit_plan kn k pl b = (Inr out, b')"
    and "cp_remove_handoff pl = (h \<noteq> None)" "(cp_redirect pl = None) = (r = None)"
  shows "out = Applied
    \<and> fenced_view kn k (Some (cs_incarnation (cp_state pl)))
        (case cp_redirect pl of Some (EffectRewrite r') \<Rightarrow> Some r' | _ \<Rightarrow> None) None (be_maps b')
    \<and> CONN_STATE_MAP (be_maps b') k = Some (cp_state pl)"
proof -
  obtain b1 b2 where
    1: "(if cp_remove_handoff pl
        then and_then (remove_handoff kn k) (\<lambda>_ b. (Inr (), b\<lparr>aux_deletes_handoff := aux_deletes_handoff b + 1\<rparr>))
        else return ()) b = (Inr (), b1)" and
    2: "(case cp_redirect pl of
          Some (EffectRewrite entry) \<Rightarrow> flow_insert_redirect kn (from_tuples k) entry
        | Some EffectRemove \<Rightarrow>
            and_then (remove_redirect kn (from_tuples k)) (\<lambda>_ b.
              (Inr (), b\<lparr>aux_deletes_redirect := aux_deletes_redirect b + 1\<rparr>))
        | None \<Rightarrow> return ()) b1 = (Inr (), b2)" and
    3: "flow_insert_conn kn k (cp_state pl) b2 = (Inr (), b')" and out: "out = Applied"
    using assms(2) unfolding apply_commit_plan_def
    by (auto simp: and_then_def[of "if _ then _ else _"] and_then_def[of "case_option _ _ _"]
        and_then_def[of "flow_insert_conn _ _ _"] return_def[of Applied] split: prod.splits sum.splits)
  have v1: "fenced_view kn k i r None (be_maps b1)"
    using 1 assms(1,3) remove_handoff_view[OF assms(1)]
    by (cases h) (auto simp: and_then_def return_def split: prod.splits sum.splits)
  have v2: "fenced_view kn k i (case cp_redirect pl of Some (EffectRewrite r') \<Rightarrow> Some r' | _ \<Rightarrow> None) None (be_maps b2)"
    using 2 v1 assms(4) remove_redirect_view[OF v1] insert_redirect_view[OF v1]
    by (auto simp: and_then_def return_def split: prod.splits sum.splits option.splits redirect_effect.splits)
  show ?thesis using insert_conn_view[OF v2 3] out by simp
qed

lemma plan_commit_effects:
  assumes "plan_udp_commit c token tr handoff track = Inr pl"
  shows "cp_remove_handoff pl = (handoff \<noteq> None)" "(cp_redirect pl = None) = (track = None)"
  using assms by (auto simp: plan_udp_commit_def Let_def split: sum.splits if_splits)

lemma conn_lookup_view:
  assumes "fenced_view kn k i r h (be_maps b)" "conn_state_lookup kn k b = (Inr c, b1)"
  shows "fenced_view kn k i r h (be_maps b1) \<and> map_option cs_incarnation c = i
    \<and> (\<forall>c0. CONN_STATE_MAP (be_maps b) k = Some c0 \<and> udp_settled c0 \<longrightarrow> c = Some c0)"
proof -
  have v: "fenced_view kn k i r h (be_maps b1)" using view.kept_conn_lookup[OF assms(1), of k] assms(2) by simp
  have c: "CONN_STATE_MAP (be_maps b1) k = c" by (rule conn_lookup_value[OF assms(2)])
  have "c = Some c0" if "CONN_STATE_MAP (be_maps b) k = Some c0 \<and> udp_settled c0" for c0
    using that assms c commit_view.kept_conn_lookup[of kn k c0 b k] by (simp add: committing_def fenced_view_def)
  then show ?thesis using v c by (simp add: fenced_view_def conn_incarnation_def)
qed

text \<open>C6. A commit of a UDP decision is atomic. On a fenced tuple, \<open>commit_udp_checked\<close>, which reads three
  maps and writes three maps with classifiers running in between, has the result and the effect of
  one step of \<open>commit_spec\<close>: a refusal leaves the entries as they are, and \<open>Applied\<close> leaves the
  connection entry of the transition, no hand-off, and the redirect the transition asks for.\<close>

theorem commit_atomic:
  assumes "datapath_runs kn" "tuple_retiring (be_maps b) key"
    and "commit_udp_checked kn key token incarnation tr b = (Inr out, b')"
  shows "\<exists>conn ow.
      map_option cs_incarnation conn = conn_incarnation (be_maps b) key
    \<and> (\<forall>c0. CONN_STATE_MAP (be_maps b) key = Some c0 \<and> udp_settled c0 \<longrightarrow> conn = Some c0)
    \<and> commit_spec token incarnation tr \<lparr>ow_conn = conn, ow_handoff = ROUTING_HANDOFF_MAP (be_maps b) key,
        ow_redirect = REDIRECT_TRACK (be_maps b) (from_tuples key)\<rparr> = (out, ow)
    \<and> conn_incarnation (be_maps b') key = map_option cs_incarnation (ow_conn ow)
    \<and> (out = Applied \<longrightarrow> CONN_STATE_MAP (be_maps b') key = ow_conn ow)
    \<and> ROUTING_HANDOFF_MAP (be_maps b') key = ow_handoff ow
    \<and> REDIRECT_TRACK (be_maps b') (from_tuples key) = ow_redirect ow"
proof -
  let ?s = "be_maps b"
  let ?i = "conn_incarnation ?s key" and ?r = "REDIRECT_TRACK ?s (from_tuples key)" and ?h = "ROUTING_HANDOFF_MAP ?s key"
  have v: "fenced_view kn key ?i ?r ?h ?s" using assms(1,2) by (simp add: fenced_view_def)
  obtain c b1 where l: "conn_state_lookup kn key b = (Inr c, b1)"
    using assms(3) by (auto simp: commit_udp_checked_def and_then_def split: prod.splits sum.splits)
  note c = conn_lookup_view[OF v l]
  let ?ow = "\<lparr>ow_conn = c, ow_handoff = ?h, ow_redirect = ?r\<rparr>"
  have "\<exists>ow. commit_spec token incarnation tr ?ow = (out, ow)
      \<and> fenced_view kn key (map_option cs_incarnation (ow_conn ow)) (ow_redirect ow) (ow_handoff ow) (be_maps b')
      \<and> (out = Applied \<longrightarrow> CONN_STATE_MAP (be_maps b') key = ow_conn ow)"
  proof (cases "\<exists>state. c = Some state \<and> cs_decision_token state = token \<and> cs_incarnation state = incarnation")
    case False
    then show ?thesis using assms(3) l c
      by (auto simp: commit_udp_checked_def commit_spec_def and_then_def return_def split: option.splits if_splits)
  next
    case True
    then obtain st where st: "c = Some st" "cs_decision_token st = token" "cs_incarnation st = incarnation" by blast
    obtain h b2 r b3 where lh: "routing_handoff_lookup kn key b1 = (Inr h, b2)"
      and lr: "redirect_track_lookup kn (from_tuples key) b2 = (Inr r, b3)"
      and rest: "(case plan_udp_commit st token tr h r of
          Inl result \<Rightarrow> return result | Inr plan \<Rightarrow> apply_commit_plan kn key plan) b3 = (Inr out, b')"
      using assms(3) l st
      by (auto simp: commit_udp_checked_def and_then_def ensure_def split: prod.splits sum.splits if_splits)
    have v2: "fenced_view kn key ?i ?r ?h (be_maps b2)"
      using view.kept_handoff_lookup[of kn key ?i ?r ?h b1 key] c lh by simp
    have v3: "fenced_view kn key ?i ?r ?h (be_maps b3)"
      using view.kept_redirect_lookup[OF v2, of "from_tuples key"] lr by simp
    have h: "h = ?h" using handoff_lookup_value[OF lh] v2 by (simp add: fenced_view_def)
    have r: "r = ?r" using redirect_lookup_value[OF lr] v3 by (simp add: fenced_view_def)
    show ?thesis
    proof (cases "plan_udp_commit st token tr ?h ?r")
      case (Inl res)
      then have "res \<noteq> Applied"
        by (auto simp: plan_udp_commit_def apply_udp_decision_transition_def Let_def
            split: sum.splits if_splits udp_decision_transition.splits)
      then show ?thesis using Inl rest st h r c v3 by (auto simp: commit_spec_def return_def)
    next
      case (Inr pl)
      have a: "apply_commit_plan kn key pl b3 = (Inr out, b')" using rest Inr h r by simp
      have "out = Applied
        \<and> fenced_view kn key (Some (cs_incarnation (cp_state pl)))
            (case cp_redirect pl of Some (EffectRewrite r') \<Rightarrow> Some r' | _ \<Rightarrow> None) None (be_maps b')
        \<and> CONN_STATE_MAP (be_maps b') key = Some (cp_state pl)"
        by (rule apply_plan_view[OF v3 a]) (rule plan_commit_effects[OF Inr])+
      then show ?thesis using Inr st by (simp add: commit_spec_def)
    qed
  qed
  then show ?thesis using c by (auto simp: fenced_view_def)
qed

theorem commit_atomic_witness:
  "\<exists>b'. commit_udp_checked idle_kernel udp6_key 7 40 (ActivateProxy 3 0) (sample_backend staged_dp) = (Inr Applied, b')
    \<and> map_option cs_state (CONN_STATE_MAP (be_maps b') udp6_key) = Some (udp_state_u8 Proxy)
    \<and> ROUTING_HANDOFF_MAP (be_maps b') udp6_key = None
    \<and> map_option re_outbound (REDIRECT_TRACK (be_maps b') (from_tuples udp6_key)) = Some 3"
proof -
  let ?run = "commit_udp_checked idle_kernel udp6_key 7 40 (ActivateProxy 3 0) (sample_backend staged_dp)"
  let ?ow = "\<lparr>ow_conn = Some staged_entry, ow_handoff = ROUTING_HANDOFF_MAP staged_dp udp6_key,
        ow_redirect = REDIRECT_TRACK staged_dp (from_tuples udp6_key)\<rparr>"
  have "fst ?run = Inr Applied" by code_simp
  then have run: "?run = (Inr Applied, snd ?run)" by (metis prod.collapse)
  have c: "CONN_STATE_MAP staged_dp udp6_key = Some staged_entry" "udp_settled staged_entry"
    by (simp_all add: staged_dp_def staged_entry_def udp_settled_def)
  have spec: "(let ow = snd (commit_spec 7 40 (ActivateProxy 3 0) ?ow) in
      (map_option cs_state (ow_conn ow), ow_handoff ow, map_option re_outbound (ow_redirect ow)))
      = (Some (udp_state_u8 Proxy), None, Some 3)"
    by code_simp
  obtain ow where "commit_spec 7 40 (ActivateProxy 3 0) ?ow = (Applied, ow)"
      "CONN_STATE_MAP (be_maps (snd ?run)) udp6_key = ow_conn ow"
      "ROUTING_HANDOFF_MAP (be_maps (snd ?run)) udp6_key = ow_handoff ow"
      "REDIRECT_TRACK (be_maps (snd ?run)) (from_tuples udp6_key) = ow_redirect ow"
    using commit_atomic[OF idle_runs _ run] staged_fenced c unfolding backend_maps by metis
  then show ?thesis using spec run by (intro exI[of _ "snd ?run"]) (simp add: Let_def)
qed

section \<open>Completion and failure of the protocol\<close>

lemma retire_each_fences:
  assumes "datapath_runs kn"
  shows "RETIRE_FENCE (be_maps (snd (retire_each kn rqs oc b))) = RETIRE_FENCE (be_maps b)"
    "retirement_failed (snd (retire_each kn rqs oc b)) = retirement_failed b"
  using fences.kept_retire_each[of kn b "RETIRE_FENCE (be_maps b)" "RETIRE_ACTIVE (be_maps b)" rqs oc]
    failed_calls.kept_retire_each[of b "retirement_failed b" kn rqs oc] assms by simp_all

text \<open>C7. A retirement batch completes. If no call fails, no earlier batch is unresolved, the owner
  numbers are not used up, no two tuples share an incarnation, the batch is within capacity and well
  formed and none of its tuples is fenced, then \<open>retire_flows\<close> succeeds with
  one real outcome per request, and every fence it took is released, whatever the classifiers do in
  between.\<close>

theorem retirement_completes:
  assumes "datapath_runs kn" "\<forall>n. \<not> kn_fails kn n" "owners_distinct (be_maps b)"
    and "\<not> retirement_failed b" "retirement_owner b \<noteq> - 1"
    and "length rqs \<le> RETIRE_BATCH_CAPACITY" "request_keys rqs = Inr keys"
    and "\<forall>rq \<in> set rqs. RETIRE_FENCE (be_maps b) (rq_key rq) = None"
  shows "\<exists>outs counts b'. retire_flows kn rqs (length rqs) b = ((Inr (), outs, counts), b')
    \<and> length outs = length rqs \<and> NotRun \<notin> set outs \<and> \<not> retirement_failed b'
    \<and> RETIRE_FENCE (be_maps b') = RETIRE_FENCE (be_maps b)"
proof (cases "rqs = []")
  case True
  then show ?thesis using assms(4) by (simp add: retire_flows_def account_retirement_def zero_counts_def)
next
  case False
  let ?o = "retirement_owner b + 1" and ?b1 = "b\<lparr>retirement_owner := retirement_owner b + 1\<rparr>"
  let ?op = "\<lambda>_. retire_each kn rqs ([], zero_counts)" and ?c = "(replicate (length rqs) NotRun, zero_counts)"
  note ok = request_keys_ok[OF assms(7)]
  have len: "length keys = length rqs" using ok by (metis length_map)
  obtain b2 where 2: "set_retire_active kn 1 ?b1 = (Inr (), b2)"
    by (simp add: set_retire_active_def map_call_def Let_def assms(2))
  have f2: "RETIRE_FENCE (be_maps b2) = RETIRE_FENCE (be_maps b)" using set_active_effect(1)[OF assms(1) 2] by simp
  have "\<forall>k \<in> fst ` set keys. RETIRE_FENCE (be_maps b2) k = None"
    using assms(8) ok f2 by (metis (no_types, lifting) image_iff list.set_map)
  then obtain acq b3 where 3: "acquire_fences kn ?o keys [] [] b2 = ((acq, None, False), b3)"
    and own: "\<forall>k \<in> set acq. \<exists>f. RETIRE_FENCE (be_maps b3) k = Some f \<and> rf_owner f = ?o" and d: "distinct acq"
    using acquire_ok[OF assms(2,1), of "[]" "[]" keys b2 ?o] by auto
  have j2: "owners_distinct (be_maps b2)"
    using owners_calls.kept_set_active[of kn ?b1 1] assms(1,3) 2 by simp
  have j3: "owners_distinct (be_maps b3)"
    using owners_calls.kept_acquire_fences[of kn b2 ?o keys "[]" "[]"] assms(1) j2 3 by simp
  have n3: "\<not> retirement_failed b3"
    using failed.kept_set_active[of ?b1 False kn 1] failed.kept_acquire_fences[of b2 False kn ?o keys "[]" "[]"] assms(4) 2 3 by simp
  obtain ba where g: "grace_barrier kn b3 = (Inr (), ba)"
    using n3 by (simp add: grace_barrier_def ensure_def map_call_def Let_def assms(2))
  have fa: "RETIRE_FENCE (be_maps ba) = RETIRE_FENCE (be_maps b3)"
    using fences.kept_barrier[of kn b3 "RETIRE_FENCE (be_maps b3)" "RETIRE_ACTIVE (be_maps b3)"] assms(1) g by simp
  then obtain b0 where v: "verify_fences kn ?o acq ba = (Inr (), b0)" using verify_ok[OF assms(2,1), of acq ba ?o] own by auto
  then have 4: "and_then (grace_barrier kn) (\<lambda>_. verify_fences kn ?o acq) b3 = (Inr (), b0)" using g by (simp add: and_then_def)
  have j0: "owners_distinct (be_maps b0)" using owners_calls.kept_checks[of kn b3 ?o acq] assms(1) j3 4 by simp
  obtain outs counts b4 where 5: "retire_each kn rqs ([], zero_counts) b0 = ((Inr (), outs, counts), b4)"
    "length outs = length rqs" "NotRun \<notin> set outs"
    using retire_each_ok[OF assms(2,1) j0, of "[]" rqs zero_counts] by auto
  have f4: "RETIRE_FENCE (be_maps b4) = RETIRE_FENCE (be_maps b3)"
    using fences.kept_retire_each[of kn b0 "RETIRE_FENCE (be_maps b0)" "RETIRE_ACTIVE (be_maps b0)" rqs "([], zero_counts)"]
      5(1) assms(1) barrier_maps(1)[OF assms(1) 4] by simp
  obtain b5 where 6: "release_fences kn ?o acq None False b4 = ((None, False), b5)"
    using release_ok[OF assms(2,1) d, of b4 ?o] own f4 by auto
  obtain b6 where 7: "set_retire_active kn 0 b5 = (Inr (), b6)"
    by (simp add: set_retire_active_def map_call_def Let_def assms(2))
  have w: "with_retirement_fences kn keys ?op ?c b = ((Inr (), outs, counts), b6)"
    using assms(4,5,6) len
    by (simp add: with_retirement_fences_def 2 3 4 5(1) 6 7)
  have "RETIRE_FENCE (be_maps b6) = RETIRE_FENCE (be_maps b) \<and> \<not> retirement_failed b6"
    using with_fences_outcome[OF assms(1) retire_each_fences[OF assms(1)] w] by auto
  then show ?thesis
    using False assms(4,6,7) w 5(2,3) by (simp add: retire_flows_def account_retirement_def)
qed

theorem retirement_completes_witness:
  "\<exists>outs counts b'. retire_flows idle_kernel [tcp_request] (length [tcp_request]) (sample_backend tcp_dp)
      = ((Inr (), outs, counts), b') \<and> NotRun \<notin> set outs \<and> \<not> retirement_failed b'"
proof -
  have "request_keys [tcp_request] = Inr [(tcp_key, 0)]" by code_simp
  then show ?thesis
    using retirement_completes[of idle_kernel "sample_backend tcp_dp" "[tcp_request]" "[(tcp_key, 0)]"] tcp_owners
    by (auto simp: RETIRE_BATCH_CAPACITY_def sample_backend_def tcp_request_def tcp_dp_def sample_dp_def)
qed

text \<open>C22. A batch that ends releases what it took. After \<open>retire_flows\<close>, success or failure, either the
  backend has recorded an unresolved owner or the fence map is what it was before; after a success
  of a nonempty batch the backend is clean and the datapath's retirement gate is closed again.\<close>

theorem fences_released:
  assumes "datapath_runs kn" "retire_flows kn rqs n b = ((r, outs, counts), b')"
  shows "(retirement_failed b' \<or> RETIRE_FENCE (be_maps b') = RETIRE_FENCE (be_maps b))
    \<and> (r = Inr () \<and> rqs \<noteq> [] \<longrightarrow> \<not> retirement_failed b' \<and> RETIRE_ACTIVE (be_maps b') = 0)"
proof (cases "request_keys rqs")
  case (Inr keys)
  then show ?thesis
    using assms(2) with_fences_outcome[where operation = "\<lambda>_. retire_each kn rqs ([], zero_counts)",
        OF assms(1) retire_each_fences[OF assms(1)]]
    by (fastforce simp: retire_flows_def account_retirement_def Let_def split: if_splits prod.splits)
next
  case (Inl e)
  then show ?thesis using assms(2)
    by (auto simp: retire_flows_def account_retirement_def Let_def split: if_splits)
qed

theorem fences_released_witness: "RETIRE_ACTIVE (be_maps (snd retired_tcp)) = 0"
proof -
  have run: "retire_flows idle_kernel [tcp_request] 1 (sample_backend tcp_dp)
      = ((Inr (), [ConnRetired], \<lparr>rc_conn = 1, rc_redirect = 0, rc_handoff = 0\<rparr>), snd retired_tcp)"
    using tcp_run by (metis prod.collapse retired_tcp_def)
  show ?thesis using fences_released[OF idle_runs run] by simp
qed

text \<open>C23. An unresolved owner stops the control plane. Once \<open>retirement_failed\<close> is set, retirements, single
  and batched commits, quiescence, declaring the datapath ready and reopening NFQUEUE staging all
  fail and change no map.\<close>

theorem unresolved_refuses:
  assumes "retirement_failed b"
  shows "isl (fst (fst (retire_flows kn rqs n b))) \<and> be_maps (snd (retire_flows kn rqs n b)) = be_maps b
    \<and> isl (fst (commit_udp_decision kn key token tr b)) \<and> be_maps (snd (commit_udp_decision kn key token tr b)) = be_maps b
    \<and> isl (fst (fst (commit_udp_decisions kn applies commits b))) \<and> be_maps (snd (commit_udp_decisions kn applies commits b)) = be_maps b
    \<and> isl (fst (quiesce_staged_udp kn b)) \<and> be_maps (snd (quiesce_staged_udp kn b)) = be_maps b
    \<and> isl (fst (set_datapath_ready kn True b)) \<and> be_maps (snd (set_datapath_ready kn True b)) = be_maps b
    \<and> isl (fst (set_datapath_flags kn (flags OR DATAPATH_FLAG_NFQ_READY) b))
    \<and> be_maps (snd (set_datapath_flags kn (flags OR DATAPATH_FLAG_NFQ_READY) b)) = be_maps b"
proof (intro conjI)
  show "isl (fst (quiesce_staged_udp kn b))" "be_maps (snd (quiesce_staged_udp kn b)) = be_maps b"
    using assms by (simp_all add: quiesce_staged_udp_def grace_barrier_def and_then_def ensure_def)
  have "(flags OR DATAPATH_FLAG_NFQ_READY) AND DATAPATH_FLAG_NFQ_READY \<noteq> 0"
    by (simp add: bit.conj_disj_distrib2 DATAPATH_FLAG_NFQ_READY_def)
  then show "isl (fst (set_datapath_flags kn (flags OR DATAPATH_FLAG_NFQ_READY) b))"
    "be_maps (snd (set_datapath_flags kn (flags OR DATAPATH_FLAG_NFQ_READY) b)) = be_maps b"
    using assms by (simp_all add: set_datapath_flags_def)
qed (use assms in \<open>auto simp: retire_flows_def account_retirement_def Let_def commit_udp_decision_def
    activate_udp_direct_def commit_udp_fenced_def commit_udp_decisions_def set_datapath_ready_def
    split: udp_decision_transition.splits\<close>)

theorem unresolved_refuses_witness:
  "isl (fst (set_datapath_ready idle_kernel True ((sample_backend tcp_dp)\<lparr>retirement_failed := True\<rparr>)))"
  using unresolved_refuses[of "(sample_backend tcp_dp)\<lparr>retirement_failed := True\<rparr>" idle_kernel "[]" 0 tcp_key 0
      TransitionBlock "\<lambda>_. True" "[]" 0] by simp

section \<open>What the classifiers leave alone\<close>

text \<open>C28. The classifiers never write the maps through which the control plane steers them: fences and
  their gate, live-socket pins, outbound liveness, readiness, mode flags and admission pressure.\<close>

theorem control_maps_untouched:
  assumes "rtranclp packet_step s s'"
  shows "RETIRE_ACTIVE s' = RETIRE_ACTIVE s \<and> RETIRE_FENCE s' = RETIRE_FENCE s \<and> TCP_LIVE_PINS s' = TCP_LIVE_PINS s
    \<and> OUTBOUND_CONNECTIVITY_MAP s' = OUTBOUND_CONNECTIVITY_MAP s \<and> DATAPATH_STATE_MAP s' = DATAPATH_STATE_MAP s
    \<and> DATAPATH_FLAGS_MAP s' = DATAPATH_FLAGS_MAP s \<and> ADMISSION_PRESSURE s' = ADMISSION_PRESSURE s"
  using control.steps_kept[OF assms, of "control_view s"] by (simp add: control_view_def)

theorem control_maps_untouched_witness: "RETIRE_FENCE after_udp_again = RETIRE_FENCE after_udp"
  using control_maps_untouched[OF sample_steps(2)] by simp

text \<open>C25. The classifiers never delete a connection, redirect or hand-off entry; only the control plane
  reclaims them.\<close>

theorem datapath_never_deletes:
  assumes "rtranclp packet_step s s'"
  shows "dom (CONN_STATE_MAP s) \<subseteq> dom (CONN_STATE_MAP s') \<and> dom (REDIRECT_TRACK s) \<subseteq> dom (REDIRECT_TRACK s')
    \<and> dom (ROUTING_HANDOFF_MAP s) \<subseteq> dom (ROUTING_HANDOFF_MAP s')"
  by (rule keys.steps_kept[OF assms]) simp

theorem datapath_never_deletes_witness: "dom (CONN_STATE_MAP after_udp) \<subseteq> dom (CONN_STATE_MAP after_udp_again)"
  using datapath_never_deletes[OF sample_steps(2)] by simp

text \<open>C24. A settled UDP connection entry changes only in its timestamp under the classifiers: its owner,
  token, decision state and routing meta are left to the control plane.\<close>

theorem settled_udp_frozen:
  assumes "rtranclp packet_step s s'" "l4proto k \<noteq> IPPROTO_TCP" "CONN_STATE_MAP s k = Some c" "udp_settled c"
  shows "\<exists>n. CONN_STATE_MAP s' k = Some (c\<lparr>cs_last_seen_ns := n\<rparr>)"
proof -
  have "\<exists>n. CONN_STATE_MAP s k = Some (c\<lparr>cs_last_seen_ns := n\<rparr>)"
    using assms(3) by (intro exI[of _ "cs_last_seen_ns c"]) simp
  then show ?thesis using settled.steps_kept[OF assms(1), of k c] assms(2,4) by blast
qed

theorem settled_udp_frozen_witness:
  "\<exists>c n. CONN_STATE_MAP after_udp udp6_key = Some c \<and> CONN_STATE_MAP after_udp_again udp6_key = Some (c\<lparr>cs_last_seen_ns := n\<rparr>)"
proof -
  obtain c where c: "CONN_STATE_MAP after_udp udp6_key = Some c" "udp_settled c" using sample_flow(2) by auto
  show ?thesis using settled_udp_frozen[OF sample_steps(2) _ c] c(1) by auto
qed

text \<open>C27. The redirect and hand-off entries of a tuple that is not TCP keep their owning incarnation and
  token under the classifiers.\<close>

theorem auxiliary_owner_frozen:
  assumes "rtranclp packet_step s s'" "l4proto k \<noteq> IPPROTO_TCP"
  shows "(\<forall>r. REDIRECT_TRACK s (from_tuples k) = Some r \<longrightarrow>
      (\<exists>r'. REDIRECT_TRACK s' (from_tuples k) = Some r' \<and> re_incarnation r' = re_incarnation r
        \<and> re_decision_token r' = re_decision_token r))
    \<and> (\<forall>h. ROUTING_HANDOFF_MAP s k = Some h \<longrightarrow>
      (\<exists>h'. ROUTING_HANDOFF_MAP s' k = Some h' \<and> he_incarnation h' = he_incarnation h
        \<and> rr_decision_token (he_result h') = rr_decision_token (he_result h)))"
proof (intro conjI allI impI)
  fix r assume r: "REDIRECT_TRACK s (from_tuples k) = Some r"
  have p: "rt_l4proto (from_tuples k) \<noteq> IPPROTO_TCP" using assms(2) by (simp add: from_tuples_def)
  show "\<exists>r'. REDIRECT_TRACK s' (from_tuples k) = Some r' \<and> re_incarnation r' = re_incarnation r
        \<and> re_decision_token r' = re_decision_token r"
    using redirect_owner.steps_kept[OF assms(1), of "from_tuples k" "re_incarnation r" "re_decision_token r"] p r by blast
next
  fix h assume "ROUTING_HANDOFF_MAP s k = Some h"
  then show "\<exists>h'. ROUTING_HANDOFF_MAP s' k = Some h' \<and> he_incarnation h' = he_incarnation h
        \<and> rr_decision_token (he_result h') = rr_decision_token (he_result h)"
    using handoff_owner.steps_kept[OF assms(1), of k "he_incarnation h" "rr_decision_token (he_result h)"] assms(2) by blast
qed

theorem auxiliary_owner_frozen_witness:
  "map_option re_incarnation (REDIRECT_TRACK after_udp_again (from_tuples udp6_key)) = Some 42"
  using auxiliary_owner_frozen[OF sample_steps(2), of udp6_key] sample_flow(3)
  by auto

text \<open>C26. Every classifier run releases the TCP publisher claim it took, on every path: the publisher map
  after the run is the one before it.\<close>

theorem publishers_released:
  assumes "rtranclp packet_step s s'"
  shows "TCP_PUBLISHING s' = TCP_PUBLISHING s"
  using assms by (induction rule: rtranclp_induct) (simp_all add: step_releases)

theorem publishers_released_witness: "TCP_PUBLISHING after_udp = Map.empty"
  using publishers_released[OF sample_steps(1)] by (simp add: sample_dp_def)

text \<open>C29. Whatever the classifiers and the control plane do, an incarnation counter within its 56-bit
  domain never decreases and never leaves the domain.\<close>

theorem incarnation_counter_monotone:
  assumes "rtranclp system_step b b'" "FLOW_INCARNATION_SEQUENCE (be_maps b) \<le> FLOW_INCARNATION_MAX"
  shows "FLOW_INCARNATION_SEQUENCE (be_maps b) \<le> FLOW_INCARNATION_SEQUENCE (be_maps b')
    \<and> FLOW_INCARNATION_SEQUENCE (be_maps b') \<le> FLOW_INCARNATION_MAX"
  using sys_quiet.system_steps_kept[OF assms(1), of "TCP_PUBLISHING (be_maps b)" "FLOW_INCARNATION_SEQUENCE (be_maps b)"] assms(2)
  by simp

theorem incarnation_counter_monotone_witness: "41 \<le> FLOW_INCARNATION_SEQUENCE after_udp"
  using incarnation_counter_monotone[OF run_system[OF sample_steps(1)]] by (simp add: sample_dp_def FLOW_INCARNATION_MAX_def)

end
