(* ===== verification/Tokens.thy ===== *)
theory Tokens
  imports Ownership
begin

text \<open>
  Decision tokens of staged UDP flows: the shared counter from which the classifiers draw them
  and the generations the control plane opens once it is exhausted.
\<close>

definition token_run :: "udp_sequence \<Rightarrow> nat \<Rightarrow> udp_sequence" where
  "token_run q n = ((\<lambda>q. snd (snd (next_decision_token q))) ^^ n) q"

definition token_at :: "udp_sequence \<Rightarrow> nat \<Rightarrow> u32" where
  "token_at q n = fst (next_decision_token (token_run q n))"

lemma sequence_part: "unat (x AND UDP_DECISION_SEQUENCE_MASK) = unat x mod 2 ^ 28" for x :: u32
proof -
  have "x AND UDP_DECISION_SEQUENCE_MASK = take_bit 28 x" by (simp add: take_bit_eq_mask mask_numeral UDP_DECISION_SEQUENCE_MASK_def)
  then show ?thesis by (simp add: take_bit_eq_mod unat_mod)
qed

lemma generation_part: "unat (udp_decision_token_generation x) = unat x div 2 ^ 28 mod 4" for x :: u32
proof -
  have "udp_decision_token_generation x = take_bit 2 (drop_bit 28 x)"
    by (simp add: udp_decision_token_generation_def take_bit_eq_mask mask_numeral UDP_DECISION_GENERATION_MASK_def
        UDP_DECISION_GENERATION_SHIFT_def)
  then show ?thesis by (simp add: take_bit_eq_mod drop_bit_eq_div unat_mod unat_div)
qed

lemma token_space: "unat NFQUEUE_TOKEN_MASK = 2 ^ 30 - 1" "unat UDP_DECISION_SEQUENCE_MASK = 2 ^ 28 - 1"
  by (simp_all add: rust_consts)

lemma token_arith:
  fixes n :: nat
  assumes "n \<le> 2 ^ 30 - 1" "n mod 2 ^ 28 < 2 ^ 28 - 1"
  shows "n + 1 \<le> 2 ^ 30 - 1" "(n + 1) div 2 ^ 28 = n div 2 ^ 28" "(n + 1) mod 2 ^ 28 = n mod 2 ^ 28 + 1"
proof -
  show "(n + 1) mod 2 ^ 28 = n mod 2 ^ 28 + 1" "(n + 1) div 2 ^ 28 = n div 2 ^ 28"
    using assms(2) by (simp_all add: mod_Suc div_Suc)
  show "n + 1 \<le> 2 ^ 30 - 1" using assms by (cases "n = 2 ^ 30 - 1") simp_all
qed

lemma next_token_valid:
  assumes "validate_udp_decision_sequence_value q" "next_decision_token q = (t, ex, q')"
  shows "validate_udp_decision_sequence_value q'
    \<and> (t = 0 \<longrightarrow> q' = q)
    \<and> (t \<noteq> 0 \<longrightarrow> seq_next q' = t \<and> seq_next q < t \<and> t \<le> NFQUEUE_TOKEN_MASK
        \<and> t AND UDP_DECISION_SEQUENCE_MASK \<noteq> 0
        \<and> udp_decision_token_generation t = udp_decision_token_generation (seq_next q))"
proof (cases "seq_exhausted q \<noteq> 0 \<or> seq_next q AND UDP_DECISION_SEQUENCE_MASK \<ge> UDP_DECISION_SEQUENCE_MASK")
  case True
  then show ?thesis using assms by (auto simp: next_decision_token_def)
next
  case False
  let ?n = "seq_next q"
  have s: "seq_exhausted q = 0" "unat ?n mod 2 ^ 28 < 2 ^ 28 - 1"
    using False sequence_part[of ?n] by (auto simp: word_le_nat_alt word_less_nat_alt not_le token_space)
  have "?n \<le> NFQUEUE_TOKEN_MASK" using assms(1) by (simp add: validate_udp_decision_sequence_value_def)
  then have "unat ?n \<le> 2 ^ 30 - 1" by (simp add: word_le_nat_alt token_space)
  note a = token_arith[OF this s(2)]
  have u: "unat (?n + 1) = unat ?n + 1"
    using a(1) by (simp add: unat_word_ariths)
  have t: "t = ?n + 1" "q' = q\<lparr>seq_next := ?n + 1,
      seq_exhausted := (if ?n + 1 = NFQUEUE_TOKEN_MASK then 1 else seq_exhausted q)\<rparr>"
    using assms(2) False by (auto simp: next_decision_token_def Let_def)
  have le: "?n + 1 \<le> NFQUEUE_TOKEN_MASK" using a(1) u by (simp add: word_le_nat_alt token_space)
  have "unat ((?n + 1) AND UDP_DECISION_SEQUENCE_MASK) \<noteq> 0" using a(3) u by (simp add: sequence_part)
  then have nz: "(?n + 1) AND UDP_DECISION_SEQUENCE_MASK \<noteq> 0" by auto
  have "unat (udp_decision_token_generation (?n + 1)) = unat (udp_decision_token_generation ?n)"
    using a(2) u by (simp add: generation_part)
  then have g: "udp_decision_token_generation (?n + 1) = udp_decision_token_generation ?n" by (rule word_unat_eq_iff[THEN iffD2])
  have "?n < ?n + 1" using u by (simp add: word_less_nat_alt)
  then show ?thesis using t le nz g s(1) by (auto simp: validate_udp_decision_sequence_value_def)
qed

lemma generation_valid:
  "g \<le> UDP_DECISION_GENERATION_MASK \<Longrightarrow> validate_udp_decision_sequence_value
     \<lparr>seq_next = push_bit UDP_DECISION_GENERATION_SHIFT g, seq_exhausted = 0\<rparr>"
proof -
  assume "g \<le> UDP_DECISION_GENERATION_MASK"
  then have g: "unat g \<le> 3" by (simp add: word_le_nat_alt UDP_DECISION_GENERATION_MASK_def)
  have "unat (push_bit 28 g) = unat g * 2 ^ 28"
    using g by (simp add: push_bit_eq_mult unat_word_ariths)
  then show ?thesis using g
    by (simp add: validate_udp_decision_sequence_value_def word_le_nat_alt token_space UDP_DECISION_GENERATION_SHIFT_def)
qed

interpretation sequence: publishing_frame "\<lambda>s. validate_udp_decision_sequence_value (UDP_DECISION_SEQUENCE s)"
proof (unfold_locales, goal_cases)
  case (3 s)
  then show ?case using next_token_valid by (metis prod.collapse dp.select_convs dp.update_convs dp.surjective)
qed (auto simp: same_owned_def)

interpretation sequence_calls: system_frame kn
  "\<lambda>b. datapath_runs kn \<and> validate_udp_decision_sequence_value (UDP_DECISION_SEQUENCE (be_maps b))" for kn
proof (unfold_locales, goal_cases)
  case (1 b n m)
  then show ?case using sequence.steps_kept[OF runs_steps] by simp
qed (simp_all add: generation_valid)

interpretation sys_sequence: system_invariant "\<lambda>s. validate_udp_decision_sequence_value (UDP_DECISION_SEQUENCE s)"
proof (rule system_invariant.intro)
  show "system_frame kn (\<lambda>b. datapath_runs kn \<and> validate_udp_decision_sequence_value (UDP_DECISION_SEQUENCE (be_maps b)))" for kn
    by (rule sequence_calls.system_frame_axioms)
qed (erule (1) sequence.step_kept, simp)

lemma run_next: "token_run q (Suc n) = snd (snd (next_decision_token (token_run q n)))"
  by (simp add: token_run_def)

lemma run_valid:
  "validate_udp_decision_sequence_value q \<Longrightarrow> validate_udp_decision_sequence_value (token_run q n)"
proof (induction n)
  case (Suc n)
  obtain t ex q' where "next_decision_token (token_run q n) = (t, ex, q')" by (metis prod_cases3)
  then show ?case using next_token_valid[of "token_run q n"] Suc by (simp add: run_next)
qed (simp add: token_run_def)

lemma run_monotone:
  assumes "validate_udp_decision_sequence_value q"
  shows "seq_next (token_run q n) \<le> seq_next (token_run q (n + k))"
proof (induction k)
  case (Suc k)
  obtain t ex q' where "next_decision_token (token_run q (n + k)) = (t, ex, q')" by (metis prod_cases3)
  then have "seq_next (token_run q (n + k)) \<le> seq_next (token_run q (n + Suc k))"
    using next_token_valid[OF run_valid[OF assms, of "n + k"]] by (cases "t = 0") (auto simp: run_next)
  then show ?case using Suc by simp
qed simp

text \<open>C30. The token counter is always well formed. From a well-formed counter, whatever the
  classifiers and the control plane do, the counter the kernel shares stays within the token space
  with a consistent exhaustion flag, so \<open>udp_decision_sequence_status\<close> never rejects it, and every
  token it then issues fits the token bits of a mark, has a nonzero sequence number and belongs to
  the current generation.\<close>

theorem token_counter_wellformed:
  assumes "rtranclp system_step b b'" "validate_udp_decision_sequence_value (UDP_DECISION_SEQUENCE (be_maps b))"
  shows "validate_udp_decision_sequence_value (UDP_DECISION_SEQUENCE (be_maps b'))
    \<and> (\<forall>t ex q. next_decision_token (UDP_DECISION_SEQUENCE (be_maps b')) = (t, ex, q) \<and> t \<noteq> 0 \<longrightarrow>
         pack_nfqueue_mark t \<noteq> None \<and> t AND UDP_DECISION_SEQUENCE_MASK \<noteq> 0
         \<and> udp_decision_token_generation t
           = udp_decision_token_generation (seq_next (UDP_DECISION_SEQUENCE (be_maps b'))))"
proof -
  have v: "validate_udp_decision_sequence_value (UDP_DECISION_SEQUENCE (be_maps b'))"
    by (rule sys_sequence.system_steps_kept[OF assms(1)]) (rule assms(2))
  have pack: "pack_nfqueue_mark t \<noteq> None" if "t \<noteq> 0" "t \<le> NFQUEUE_TOKEN_MASK" for t
  proof -
    have "unat t < 2 ^ 30" using that(2) by (simp add: word_le_nat_alt token_space)
    then have "\<forall>n\<ge>30. \<not> bit t n" by (simp only: unat_below_bits)
    then have "t AND NOT NFQUEUE_TOKEN_MASK = 0" by (simp add: bit_blast rust_consts)
    then show ?thesis using that(1) by (simp add: pack_nfqueue_mark_def)
  qed
  show ?thesis using v next_token_valid[OF v] pack by blast
qed

theorem token_counter_wellformed_witness:
  "validate_udp_decision_sequence_value (UDP_DECISION_SEQUENCE after_udp)"
  using token_counter_wellformed[OF run_system[OF sample_steps(1)]]
  by (simp add: sample_dp_def validate_udp_decision_sequence_value_def)

text \<open>C31. Tokens are not reused before a new generation is opened: of any two allocations from a
  well-formed counter that both succeed, the later one has the larger token.\<close>

theorem tokens_strictly_increase:
  assumes "validate_udp_decision_sequence_value q" "m < n" "token_at q m \<noteq> 0" "token_at q n \<noteq> 0"
  shows "token_at q m < token_at q n"
proof -
  have i: "seq_next (token_run q (Suc j)) = token_at q j \<and> seq_next (token_run q j) < token_at q j"
    if "token_at q j \<noteq> 0" for j
    using that next_token_valid[OF run_valid[OF assms(1), of j]]
    by (cases "next_decision_token (token_run q j)") (auto simp: token_at_def run_next)
  obtain k where "n = Suc m + k" using assms(2) less_iff_Suc_add by auto
  then have "seq_next (token_run q (Suc m)) \<le> seq_next (token_run q n)" using run_monotone[OF assms(1), of "Suc m" k] by simp
  then show ?thesis using i[OF assms(3)] i[OF assms(4)] by (auto intro: order_le_less_trans)
qed

theorem tokens_strictly_increase_witness:
  "token_at \<lparr>seq_next = 5, seq_exhausted = 0\<rparr> 0 < token_at \<lparr>seq_next = 5, seq_exhausted = 0\<rparr> 1"
proof (rule tokens_strictly_increase)
  show "validate_udp_decision_sequence_value \<lparr>seq_next = 5, seq_exhausted = 0\<rparr>" by code_simp
  show "token_at \<lparr>seq_next = 5, seq_exhausted = 0\<rparr> 0 \<noteq> 0" by code_simp
  show "token_at \<lparr>seq_next = 5, seq_exhausted = 0\<rparr> 1 \<noteq> 0" by code_simp
qed simp

end
