(* ===== verification/Map_Scan.thy ===== *)
theory Map_Scan
  imports Ownership
begin

text \<open>
  What a scan of a flow map finds. A scan takes one of two ways: whole batches, or key by key when
  the kernel does not support batches, which it may learn from the first call. On maps that do not
  change meanwhile both ways hand the same entries to the visitor.
\<close>

definition entries :: "(dp \<Rightarrow> 'k \<Rightarrow> 'v option) \<Rightarrow> dp \<Rightarrow> 'k list \<Rightarrow> ('k \<times> 'v) list" where
  "entries read s ks = List.map_filter (\<lambda>k. map_option (Pair k) (read s k)) ks"

text \<open>What a kernel with batches does: a batch is at most a buffer full, only the last may be
  empty, and the last call reports \<open>ENOENT\<close>.\<close>

definition batches_valid :: "kernel \<Rightarrow> (dp \<Rightarrow> 'k \<Rightarrow> 'v option) \<Rightarrow> dp \<Rightarrow> 'k list list \<Rightarrow> bool" where
  "batches_valid kn read s batches \<longleftrightarrow>
     (\<forall>n. kn_batch_errno kn n = LIBC_ENOENT)
     \<and> list_all (\<lambda>batch. entries read s batch \<noteq> []) (butlast batches)
     \<and> list_all (\<lambda>batch. length batch \<le> BPF_BATCH_CHUNK) batches"

definition still_kernel :: "kernel \<Rightarrow> bool" where
  "still_kernel kn \<longleftrightarrow> (\<forall>n s. kn_run kn n s = s) \<and> (\<forall>n. \<not> kn_fails kn n)"

lemma entries_simps [simp]:
  "entries read s [] = []"
  "entries read s (k # ks) = (case read s k of None \<Rightarrow> [] | Some v \<Rightarrow> [(k, v)]) @ entries read s ks"
  "entries read s (ks @ ks') = entries read s ks @ entries read s ks'"
  by (auto simp: entries_def List.map_filter_def split: option.split)

lemma length_entries: "length (entries read s ks) \<le> length ks"
  by (induction ks) (auto split: option.split)

lemma set_entries: "set (entries read s ks) = {(k, v). k \<in> set ks \<and> read s k = Some v}"
  by (induction ks) (auto split: option.splits)

lemma concat_split_batches [simp]: "concat (split_batches ns ks) = ks"
  by (induction ns ks rule: split_batches.induct) simp_all

lemma split_batches_ne [simp]: "split_batches ns ks \<noteq> []"
  by (cases ns) simp_all

text \<open>The calls on unchanging maps.\<close>

lemma unchanged_calls:
  assumes "still_kernel kn"
  shows "map_call kn (\<lambda>s. (Inr (f s), s)) b = (Inr (f (be_maps b)), b\<lparr>be_calls := be_calls b + 1\<rparr>)"
    and "lookup_batch kn read keys b =
      (take BPF_BATCH_CHUNK (entries read (be_maps b) keys), b\<lparr>be_calls := be_calls b + 1\<rparr>)"
  using assms by (simp_all add: still_kernel_def map_call_def lookup_batch_def entries_def Let_def)

text \<open>A visitor that never stops the scan and collects something additive from each chunk.\<close>

locale collecting =
  fixes g :: "('k \<times> 'v) list \<Rightarrow> 'a list"
  assumes additive: "g (xs @ ys) = g xs @ g ys"
begin

lemma g_Nil [simp]: "g [] = []"
  using additive[of "[]" "[]"] by simp

lemma be_maps_set_unsupported [simp]: "be_maps (set_unsupported cap x b) = be_maps b"
  by (cases cap) simp_all

lemma batches_collect:
  assumes still: "still_kernel kn"
  shows "batches \<noteq> [] \<Longrightarrow> batches_valid kn read (be_maps b) batches \<Longrightarrow>
   fst (scan_with kn read cap (\<lambda>acc chunk. (acc @ g chunk, True)) p batches acc b)
     = Inr (Some (acc @ g (entries read (be_maps b) (concat batches))))"
proof (induction batches arbitrary: p acc b)
  case (Cons keys rest)
  have full: "take BPF_BATCH_CHUNK (entries read (be_maps b) keys) = entries read (be_maps b) keys"
    using Cons.prems(2) length_entries[of read "be_maps b" keys] by (simp add: batches_valid_def)
  have e: "kn_batch_errno kn n = LIBC_ENOENT" for n using Cons.prems(2) by (simp add: batches_valid_def)
  show ?case
  proof (cases rest)
    case Nil
    then show ?thesis by (simp add: unchanged_calls(2)[OF still] full e observe_capability_def)
  next
    case (Cons k ks)
    then have ne: "entries read (be_maps b) keys \<noteq> []" "batches_valid kn read (be_maps b) rest" "rest \<noteq> []"
      using Cons.prems(2) by (simp_all add: batches_valid_def)
    show ?thesis
      using Cons.IH[OF ne(3), of "set_unsupported cap False (b\<lparr>be_calls := be_calls b + 1\<rparr>)"] ne
      by (simp add: unchanged_calls(2)[OF still] full observe_capability_def additive)
  qed
qed simp

lemma keys_collect:
  assumes still: "still_kernel kn"
  shows "length projected < max n 1 \<Longrightarrow>
   fst (scan_keys kn read n (\<lambda>acc chunk. (acc @ g chunk, True)) ks projected acc b)
     = Inr (acc @ g (projected @ entries read (be_maps b) ks))"
proof (induction ks arbitrary: projected acc b)
  case (Cons k ks)
  show ?case
  proof (cases "read (be_maps b) k")
    case None
    then show ?thesis
      using Cons.IH[OF Cons.prems] by (simp add: and_then_def next_flow_key_def flow_lookup_def unchanged_calls(1)[OF still])
  next
    case (Some v)
    show ?thesis
    proof (cases "length projected + 1 = max n 1")
      case True
      then show ?thesis
        using Some Cons.IH[of "[]"] additive[of "[(k, v)]" "entries read (be_maps b) ks"]
        by (simp add: and_then_def next_flow_key_def flow_lookup_def unchanged_calls(1)[OF still] additive)
    next
      case False
      then have "length (projected @ [(k, v)]) < max n 1" using Cons.prems by simp
      from Cons.IH[OF this] show ?thesis
        using Some False
        by (simp add: and_then_def next_flow_key_def flow_lookup_def unchanged_calls(1)[OF still])
    qed
  qed
qed (simp add: return_def)

lemma scan_collects:
  assumes still: "still_kernel kn" and "\<And>m. keys kn m = ks"
    and "cap_flow_lookup_batch b \<or> batches_valid kn read (be_maps b) (split_batches (kn_batches kn (be_calls b)) ks)
      \<or> kn_batches kn (be_calls b) = [] \<and> is_capability_errno (kn_batch_errno kn (be_calls b))"
  shows "fst (flow_for_each_chunk kn keys read n (\<lambda>acc chunk. (acc @ g chunk, True)) [] b)
    = Inr (g (entries read (be_maps b) ks))"
proof -
  let ?scan = "bpf_lookup_batch_scan_cb_flags kn keys read FlowBatch (\<lambda>acc chunk. (acc @ g chunk, True)) [] b"
  have k: "fst (scan_keys kn read n (\<lambda>acc chunk. (acc @ g chunk, True)) ks [] [] b0)
      = Inr (g (entries read (be_maps b0) ks))" for b0
    using keys_collect[OF still, where projected = "[]" and acc = "[]"] by simp
  have "(\<exists>b'. ?scan = (Inr None, b') \<and> be_maps b' = be_maps b) \<or> fst ?scan = Inr (Some (g (entries read (be_maps b) ks)))"
    using assms(2,3) batches_collect[OF still, where batches = "split_batches (kn_batches kn (be_calls b)) ks" and acc = "[]"]
    by (auto simp: bpf_lookup_batch_scan_cb_flags_def unchanged_calls(2)[OF still] observe_capability_def
        is_capability_errno_def rust_consts)
  then show ?thesis
    using k assms(2)
    by (auto simp: flow_for_each_chunk_def flow_scan_from_def and_then_def next_flow_key_def
        unchanged_calls(1)[OF still] split: prod.splits)
qed

end

interpretation staged_scan: collecting staged_flows
  by unfold_locales (simp add: staged_flows_def List.map_filter_def)

text \<open>C32. The scan of \<open>quiesce_staged_udp\<close> misses nothing. If the maps stand still and no call fails,
  it returns exactly the staged UDP flows among the listed keys, with their tokens and incarnations. It
  does so on all three ways through the code: by batches, key by key because batches are known
  to be unsupported, and key by key after the first batch call has reported that.\<close>

theorem staged_scan_complete:
  assumes "still_kernel kn" "\<And>n. kn_conn_keys kn n = ks"
    and "cap_flow_lookup_batch b
      \<or> batches_valid kn CONN_STATE_MAP (be_maps b) (split_batches (kn_batches kn (be_calls b)) ks)
      \<or> kn_batches kn (be_calls b) = [] \<and> is_capability_errno (kn_batch_errno kn (be_calls b))"
  shows "\<exists>staged. fst (flow_for_each_chunk kn kn_conn_keys CONN_STATE_MAP 256
      (\<lambda>staged chunk. (staged @ staged_flows chunk, True)) [] b) = Inr staged
    \<and> set staged = {(key, cs_decision_token state, cs_incarnation state) | key state.
        key \<in> set ks \<and> CONN_STATE_MAP (be_maps b) key = Some state
        \<and> l4proto key = IPPROTO_UDP \<and> udp_state_is_staged (cs_state state)}"
proof -
  have "set (staged_flows (entries CONN_STATE_MAP (be_maps b) ks)) = {(key, cs_decision_token state, cs_incarnation state) | key state.
      key \<in> set ks \<and> CONN_STATE_MAP (be_maps b) key = Some state
      \<and> l4proto key = IPPROTO_UDP \<and> udp_state_is_staged (cs_state state)}"
    by (force simp: staged_flows_def List.map_filter_def set_entries split: if_splits)
  then show ?thesis using staged_scan.scan_collects[where keys = kn_conn_keys, OF assms] by blast
qed

text \<open>A staged and an established flow, listed in two batches.\<close>

definition batch_kernel :: kernel where
  "batch_kernel = idle_kernel\<lparr>kn_conn_keys := (\<lambda>_. [tcp_key, udp6_key]), kn_batches := (\<lambda>_. [1])\<rparr>"

definition mixed_dp :: dp where
  "mixed_dp = staged_dp\<lparr>CONN_STATE_MAP := (CONN_STATE_MAP staged_dp)(tcp_key \<mapsto> zero_conn\<lparr>cs_incarnation := 41\<rparr>)\<rparr>"

theorem staged_scan_complete_witness:
  "\<exists>staged. fst (flow_for_each_chunk batch_kernel kn_conn_keys CONN_STATE_MAP 256
      (\<lambda>staged chunk. (staged @ staged_flows chunk, True)) [] (sample_backend mixed_dp)) = Inr staged
    \<and> (udp6_key, 7, 40) \<in> set staged \<and> (tcp_key, 0, 41) \<notin> set staged"
proof -
  have k: "udp6_key \<noteq> tcp_key" "l4proto tcp_key = IPPROTO_TCP" "l4proto udp6_key = IPPROTO_UDP"
    by (simp_all add: tcp_key_def udp6_key_def rust_consts)
  have s: "CONN_STATE_MAP mixed_dp udp6_key = Some staged_entry"
    using k(1) by (simp add: mixed_dp_def staged_dp_def)
  have "batches_valid batch_kernel CONN_STATE_MAP mixed_dp [[tcp_key], [udp6_key]]"
    by (simp add: batches_valid_def batch_kernel_def idle_kernel_def mixed_dp_def rust_consts)
  then have "batches_valid batch_kernel CONN_STATE_MAP (be_maps (sample_backend mixed_dp))
      (split_batches (kn_batches batch_kernel (be_calls (sample_backend mixed_dp))) [tcp_key, udp6_key])"
    by (simp add: batch_kernel_def)
  then obtain staged where "fst (flow_for_each_chunk batch_kernel kn_conn_keys CONN_STATE_MAP 256
      (\<lambda>staged chunk. (staged @ staged_flows chunk, True)) [] (sample_backend mixed_dp)) = Inr staged"
    "set staged = {(key, cs_decision_token state, cs_incarnation state) | key state.
        key \<in> set [tcp_key, udp6_key] \<and> CONN_STATE_MAP mixed_dp key = Some state
        \<and> l4proto key = IPPROTO_UDP \<and> udp_state_is_staged (cs_state state)}"
    using staged_scan_complete[of batch_kernel "[tcp_key, udp6_key]" "sample_backend mixed_dp"]
    by (auto simp: still_kernel_def batch_kernel_def idle_kernel_def)
  moreover have "udp_state_is_staged (cs_state staged_entry)" "cs_decision_token staged_entry = 7" "cs_incarnation staged_entry = 40"
    by (simp_all add: staged_entry_def udp_state_is_staged_def)
  ultimately show ?thesis using k s by (auto simp: rust_consts)
qed

end
