(* ===== verification/Bpf.thy ===== *)
theory Bpf
  imports Prelude
begin

text \<open>
  The part of the eBPF instruction set the policy compiler emits: the instruction word and its
  opcode constants (\<open>aya_obj::generated\<close>, the kernel's user ABI), and a machine that executes it.
  A register holds a 64-bit scalar or a pointer into one of the memory regions a routing function
  can reach; every access is checked against the bounds of its region, and an instruction the
  machine does not know, an access out of bounds and the use of an uninitialized register are
  faults, as they are for the kernel's verifier. Memory is little-endian.
\<close>

section \<open>Instructions\<close>

definition BPF_LD :: u32 where [rust_consts]: "BPF_LD = 0x00"
definition BPF_LDX :: u32 where [rust_consts]: "BPF_LDX = 0x01"
definition BPF_ST :: u32 where [rust_consts]: "BPF_ST = 0x02"
definition BPF_STX :: u32 where [rust_consts]: "BPF_STX = 0x03"
definition BPF_JMP :: u32 where [rust_consts]: "BPF_JMP = 0x05"
definition BPF_ALU64 :: u32 where [rust_consts]: "BPF_ALU64 = 0x07"
definition BPF_W :: u32 where [rust_consts]: "BPF_W = 0x00"
definition BPF_B :: u32 where [rust_consts]: "BPF_B = 0x10"
definition BPF_DW :: u32 where [rust_consts]: "BPF_DW = 0x18"
definition BPF_IMM :: u32 where [rust_consts]: "BPF_IMM = 0x00"
definition BPF_MEM :: u32 where [rust_consts]: "BPF_MEM = 0x60"
definition BPF_K :: u32 where [rust_consts]: "BPF_K = 0x00"
definition BPF_X :: u32 where [rust_consts]: "BPF_X = 0x08"
definition BPF_OR :: u32 where [rust_consts]: "BPF_OR = 0x40"
definition BPF_AND :: u32 where [rust_consts]: "BPF_AND = 0x50"
definition BPF_MOV :: u32 where [rust_consts]: "BPF_MOV = 0xb0"
definition BPF_JA :: u32 where [rust_consts]: "BPF_JA = 0x00"
definition BPF_JEQ :: u32 where [rust_consts]: "BPF_JEQ = 0x10"
definition BPF_JGT :: u32 where [rust_consts]: "BPF_JGT = 0x20"
definition BPF_JGE :: u32 where [rust_consts]: "BPF_JGE = 0x30"
definition BPF_JSET :: u32 where [rust_consts]: "BPF_JSET = 0x40"
definition BPF_JNE :: u32 where [rust_consts]: "BPF_JNE = 0x50"
definition BPF_CALL :: u32 where [rust_consts]: "BPF_CALL = 0x80"
definition BPF_EXIT :: u32 where [rust_consts]: "BPF_EXIT = 0x90"

type_synonym i16 = "16 word"
type_synonym i32 = "32 word"

record bpf_insn =
  bi_code :: u8
  bi_dst :: nat
  bi_src :: nat
  bi_off :: i16
  bi_imm :: i32

section \<open>Memory\<close>

definition le_word :: "u8 list \<Rightarrow> u64" where
  "le_word bs = foldr (\<lambda>b acc. as_u64 b OR push_bit 8 acc) bs 0"

definition le_bytes :: "nat \<Rightarrow> u64 \<Rightarrow> u8 list" where
  "le_bytes n w = map (\<lambda>i. as_u8 (drop_bit (8 * i) w)) [0..<n]"

definition read_bytes :: "u8 list \<Rightarrow> int \<Rightarrow> nat \<Rightarrow> u8 list option" where
  "read_bytes bs q n =
     (if 0 \<le> q \<and> nat q + n \<le> length bs then Some (take n (drop (nat q) bs)) else None)"

definition write_bytes :: "u8 list \<Rightarrow> int \<Rightarrow> u8 list \<Rightarrow> u8 list option" where
  "write_bytes bs q xs =
     (if 0 \<le> q \<and> nat q + length xs \<le> length bs
      then Some (take (nat q) bs @ xs @ drop (nat q + length xs) bs) else None)"

datatype region = InputR | OutputR | StackR | ValueR "u8 list" | MapR int

datatype bval = Scalar u64 | Pointer region int | Uninit

text \<open>A map as the lookup helper sees it: the size of its keys and its current contents.\<close>

record bpf_map =
  map_key_size :: nat
  map_lookup :: "u8 list \<Rightarrow> u8 list option"

type_synonym bpf_maps = "int \<rightharpoonup> bpf_map"

record machine =
  m_pc :: nat
  m_regs :: "nat \<Rightarrow> bval"
  m_input :: "u8 list"
  m_output :: "u8 list"
  m_stack :: "u8 list"

fun region_bytes :: "machine \<Rightarrow> region \<Rightarrow> u8 list" where
  "region_bytes m InputR = m_input m"
| "region_bytes m OutputR = m_output m"
| "region_bytes m StackR = m_stack m"
| "region_bytes m (ValueR bs) = bs"
| "region_bytes m (MapR _) = []"

definition mem_load :: "machine \<Rightarrow> bval \<Rightarrow> i16 \<Rightarrow> nat \<Rightarrow> u64 option" where
  "mem_load m p off n =
     (case p of
        Pointer r q \<Rightarrow> map_option le_word (read_bytes (region_bytes m r) (q + sint off) n)
      | _ \<Rightarrow> None)"

text \<open>A routing function writes its stack and its output only.\<close>

definition mem_store :: "machine \<Rightarrow> bval \<Rightarrow> i16 \<Rightarrow> u8 list \<Rightarrow> machine option" where
  "mem_store m p off xs =
     (case p of
        Pointer OutputR q \<Rightarrow> map_option (\<lambda>bs. m\<lparr>m_output := bs\<rparr>) (write_bytes (m_output m) (q + sint off) xs)
      | Pointer StackR q \<Rightarrow> map_option (\<lambda>bs. m\<lparr>m_stack := bs\<rparr>) (write_bytes (m_stack m) (q + sint off) xs)
      | _ \<Rightarrow> None)"

section \<open>Execution\<close>

datatype outcome = Next machine | Exited u64 machine | Fault

text \<open>Immediates are sign-extended to 64 bits.\<close>

definition imm64 :: "i32 \<Rightarrow> u64" where
  "imm64 i = scast i"

definition set_reg :: "nat \<Rightarrow> bval \<Rightarrow> machine \<Rightarrow> machine" where
  "set_reg r v m = m\<lparr>m_regs := (m_regs m)(r := v)\<rparr>"

definition goto :: "nat \<Rightarrow> machine \<Rightarrow> machine" where
  "goto pc m = m\<lparr>m_pc := pc\<rparr>"

definition proceed :: "machine option \<Rightarrow> outcome" where
  "proceed r = (case r of None \<Rightarrow> Fault | Some m \<Rightarrow> Next (goto (m_pc m + 1) m))"

definition set_result :: "nat \<Rightarrow> u64 option \<Rightarrow> machine \<Rightarrow> outcome" where
  "set_result r v m = proceed (map_option (\<lambda>w. set_reg r (Scalar w) m) v)"

definition alu_imm :: "(u64 \<Rightarrow> u64 \<Rightarrow> u64) \<Rightarrow> bpf_insn \<Rightarrow> machine \<Rightarrow> outcome" where
  "alu_imm f i m =
     (case m_regs m (bi_dst i) of
        Scalar w \<Rightarrow> set_result (bi_dst i) (Some (f w (imm64 (bi_imm i)))) m
      | _ \<Rightarrow> Fault)"

definition add_imm_insn :: "bpf_insn \<Rightarrow> machine \<Rightarrow> outcome" where
  "add_imm_insn i m =
     (case m_regs m (bi_dst i) of
        Scalar w \<Rightarrow> set_result (bi_dst i) (Some (w + imm64 (bi_imm i))) m
      | Pointer r q \<Rightarrow> proceed (Some (set_reg (bi_dst i) (Pointer r (q + sint (bi_imm i))) m))
      | Uninit \<Rightarrow> Fault)"

definition branch :: "bool \<Rightarrow> bpf_insn \<Rightarrow> machine \<Rightarrow> outcome" where
  "branch taken i m =
     (let t = int (m_pc m) + 1 + (if taken then sint (bi_off i) else 0) in
      if t < 0 then Fault else Next (goto (nat t) m))"

text \<open>A pointer differs from every immediate; the compiler compares pointers with null only.\<close>

definition branch_imm :: "(u64 \<Rightarrow> u64 \<Rightarrow> bool) \<Rightarrow> bool \<Rightarrow> bpf_insn \<Rightarrow> machine \<Rightarrow> outcome" where
  "branch_imm c on_pointer i m =
     (case m_regs m (bi_dst i) of
        Scalar w \<Rightarrow> branch (c w (imm64 (bi_imm i))) i m
      | Pointer _ _ \<Rightarrow> if bi_imm i = 0 then branch on_pointer i m else Fault
      | Uninit \<Rightarrow> Fault)"

text \<open>\<open>bpf_map_lookup_elem\<close>: R1 is the map, R2 points to the key; the caller-saved registers are
  lost.\<close>

definition lookup_elem :: "bpf_maps \<Rightarrow> machine \<Rightarrow> outcome" where
  "lookup_elem maps m =
     (case (m_regs m 1, m_regs m 2) of
        (Pointer (MapR fd) start, Pointer r q) \<Rightarrow>
          (case (if start = 0 then maps fd else None) of
             None \<Rightarrow> Fault
           | Some mp \<Rightarrow>
               (case read_bytes (region_bytes m r) q (map_key_size mp) of
                  None \<Rightarrow> Fault
                | Some key \<Rightarrow>
                    let m1 = m\<lparr>m_regs := (\<lambda>r. if r \<le> 5 then Uninit else m_regs m r)\<rparr> in
                    proceed (Some (set_reg 0
                      (case map_lookup mp key of None \<Rightarrow> Scalar 0 | Some v \<Rightarrow> Pointer (ValueR v) 0) m1))))
      | _ \<Rightarrow> Fault)"

definition exec_insn :: "bpf_maps \<Rightarrow> bpf_insn \<Rightarrow> bpf_insn option \<Rightarrow> machine \<Rightarrow> outcome" where
  "exec_insn maps i next m =
     (let c = bi_code i; r = m_regs m in
      if c = 0xbf then proceed (Some (set_reg (bi_dst i) (r (bi_src i)) m))
      else if c = 0xb7 then set_result (bi_dst i) (Some (imm64 (bi_imm i))) m
      else if c = 0x07 then add_imm_insn i m
      else if c = 0x57 then alu_imm (AND) i m
      else if c = 0x47 then alu_imm (OR) i m
      else if c = 0x61 then set_result (bi_dst i) (mem_load m (r (bi_src i)) (bi_off i) 4) m
      else if c = 0x71 then set_result (bi_dst i) (mem_load m (r (bi_src i)) (bi_off i) 1) m
      else if c = 0x79 then set_result (bi_dst i) (mem_load m (r (bi_src i)) (bi_off i) 8) m
      else if c = 0x63 then
        (case r (bi_src i) of
           Scalar w \<Rightarrow> proceed (mem_store m (r (bi_dst i)) (bi_off i) (le_bytes 4 w))
         | _ \<Rightarrow> Fault)
      else if c = 0x7b then
        (case r (bi_src i) of
           Scalar w \<Rightarrow> proceed (mem_store m (r (bi_dst i)) (bi_off i) (le_bytes 8 w))
         | _ \<Rightarrow> Fault)
      else if c = 0x62 then proceed (mem_store m (r (bi_dst i)) (bi_off i) (le_bytes 4 (imm64 (bi_imm i))))
      else if c = 0x05 then branch True i m
      else if c = 0x15 then branch_imm (=) False i m
      else if c = 0x55 then branch_imm (\<noteq>) True i m
      else if c = 0x25 then branch_imm (\<lambda>a b. a > b) False i m
      else if c = 0x35 then branch_imm (\<lambda>a b. a \<ge> b) False i m
      else if c = 0x45 then branch_imm (\<lambda>a b. a AND b \<noteq> 0) False i m
      else if c = 0x85 \<and> bi_imm i = 1 then lookup_elem maps m
      else if c = 0x95 then (case r 0 of Scalar w \<Rightarrow> Exited w m | _ \<Rightarrow> Fault)
      else if c = 0x18 \<and> bi_src i = 1 \<and> next \<noteq> None
      then Next (goto (m_pc m + 2) (set_reg (bi_dst i) (Pointer (MapR (sint (bi_imm i))) 0) m))
      else Fault)"

definition fetch :: "bpf_insn list \<Rightarrow> nat \<Rightarrow> bpf_insn option" where
  "fetch P n = (if n < length P then Some (P ! n) else None)"

definition bpf_step :: "bpf_insn list \<Rightarrow> bpf_maps \<Rightarrow> machine \<Rightarrow> outcome" where
  "bpf_step P maps m =
     (case fetch P (m_pc m) of
        None \<Rightarrow> Fault
      | Some i \<Rightarrow> exec_insn maps i (fetch P (m_pc m + 1)) m)"

text \<open>\<open>None\<close> is a fault or a run that did not end within its fuel.\<close>

fun bpf_run :: "nat \<Rightarrow> bpf_insn list \<Rightarrow> bpf_maps \<Rightarrow> machine \<Rightarrow> (u64 \<times> machine) option" where
  "bpf_run 0 P maps m = None"
| "bpf_run (Suc fuel) P maps m =
     (case bpf_step P maps m of
        Next m1 \<Rightarrow> bpf_run fuel P maps m1
      | Exited w m1 \<Rightarrow> Some (w, m1)
      | Fault \<Rightarrow> None)"

end
