(* ===== verification/Routing_Plan.thy ===== *)
theory Routing_Plan
  imports Policy Process_Name Bpf
begin

text \<open>
  The native routing plan of \<open>control/routing_matcher.rs\<close>: rules over kernel predicates, the fact
  maps of one policy generation, and the layout of the optional decision trace. The plan is the
  input of the policy compiler; \<open>rp_fingerprint\<close> is the digest of the configuration the plan was
  built from.
\<close>

definition ROUTING_FEATURE_DOMAIN :: u32 where [rust_consts]: "ROUTING_FEATURE_DOMAIN = 1"
definition ROUTING_FEATURE_DOMAIN_REROUTE :: u32 where [rust_consts]: "ROUTING_FEATURE_DOMAIN_REROUTE = 2"
definition ROUTING_FACT_CAPACITY :: nat where [rust_consts]: "ROUTING_FACT_CAPACITY = 256"
definition ROUTE_TRACE_VALUES :: nat where [rust_consts]: "ROUTE_TRACE_VALUES = 256"

record port_range =
  range_start :: u16
  range_end :: u16

definition range_contains :: "port_range \<Rightarrow> u16 \<Rightarrow> bool" where
  "range_contains r port \<longleftrightarrow> port \<ge> range_start r \<and> port \<le> range_end r"

datatype kernel_predicate =
    KDomain u32
  | KDestinationIp u32
  | KSourceIp u32
  | KMac u32
  | KDestinationPort "port_range list"
  | KSourcePort "port_range list"
  | KProtocol u8
  | KIpVersion u8
  | KDscp "u8 list"
  | KProcessName "u8 list list"

record kernel_condition =
  kc_not :: bool
  kc_predicate :: kernel_predicate

fun predicate_is_empty :: "kernel_predicate \<Rightarrow> bool" where
  "predicate_is_empty (KDestinationPort ranges) = (ranges = [])"
| "predicate_is_empty (KSourcePort ranges) = (ranges = [])"
| "predicate_is_empty (KProtocol bits) = (bits = 0)"
| "predicate_is_empty (KIpVersion bits) = (bits = 0)"
| "predicate_is_empty (KDscp values) = (values = [])"
| "predicate_is_empty (KProcessName names) = (names = [])"
| "predicate_is_empty _ = False"

fun predicate_is_port :: "kernel_predicate \<Rightarrow> bool" where
  "predicate_is_port (KDestinationPort _) = True"
| "predicate_is_port (KSourcePort _) = True"
| "predicate_is_port _ = False"

record kernel_action =
  ka_outbound :: u8
  ka_must :: bool
  ka_mark :: u32
  ka_direct_mark_index :: "u8 option"

record kernel_rule =
  kr_id :: u32
  kr_source :: string
  kr_conditions :: "kernel_condition list"
  kr_action :: kernel_action

definition folded_false :: "kernel_rule \<Rightarrow> bool" where
  "folded_false rule \<longleftrightarrow>
     kr_conditions rule = []
     \<or> list_ex (\<lambda>c. \<not> kc_not c \<and> predicate_is_empty (kc_predicate c)) (kr_conditions rule)"

text \<open>Conditions with their position in the source rule, tests on ports first.\<close>

definition runtime_conditions :: "kernel_rule \<Rightarrow> (nat \<times> kernel_condition) list" where
  "runtime_conditions rule =
     (let live = filter (\<lambda>(_, c). \<not> predicate_is_empty (kc_predicate c)) (enumerate 0 (kr_conditions rule))
      in filter (\<lambda>(_, c). predicate_is_port (kc_predicate c)) live
         @ filter (\<lambda>(_, c). \<not> predicate_is_port (kc_predicate c)) live)"

section \<open>Trace layout\<close>

datatype trace_disposition = Runtime | FoldedTrue | FoldedFalse | Unreachable

record trace_slot =
  ts_rule_id :: "u32 option"
  ts_condition_ordinal :: "nat option"
  ts_evaluation_rank :: "nat option"
  ts_disposition :: trace_disposition

record trace_layout =
  tl_slots :: "trace_slot list"
  tl_total_values :: nat

definition layout_push :: "trace_slot \<Rightarrow> trace_layout \<Rightarrow> trace_layout" where
  "layout_push slot l =
     l\<lparr>tl_total_values := tl_total_values l + 1,
       tl_slots := (if length (tl_slots l) < ROUTE_TRACE_VALUES then tl_slots l @ [slot] else tl_slots l)\<rparr>"

section \<open>The plan\<close>

record lpm_key =
  lk_prefix_len :: u32
  lk_data :: "u32 list"

type_synonym domain_routing = "u32 list"

type_synonym facts = "(lpm_key \<times> domain_routing) list"

record routing_fact_maps =
  fm_destination_v4 :: facts
  fm_destination_v6 :: facts
  fm_source_v4 :: facts
  fm_source_v6 :: facts
  fm_mac :: facts

record routing_push_plan =
  rp_rules :: "kernel_rule list"
  rp_facts :: routing_fact_maps
  rp_fallback :: kernel_action
  rp_features :: u32
  rp_fingerprint :: "u8 list"
  rp_has_domain_rules :: bool
  rp_domain_predicate_count :: nat
  rp_trace_enabled :: bool

definition rule_slots :: "bool \<Rightarrow> kernel_rule \<Rightarrow> trace_slot list" where
  "rule_slots unreachable rule =
     (let disposition = (if unreachable then Unreachable else if folded_false rule then FoldedFalse else Runtime);
          conditions = runtime_conditions rule;
          rank = (\<lambda>r. if disposition = Runtime then Some r else None)
      in \<lparr>ts_rule_id = Some (kr_id rule), ts_condition_ordinal = None,
           ts_evaluation_rank = rank (length conditions), ts_disposition = disposition\<rparr>
         # map (\<lambda>(r, ordinal, _).
             \<lparr>ts_rule_id = Some (kr_id rule), ts_condition_ordinal = Some ordinal,
              ts_evaluation_rank = rank r,
              ts_disposition = (if disposition = Runtime then Runtime else Unreachable)\<rparr>)
             (enumerate 0 conditions)
         @ map (\<lambda>(ordinal, condition).
             \<lparr>ts_rule_id = Some (kr_id rule), ts_condition_ordinal = Some ordinal,
              ts_evaluation_rank = None,
              ts_disposition = (if unreachable then Unreachable
                                else if kc_not condition then FoldedTrue else FoldedFalse)\<rparr>)
             (filter (\<lambda>(_, c). predicate_is_empty (kc_predicate c)) (enumerate 0 (kr_conditions rule))))"

fun plan_slots :: "bool \<Rightarrow> kernel_rule list \<Rightarrow> trace_slot list" where
  "plan_slots unreachable [] =
     [\<lparr>ts_rule_id = None, ts_condition_ordinal = None,
       ts_evaluation_rank = (if unreachable then None else Some 0),
       ts_disposition = (if unreachable then Unreachable else Runtime)\<rparr>]"
| "plan_slots unreachable (rule # rules) =
     rule_slots unreachable rule
     @ plan_slots (unreachable \<or> (\<not> folded_false rule \<and> runtime_conditions rule = [])) rules"

definition plan_trace_layout :: "routing_push_plan \<Rightarrow> trace_layout option" where
  "plan_trace_layout plan =
     (if \<not> rp_trace_enabled plan then None
      else Some (fold layout_push (plan_slots False (rp_rules plan)) \<lparr>tl_slots = [], tl_total_values = 0\<rparr>))"

end
