(* ===== verification/Codegen.thy ===== *)
theory Codegen
  imports Routing_Plan
begin

text \<open>
  The policy compiler \<open>control/routing_matcher/codegen.rs\<close>: the assembler with its labels and
  fix-ups, and the emitters that turn a routing plan into the body of an eBPF function. An emitter
  takes the assembler to its next state or fails; \<open>seq\<close> runs emitters in order and stops at the
  first failure, and \<open>with_label\<close> allocates a label for the emitters that use it.
\<close>

section \<open>Constants of the interface\<close>

definition R0 :: nat where "R0 = 0"
definition R1 :: nat where "R1 = 1"
definition R2 :: nat where "R2 = 2"
definition R3 :: nat where "R3 = 3"
definition R4 :: nat where "R4 = 4"
definition R5 :: nat where "R5 = 5"
definition R6 :: nat where "R6 = 6"
definition R7 :: nat where "R7 = 7"
definition READY :: nat where "READY = 8"
definition R9 :: nat where "R9 = 9"
definition R10 :: nat where "R10 = 10"

lemmas registers = R0_def R1_def R2_def R3_def R4_def R5_def R6_def R7_def READY_def R9_def R10_def

definition MAP_LOOKUP_ELEM :: i32 where "MAP_LOOKUP_ELEM = 1"
definition BPF_INSTRUCTION_CAPACITY :: nat where "BPF_INSTRUCTION_CAPACITY = 1000000"
definition PSEUDO_MAP_FD :: nat where "PSEUDO_MAP_FD = 1"

text \<open>Offsets of the fields of \<open>RoutingInput\<close>, \<open>RoutingDecision\<close> and \<open>KernelRouteOutput\<close>.\<close>

definition INPUT_SRC_IP :: int where [rust_consts]: "INPUT_SRC_IP = 0"
definition INPUT_DST_IP :: int where [rust_consts]: "INPUT_DST_IP = 16"
definition INPUT_MAC :: int where [rust_consts]: "INPUT_MAC = 32"
definition INPUT_PNAME :: int where [rust_consts]: "INPUT_PNAME = 48"
definition INPUT_SRC_PORT :: int where [rust_consts]: "INPUT_SRC_PORT = 96"
definition INPUT_DST_PORT :: int where [rust_consts]: "INPUT_DST_PORT = 100"
definition INPUT_PROTO :: int where [rust_consts]: "INPUT_PROTO = 104"
definition INPUT_VERSION :: int where [rust_consts]: "INPUT_VERSION = 108"
definition INPUT_DSCP :: int where [rust_consts]: "INPUT_DSCP = 112"
definition INPUT_PNAME_LEN :: int where [rust_consts]: "INPUT_PNAME_LEN = 120"
definition INPUT_FLAGS :: int where [rust_consts]: "INPUT_FLAGS = 124"
definition OUTBOUND :: int where [rust_consts]: "OUTBOUND = 0"
definition MARK :: int where [rust_consts]: "MARK = 4"
definition MUST :: int where [rust_consts]: "MUST = 8"
definition DOMAIN_FINAL :: int where [rust_consts]: "DOMAIN_FINAL = 12"
definition RULE_ID :: int where [rust_consts]: "RULE_ID = 16"
definition DIRECT_MARK_INDEX :: int where [rust_consts]: "DIRECT_MARK_INDEX = 20"
definition TRACE_FLAGS :: int where [rust_consts]: "TRACE_FLAGS = 24"
definition TRACE_FACT_STATE :: int where [rust_consts]: "TRACE_FACT_STATE = 44"
definition TRACE_INPUT :: int where [rust_consts]: "TRACE_INPUT = 48"
definition TRACE_DOMAIN :: int where [rust_consts]: "TRACE_DOMAIN = 176"
definition TRACE_OUTCOMES :: int where [rust_consts]: "TRACE_OUTCOMES = 208"

definition ROUTE_TRACE_WORDS :: nat where [rust_consts]: "ROUTE_TRACE_WORDS = 16"
definition ROUTE_TRACE_COMPLETE :: u32 where [rust_consts]: "ROUTE_TRACE_COMPLETE = 2"
definition ROUTE_TRACE_OVERFLOW :: u32 where [rust_consts]: "ROUTE_TRACE_OVERFLOW = 4"
definition ROUTE_TRACE_MATCHED :: u32 where [rust_consts]: "ROUTE_TRACE_MATCHED = 1"
definition ROUTE_TRACE_NOT_MATCHED :: u32 where [rust_consts]: "ROUTE_TRACE_NOT_MATCHED = 2"
definition ROUTE_FACT_PRESENT_SHIFT :: nat where [rust_consts]: "ROUTE_FACT_PRESENT_SHIFT = 16"

definition FACT_BYTES :: int where [rust_consts]: "FACT_BYTES = 32"
definition STACK_KEY :: int where [rust_consts]: "STACK_KEY = - 160"
definition STACK_DOMAIN_KEY :: int where [rust_consts]: "STACK_DOMAIN_KEY = - 176"

datatype fact_kind = FactDomain | FactDestination | FactSource | FactMac

fun fact_index :: "fact_kind \<Rightarrow> nat" where
  "fact_index FactDomain = 0"
| "fact_index FactDestination = 1"
| "fact_index FactSource = 2"
| "fact_index FactMac = 3"

definition fact_area :: "fact_kind \<Rightarrow> int" where
  "fact_area kind = - (int (fact_index kind) + 1) * FACT_BYTES"

record routing_map_fds =
  fd_destination_v4 :: i32
  fd_destination_v6 :: i32
  fd_source_v4 :: i32
  fd_source_v6 :: i32
  fd_mac :: i32
  fd_domain :: i32

section \<open>The assembler\<close>

datatype cg_error = CgCapacity | CgUnresolvedLabel nat | CgJumpRange nat nat | CgInvalidPlan | CgInvalidFd

record asm =
  a_insns :: "bpf_insn list"
  a_lines :: "(nat \<times> u32 \<times> string) list"
  a_labels :: "nat option list"
  a_fixups :: "(nat \<times> nat) list"
  a_trace_layout :: "trace_layout option"

record routing_bytecode =
  rb_insns :: "bpf_insn list"
  rb_lines :: "(nat \<times> u32 \<times> string) list"
  rb_trace_layout :: "trace_layout option"

type_synonym emitter = "asm \<Rightarrow> cg_error + asm"

fun seq :: "emitter list \<Rightarrow> emitter" where
  "seq [] a = Inr a"
| "seq (e # es) a = (case e a of Inl err \<Rightarrow> Inl err | Inr a1 \<Rightarrow> seq es a1)"

definition Assembler_new :: asm where
  "Assembler_new = \<lparr>a_insns = [], a_lines = [], a_labels = [], a_fixups = [], a_trace_layout = None\<rparr>"

definition source :: "u32 \<Rightarrow> string \<Rightarrow> emitter" where
  "source line txt a = Inr (a\<lparr>a_lines := a_lines a @ [(length (a_insns a), line, txt)]\<rparr>)"

definition with_label :: "(nat \<Rightarrow> emitter) \<Rightarrow> emitter" where
  "with_label f a = f (length (a_labels a)) (a\<lparr>a_labels := a_labels a @ [None]\<rparr>)"

definition bind_label :: "nat \<Rightarrow> emitter" where
  "bind_label l a = Inr (a\<lparr>a_labels := (a_labels a)[l := Some (length (a_insns a))]\<rparr>)"

definition emit :: "u32 \<Rightarrow> nat \<Rightarrow> nat \<Rightarrow> int \<Rightarrow> i32 \<Rightarrow> emitter" where
  "emit code d s off imm a =
     (if length (a_insns a) < BPF_INSTRUCTION_CAPACITY
      then Inr (a\<lparr>a_insns := a_insns a
                 @ [\<lparr>bi_code = as_u8 code, bi_dst = d, bi_src = s, bi_off = word_of_int off, bi_imm = imm\<rparr>]\<rparr>)
      else Inl CgCapacity)"

definition fixup :: "nat \<Rightarrow> emitter \<Rightarrow> emitter" where
  "fixup target e a =
     (case e a of
        Inl err \<Rightarrow> Inl err
      | Inr a1 \<Rightarrow> Inr (a1\<lparr>a_fixups := a_fixups a1 @ [(length (a_insns a), target)]\<rparr>))"

definition jump :: "u32 \<Rightarrow> nat \<Rightarrow> i32 \<Rightarrow> nat \<Rightarrow> emitter" where
  "jump op d imm target = fixup target (emit (BPF_JMP OR op OR BPF_K) d 0 0 imm)"

definition ja :: "nat \<Rightarrow> emitter" where
  "ja target = fixup target (emit (BPF_JMP OR BPF_JA) 0 0 0 0)"

fun resolve_fixups :: "nat option list \<Rightarrow> (nat \<times> nat) list \<Rightarrow> bpf_insn list \<Rightarrow> cg_error + bpf_insn list" where
  "resolve_fixups labels [] insns = Inr insns"
| "resolve_fixups labels ((index, label) # rest) insns =
     (case (if label < length labels then labels ! label else None) of
        None \<Rightarrow> Inl (CgUnresolvedLabel label)
      | Some target \<Rightarrow>
          let delta = int target - int index - 1 in
          if - (2 ^ 15) \<le> delta \<and> delta < 2 ^ 15
          then resolve_fixups labels rest (insns[index := (insns ! index)\<lparr>bi_off := word_of_int delta\<rparr>])
          else Inl (CgJumpRange index target))"

definition finish :: "asm \<Rightarrow> cg_error + routing_bytecode" where
  "finish a =
     (case resolve_fixups (a_labels a) (a_fixups a) (a_insns a) of
        Inl err \<Rightarrow> Inl err
      | Inr insns \<Rightarrow> Inr \<lparr>rb_insns = insns, rb_lines = a_lines a, rb_trace_layout = a_trace_layout a\<rparr>)"

definition mov_reg :: "nat \<Rightarrow> nat \<Rightarrow> emitter" where
  "mov_reg d s = emit (BPF_ALU64 OR BPF_MOV OR BPF_X) d s 0 0"
definition mov_imm :: "nat \<Rightarrow> i32 \<Rightarrow> emitter" where
  "mov_imm d imm = emit (BPF_ALU64 OR BPF_MOV OR BPF_K) d 0 0 imm"
definition add_imm :: "nat \<Rightarrow> i32 \<Rightarrow> emitter" where
  "add_imm d imm = emit (BPF_ALU64 OR BPF_K) d 0 0 imm"
definition and_imm :: "nat \<Rightarrow> i32 \<Rightarrow> emitter" where
  "and_imm d imm = emit (BPF_ALU64 OR BPF_AND OR BPF_K) d 0 0 imm"
definition or_imm :: "nat \<Rightarrow> i32 \<Rightarrow> emitter" where
  "or_imm d imm = emit (BPF_ALU64 OR BPF_OR OR BPF_K) d 0 0 imm"
definition ldx_w :: "nat \<Rightarrow> nat \<Rightarrow> int \<Rightarrow> emitter" where
  "ldx_w d s off = emit (BPF_LDX OR BPF_W OR BPF_MEM) d s off 0"
definition ldx_b :: "nat \<Rightarrow> nat \<Rightarrow> int \<Rightarrow> emitter" where
  "ldx_b d s off = emit (BPF_LDX OR BPF_B OR BPF_MEM) d s off 0"
definition ldx_dw :: "nat \<Rightarrow> nat \<Rightarrow> int \<Rightarrow> emitter" where
  "ldx_dw d s off = emit (BPF_LDX OR BPF_DW OR BPF_MEM) d s off 0"
definition stx_dw :: "nat \<Rightarrow> nat \<Rightarrow> int \<Rightarrow> emitter" where
  "stx_dw d s off = emit (BPF_STX OR BPF_DW OR BPF_MEM) d s off 0"
definition stx_w :: "nat \<Rightarrow> nat \<Rightarrow> int \<Rightarrow> emitter" where
  "stx_w d s off = emit (BPF_STX OR BPF_W OR BPF_MEM) d s off 0"
definition st_imm :: "nat \<Rightarrow> int \<Rightarrow> i32 \<Rightarrow> emitter" where
  "st_imm d off imm = emit (BPF_ST OR BPF_W OR BPF_MEM) d 0 off imm"
definition call_helper :: "i32 \<Rightarrow> emitter" where
  "call_helper helper = emit (BPF_JMP OR BPF_CALL) 0 0 0 helper"
definition exit_insn :: emitter where
  "exit_insn = emit (BPF_JMP OR BPF_EXIT) 0 0 0 0"

section \<open>Trace\<close>

definition emit_trace_or :: "int \<Rightarrow> u32 \<Rightarrow> emitter" where
  "emit_trace_or offset bits a =
     (if a_trace_layout a = None then Inr a
      else with_label (\<lambda>disabled. seq
        [jump BPF_JEQ R9 0 disabled,
         ldx_w R1 R7 offset,
         or_imm R1 bits,
         stx_w R7 R1 offset,
         bind_label disabled]) a)"

definition emit_trace_outcome :: "nat \<Rightarrow> u32 \<Rightarrow> emitter" where
  "emit_trace_outcome slot result =
     (if slot \<ge> ROUTE_TRACE_VALUES then emit_trace_or TRACE_FLAGS ROUTE_TRACE_OVERFLOW
      else emit_trace_or (TRACE_OUTCOMES + int (slot div 16 * 4)) (push_bit (slot mod 16 * 2) result))"

definition emit_trace_init :: emitter where
  "emit_trace_init a =
     (if a_trace_layout a = None then Inr a
      else with_label (\<lambda>disabled. seq
        [ldx_w R9 R7 TRACE_FLAGS,
         and_imm R9 ROUTE_TRACE_ENABLED,
         jump BPF_JEQ R9 0 disabled,
         st_imm R7 TRACE_FLAGS (ROUTE_TRACE_VERSION OR ROUTE_TRACE_ENABLED),
         st_imm R7 TRACE_FACT_STATE 0,
         seq (map (\<lambda>w. st_imm R7 (TRACE_OUTCOMES + int (w * 4)) 0) [0..<ROUTE_TRACE_WORDS]),
         seq (map (\<lambda>w. st_imm R7 (TRACE_DOMAIN + int w * 4) 0) [0..<nat (FACT_BYTES div 4)]),
         seq (map (\<lambda>w. seq [ldx_w R1 R6 (int (w * 4)), stx_w R7 R1 (TRACE_INPUT + int (w * 4))]) [0..<32]),
         bind_label disabled]) a)"

definition emit_trace_domain :: emitter where
  "emit_trace_domain a =
     (if a_trace_layout a = None then Inr a
      else with_label (\<lambda>disabled. seq
        [jump BPF_JEQ R9 0 disabled,
         seq (map (\<lambda>w. seq [ldx_dw R1 R10 (fact_area FactDomain + int w * 8),
                            stx_dw R7 R1 (TRACE_DOMAIN + int w * 8)]) [0..<nat (FACT_BYTES div 8)]),
         bind_label disabled]) a)"

section \<open>Facts\<close>

definition write_key_from_input :: "int \<Rightarrow> u32 \<Rightarrow> emitter" where
  "write_key_from_input input_offset prefix_len =
     (let words = (if prefix_len = 32 then 1 else 4 :: nat) in
      seq
        [st_imm R10 STACK_KEY prefix_len,
         seq (map (\<lambda>i. seq [ldx_w R3 R6 (input_offset + int (i * 4)),
                            stx_w R10 R3 (STACK_KEY + 4 + int (i * 4))]) [0..<words]),
         seq (map (\<lambda>i. st_imm R10 (STACK_KEY + 4 + int (i * 4)) 0) [words..<4])])"

definition write_domain_key_from_input :: emitter where
  "write_domain_key_from_input = seq
     [ldx_dw R3 R6 INPUT_DST_IP,
      stx_dw R10 R3 STACK_DOMAIN_KEY,
      ldx_dw R3 R6 (INPUT_DST_IP + 8),
      stx_dw R10 R3 (STACK_DOMAIN_KEY + 8)]"

definition load_map_fd :: "i32 \<Rightarrow> emitter" where
  "load_map_fd fd = seq
     [emit (BPF_LD OR BPF_DW OR BPF_IMM) R1 PSEUDO_MAP_FD 0 fd,
      emit 0 0 0 0 0]"

definition emit_fact_key :: "fact_kind \<Rightarrow> routing_map_fds \<Rightarrow> nat \<Rightarrow> nat \<Rightarrow> emitter" where
  "emit_fact_key kind fds absent lookup =
     (case kind of
        FactDomain \<Rightarrow> seq [write_domain_key_from_input, load_map_fd (fd_domain fds)]
      | FactMac \<Rightarrow> seq
          [ldx_w R0 R6 INPUT_FLAGS,
           and_imm R0 ROUTING_INPUT_MAC_PRESENT,
           jump BPF_JEQ R0 0 absent,
           write_key_from_input INPUT_MAC 128,
           load_map_fd (fd_mac fds)]
      | _ \<Rightarrow>
          let (v4_fd, v6_fd, input_offset) =
                (case kind of
                   FactDestination \<Rightarrow> (fd_destination_v4 fds, fd_destination_v6 fds, INPUT_DST_IP)
                 | _ \<Rightarrow> (fd_source_v4 fds, fd_source_v6 fds, INPUT_SRC_IP))
          in with_label (\<lambda>v6. seq
            [ldx_w R0 R6 INPUT_VERSION,
             jump BPF_JNE R0 1 v6,
             write_key_from_input (input_offset + 12) 32,
             load_map_fd v4_fd,
             ja lookup,
             bind_label v6,
             jump BPF_JNE R0 2 absent,
             write_key_from_input input_offset 128,
             load_map_fd v6_fd]))"

definition emit_fact_lookup :: "fact_kind \<Rightarrow> routing_map_fds \<Rightarrow> emitter" where
  "emit_fact_lookup kind fds =
     with_label (\<lambda>absent. with_label (\<lambda>lookup. with_label (\<lambda>done.
       let key = (case kind of FactDomain \<Rightarrow> STACK_DOMAIN_KEY | _ \<Rightarrow> STACK_KEY) in seq
       [emit_fact_key kind fds absent lookup,
        bind_label lookup,
        mov_reg R2 R10,
        add_imm R2 (word_of_int key),
        call_helper MAP_LOOKUP_ELEM,
        jump BPF_JEQ R0 0 absent,
        seq (if kind = FactDomain then [st_imm R7 DOMAIN_FINAL 1] else []),
        seq (map (\<lambda>w. seq [ldx_dw R1 R0 (int w * 8), stx_dw R10 R1 (fact_area kind + int w * 8)])
               [0..<nat (FACT_BYTES div 8)]),
        emit_trace_or TRACE_FACT_STATE (push_bit ROUTE_FACT_PRESENT_SHIFT (push_bit (fact_index kind) 1)),
        ja done,
        bind_label absent,
        mov_imm R1 0,
        seq (map (\<lambda>w. stx_dw R10 R1 (fact_area kind + int w * 8)) [0..<nat (FACT_BYTES div 8)]),
        bind_label done,
        emit_trace_or TRACE_FACT_STATE (push_bit (fact_index kind) 1),
        (if kind = FactDomain then emit_trace_domain else seq [])])))"

definition emit_fact_bit :: "fact_kind \<Rightarrow> u32 \<Rightarrow> nat \<Rightarrow> nat \<Rightarrow> emitter" where
  "emit_fact_bit kind fid on_true on_false = seq
     [ldx_w R2 R10 (fact_area kind + int (unat fid div 32 * 4)),
      and_imm R2 (push_bit (unat fid mod 32) 1),
      jump BPF_JNE R2 0 on_true,
      ja on_false]"

definition emit_fact_bit_lazy :: "fact_kind \<Rightarrow> u32 \<Rightarrow> nat \<Rightarrow> nat \<Rightarrow> routing_map_fds \<Rightarrow> emitter" where
  "emit_fact_bit_lazy kind fid on_true on_false fds =
     with_label (\<lambda>resolved. let ready_bit = push_bit (fact_index kind - 1) 1 in seq
       [jump BPF_JSET READY ready_bit resolved,
        emit_fact_lookup kind fds,
        or_imm READY ready_bit,
        bind_label resolved,
        emit_fact_bit kind fid on_true on_false])"

section \<open>Predicates\<close>

definition emit_mask_scalar :: "int \<Rightarrow> i32 \<Rightarrow> nat \<Rightarrow> nat \<Rightarrow> emitter" where
  "emit_mask_scalar offset bits on_true on_false = seq
     [ldx_w R0 R6 offset,
      and_imm R0 bits,
      jump BPF_JNE R0 0 on_true,
      ja on_false]"

definition emit_port_range :: "nat \<Rightarrow> port_range \<Rightarrow> emitter" where
  "emit_port_range on_true r =
     with_label (\<lambda>next. with_label (\<lambda>inside. seq
       [jump BPF_JGE R0 (as_u32 (range_start r)) inside,
        ja next,
        bind_label inside,
        jump BPF_JGT R0 (as_u32 (range_end r)) next,
        ja on_true,
        bind_label next]))"

definition emit_port_ranges :: "port_range list \<Rightarrow> int \<Rightarrow> nat \<Rightarrow> nat \<Rightarrow> emitter" where
  "emit_port_ranges ranges offset on_true on_false = seq
     [ldx_w R0 R6 offset,
      seq (map (emit_port_range on_true) ranges),
      ja on_false]"

definition emit_name_at :: "nat \<Rightarrow> u8 list \<Rightarrow> nat \<Rightarrow> emitter" where
  "emit_name_at on_true bytes offset =
     with_label (\<lambda>next. with_label (\<lambda>enough. seq
       [jump BPF_JGE R4 (of_nat (offset + length bytes)) enough,
        ja next,
        bind_label enough,
        seq (map (\<lambda>(i, b). seq
               [ldx_b R5 R6 (INPUT_PNAME + int offset + int i),
                jump BPF_JNE R5 (as_u32 b) next]) (enumerate 0 bytes)),
        ja on_true,
        bind_label next]))"

definition emit_process_name :: "nat \<Rightarrow> u8 list \<Rightarrow> emitter" where
  "emit_process_name on_true bytes =
     with_label (\<lambda>next_name. seq
       [ldx_w R4 R6 INPUT_PNAME_LEN,
        (if bytes = [] then jump BPF_JNE R4 0 on_true
         else with_label (\<lambda>long. seq
           [jump BPF_JGE R4 (of_nat (length bytes)) long,
            ja next_name,
            bind_label long,
            seq (map (emit_name_at on_true bytes) [0..<ROUTING_PROCESS_MAX_LEN - length bytes + 1]),
            bind_label next_name]))])"

definition emit_process_names :: "u8 list list \<Rightarrow> nat \<Rightarrow> nat \<Rightarrow> emitter" where
  "emit_process_names names on_true on_false = seq
     [seq (map (emit_process_name on_true) names),
      ja on_false]"

definition emit_dscp :: "u8 list \<Rightarrow> nat \<Rightarrow> nat \<Rightarrow> emitter" where
  "emit_dscp values on_true on_false = seq
     [ldx_w R0 R6 INPUT_DSCP,
      seq (map (\<lambda>v. jump BPF_JEQ R0 (as_u32 v) on_true) values),
      ja on_false]"

fun emit_predicate :: "kernel_predicate \<Rightarrow> nat \<Rightarrow> nat \<Rightarrow> routing_map_fds \<Rightarrow> emitter" where
  "emit_predicate (KDomain fid) on_true on_false fds = emit_fact_bit FactDomain fid on_true on_false"
| "emit_predicate (KDestinationIp fid) on_true on_false fds =
     emit_fact_bit_lazy FactDestination fid on_true on_false fds"
| "emit_predicate (KSourceIp fid) on_true on_false fds =
     emit_fact_bit_lazy FactSource fid on_true on_false fds"
| "emit_predicate (KMac fid) on_true on_false fds = emit_fact_bit_lazy FactMac fid on_true on_false fds"
| "emit_predicate (KDestinationPort ranges) on_true on_false fds =
     emit_port_ranges ranges INPUT_DST_PORT on_true on_false"
| "emit_predicate (KSourcePort ranges) on_true on_false fds =
     emit_port_ranges ranges INPUT_SRC_PORT on_true on_false"
| "emit_predicate (KProtocol bits) on_true on_false fds =
     emit_mask_scalar INPUT_PROTO (as_u32 bits) on_true on_false"
| "emit_predicate (KIpVersion bits) on_true on_false fds =
     emit_mask_scalar INPUT_VERSION (as_u32 bits) on_true on_false"
| "emit_predicate (KDscp values) on_true on_false fds = emit_dscp values on_true on_false"
| "emit_predicate (KProcessName names) on_true on_false fds = emit_process_names names on_true on_false"

definition emit_condition :: "kernel_condition \<Rightarrow> nat \<Rightarrow> nat \<Rightarrow> routing_map_fds \<Rightarrow> emitter" where
  "emit_condition condition pass fail fds =
     (let on_true = (if kc_not condition then fail else pass);
          on_false = (if kc_not condition then pass else fail)
      in emit_predicate (kc_predicate condition) on_true on_false fds)"

section \<open>Actions and the program\<close>

definition emit_action :: "kernel_action \<Rightarrow> u32 option \<Rightarrow> bool \<Rightarrow> emitter" where
  "emit_action action rule_id refine_direct_finality = seq
     [(if refine_direct_finality \<and> ka_outbound action = outbound_u8 Direct \<and> \<not> ka_must action
       then with_label (\<lambda>not_final. seq
         [ldx_w R0 R6 INPUT_FLAGS,
          and_imm R0 ROUTING_INPUT_ALLOW_DIRECT_FINALITY,
          jump BPF_JEQ R0 0 not_final,
          st_imm R7 DOMAIN_FINAL 1,
          bind_label not_final])
       else seq []),
      seq (if rule_id \<noteq> None then [st_imm R7 OUTBOUND (as_u32 (ka_outbound action))] else []),
      seq (if rule_id \<noteq> None \<or> ka_mark action \<noteq> 0 then [st_imm R7 MARK (ka_mark action)] else []),
      seq (if rule_id \<noteq> None \<or> ka_must action
           then [st_imm R7 MUST (if ka_must action then 1 else 0)] else []),
      seq (case rule_id of Some i \<Rightarrow> [st_imm R7 RULE_ID i] | None \<Rightarrow> []),
      seq (if rule_id \<noteq> None \<or> ka_direct_mark_index action \<noteq> None
           then [st_imm R7 DIRECT_MARK_INDEX
                   (case ka_direct_mark_index action of None \<Rightarrow> - 1 | Some i \<Rightarrow> as_u32 i)]
           else [])]"

fun predicate_valid :: "nat \<Rightarrow> kernel_predicate \<Rightarrow> bool" where
  "predicate_valid count (KDomain fid) = (unat fid < count)"
| "predicate_valid count (KDestinationIp fid) = (unat fid < ROUTING_FACT_CAPACITY)"
| "predicate_valid count (KSourceIp fid) = (unat fid < ROUTING_FACT_CAPACITY)"
| "predicate_valid count (KMac fid) = (unat fid < ROUTING_FACT_CAPACITY)"
| "predicate_valid count (KDestinationPort ranges) = list_all (\<lambda>r. range_start r \<le> range_end r) ranges"
| "predicate_valid count (KSourcePort ranges) = list_all (\<lambda>r. range_start r \<le> range_end r) ranges"
| "predicate_valid count (KProtocol bits) = (bits AND NOT 3 = 0)"
| "predicate_valid count (KIpVersion bits) = (bits AND NOT 3 = 0)"
| "predicate_valid count (KProcessName names) = list_all (\<lambda>n. length n \<le> ROUTING_PROCESS_MAX_LEN) names"
| "predicate_valid count (KDscp _) = True"

definition is_process_predicate :: "kernel_predicate \<Rightarrow> bool" where
  "is_process_predicate p = (case p of KProcessName _ \<Rightarrow> True | _ \<Rightarrow> False)"

definition is_domain_predicate :: "kernel_predicate \<Rightarrow> bool" where
  "is_domain_predicate p = (case p of KDomain _ \<Rightarrow> True | _ \<Rightarrow> False)"

definition validate_plan :: "routing_push_plan \<Rightarrow> bool" where
  "validate_plan plan \<longleftrightarrow>
     rp_domain_predicate_count plan \<le> ROUTING_FACT_CAPACITY
     \<and> rp_has_domain_rules plan = (rp_domain_predicate_count plan \<noteq> 0)
     \<and> (rp_features plan AND ROUTING_FEATURE_DOMAIN \<noteq> 0) = rp_has_domain_rules plan
     \<and> (rp_features plan AND ROUTING_FEATURE_DOMAIN_REROUTE = 0 \<or> rp_has_domain_rules plan)
     \<and> (rp_features plan AND ROUTING_FEATURE_PROCESS \<noteq> 0)
       = list_ex (\<lambda>rule. list_ex (\<lambda>c. is_process_predicate (kc_predicate c)) (kr_conditions rule)) (rp_rules plan)
     \<and> list_all (\<lambda>rule. kr_id rule < push_bit 22 1 - 1
         \<and> list_all (\<lambda>c. predicate_valid (rp_domain_predicate_count plan) (kc_predicate c)) (kr_conditions rule))
         (rp_rules plan)
     \<and> list_all (\<lambda>(key, _). lk_prefix_len key \<le> 32) (fm_destination_v4 (rp_facts plan))
     \<and> list_all (\<lambda>(key, _). lk_prefix_len key \<le> 32) (fm_source_v4 (rp_facts plan))
     \<and> list_all (\<lambda>(key, _). lk_prefix_len key \<le> 128) (fm_destination_v6 (rp_facts plan))
     \<and> list_all (\<lambda>(key, _). lk_prefix_len key \<le> 128) (fm_source_v6 (rp_facts plan))
     \<and> list_all (\<lambda>(key, _). lk_prefix_len key = 128) (fm_mac (rp_facts plan))"

definition fds_valid :: "routing_map_fds \<Rightarrow> bool" where
  "fds_valid fds \<longleftrightarrow>
     list_all (\<lambda>fd. 0 \<le> sint fd)
       [fd_destination_v4 fds, fd_destination_v6 fds, fd_source_v4 fds, fd_source_v6 fds, fd_mac fds, fd_domain fds]"

definition domain_reroute :: "routing_push_plan \<Rightarrow> bool" where
  "domain_reroute plan \<longleftrightarrow> rp_features plan AND ROUTING_FEATURE_DOMAIN_REROUTE \<noteq> 0"

definition emit_prologue :: "routing_push_plan \<Rightarrow> routing_map_fds \<Rightarrow> emitter" where
  "emit_prologue plan fds = seq
     [source 0 ''routing function prologue'',
      seq (map (\<lambda>register. with_label (\<lambda>nonnull. seq
             [jump BPF_JNE register 0 nonnull,
              mov_imm R0 (- 14),
              exit_insn,
              bind_label nonnull])) [R1, R2]),
      mov_reg R6 R1,
      mov_reg R7 R2,
      st_imm R7 DIRECT_MARK_INDEX (- 1),
      st_imm R7 OUTBOUND (as_u32 (ka_outbound (rp_fallback plan))),
      st_imm R7 MARK 0,
      st_imm R7 MUST 0,
      st_imm R7 DOMAIN_FINAL (if \<not> rp_has_domain_rules plan \<or> \<not> domain_reroute plan then 1 else 0),
      st_imm R7 RULE_ID (- 1),
      ldx_w READY R7 MARK,
      seq (map (\<lambda>kind. seq (map (\<lambda>w. seq
             [ldx_w R1 R7 MARK,
              stx_dw R10 R1 (fact_area kind + int w * 8)]) [0..<nat (FACT_BYTES div 8)]))
        [FactDestination, FactSource, FactMac]),
      emit_trace_init,
      (if rp_has_domain_rules plan then emit_fact_lookup FactDomain fds else seq [])]"

fun emit_conditions ::
  "routing_push_plan \<Rightarrow> routing_map_fds \<Rightarrow> nat \<Rightarrow> nat \<Rightarrow> nat \<Rightarrow> (nat \<times> kernel_condition) list \<Rightarrow> emitter"
where
  "emit_conditions plan fds fail rule_slot rank [] = seq []"
| "emit_conditions plan fds fail rule_slot rank ((_, condition) # rest) =
     with_label (\<lambda>pass. seq
       [(if rp_trace_enabled plan
         then with_label (\<lambda>missed. seq
           [emit_condition condition pass missed fds,
            bind_label missed,
            emit_trace_outcome (rule_slot + 1 + rank) ROUTE_TRACE_NOT_MATCHED,
            ja fail])
         else emit_condition condition pass fail fds),
        bind_label pass,
        emit_trace_outcome (rule_slot + 1 + rank) ROUTE_TRACE_MATCHED,
        emit_conditions plan fds fail rule_slot (rank + 1) rest])"

definition emit_return :: emitter where
  "emit_return = seq [emit_trace_or TRACE_FLAGS ROUTE_TRACE_COMPLETE, mov_imm R0 0, exit_insn]"

text \<open>\<open>domain_prefix\<close> says that a rule so far tests a domain. An unconditional rule ends the program:
  whatever follows would be unreachable.\<close>

fun emit_rules ::
  "routing_push_plan \<Rightarrow> routing_map_fds \<Rightarrow> nat \<Rightarrow> bool \<Rightarrow> kernel_rule list \<Rightarrow> emitter"
where
  "emit_rules plan fds slot domain_prefix [] = seq
     [source 0 ''fallback'',
      emit_trace_outcome slot ROUTE_TRACE_MATCHED,
      emit_action (rp_fallback plan) None (domain_reroute plan \<and> \<not> domain_prefix),
      emit_return]"
| "emit_rules plan fds slot domain_prefix (rule # rules) =
     (let next_slot = slot + 1 + length (kr_conditions rule);
          conditions = runtime_conditions rule;
          prefix = (domain_prefix \<or> list_ex (\<lambda>(_, c). is_domain_predicate (kc_predicate c)) conditions)
      in if folded_false rule then emit_rules plan fds next_slot domain_prefix rules
         else seq
           [source (kr_id rule + 1) (kr_source rule),
            with_label (\<lambda>fail. seq
              [emit_conditions plan fds fail slot 0 conditions,
               emit_trace_outcome slot ROUTE_TRACE_MATCHED,
               emit_action (kr_action rule) (Some (kr_id rule)) (domain_reroute plan \<and> \<not> prefix),
               emit_return,
               (if conditions = [] then seq []
                else seq
                  [bind_label fail,
                   emit_trace_outcome slot ROUTE_TRACE_NOT_MATCHED,
                   emit_rules plan fds next_slot prefix rules])])])"

definition emit_routing_program :: "routing_push_plan \<Rightarrow> routing_map_fds \<Rightarrow> cg_error + routing_bytecode" where
  "emit_routing_program plan fds =
     (if \<not> validate_plan plan then Inl CgInvalidPlan
      else if \<not> fds_valid fds then Inl CgInvalidFd
      else case seq [emit_prologue plan fds, emit_rules plan fds 0 False (rp_rules plan)]
                  (Assembler_new\<lparr>a_trace_layout := plan_trace_layout plan\<rparr>) of
        Inl err \<Rightarrow> Inl err
      | Inr a \<Rightarrow> finish a)"

end
