(* ===== verification/Codegen_Logic.thy ===== *)
theory Codegen_Logic
  imports Codegen
begin

text \<open>
  Labelled code, the meaning of the emitters. An emitter appends a list of items to the program:
  instructions, jumps to labels and label bindings. \<open>spec e T n Q\<close> says that, started with \<open>n\<close>
  labels and trace layout \<open>T\<close>, the items the emitter \<open>e\<close> appends satisfy \<open>Q\<close>; its rules compute
  the items of a composite emitter. \<open>run_items\<close> executes labelled code, a jump going to the
  binding of its label in the rest of the code. The assembler theorem \<open>finish_runs\<close> shows that the
  bytecode of \<open>finish\<close> executes like the labelled code, in at most one step per instruction.
\<close>

section \<open>Labelled code\<close>

datatype item = Ins bpf_insn | Jump bpf_insn nat | Bind nat

fun item_code :: "item list \<Rightarrow> bpf_insn list" where
  "item_code [] = []"
| "item_code (Ins i # is) = i # item_code is"
| "item_code (Jump i l # is) = i # item_code is"
| "item_code (Bind l # is) = item_code is"

fun item_fixups :: "nat \<Rightarrow> item list \<Rightarrow> (nat \<times> nat) list" where
  "item_fixups n [] = []"
| "item_fixups n (Ins i # is) = item_fixups (Suc n) is"
| "item_fixups n (Jump i l # is) = (n, l) # item_fixups (Suc n) is"
| "item_fixups n (Bind l # is) = item_fixups n is"

fun binds :: "item list \<Rightarrow> nat list" where
  "binds [] = []"
| "binds (Bind l # is) = l # binds is"
| "binds (Ins i # is) = binds is"
| "binds (Jump i l # is) = binds is"

fun bind_pos :: "nat \<Rightarrow> item list \<Rightarrow> nat \<Rightarrow> nat option" where
  "bind_pos n [] l = None"
| "bind_pos n (Bind k # is) l = (if k = l then Some n else bind_pos n is l)"
| "bind_pos n (Ins i # is) l = bind_pos (Suc n) is l"
| "bind_pos n (Jump i k # is) l = bind_pos (Suc n) is l"

fun find_label :: "nat \<Rightarrow> item list \<Rightarrow> item list" where
  "find_label l [] = []"
| "find_label l (Bind k # is) = (if k = l then is else find_label l is)"
| "find_label l (Ins i # is) = find_label l is"
| "find_label l (Jump i k # is) = find_label l is"

definition scoped :: "item list \<Rightarrow> nat \<Rightarrow> nat \<Rightarrow> bool" where
  "scoped is n n' \<longleftrightarrow> n \<le> n' \<and> distinct (binds is) \<and> set (binds is) \<subseteq> {n..<n'}"

definition lab :: "asm \<Rightarrow> nat \<Rightarrow> nat option" where
  "lab a l = (if l < length (a_labels a) then a_labels a ! l else None)"

type_synonym view = "bpf_insn list \<times> (nat \<times> nat) list \<times> (nat \<Rightarrow> nat option)"

definition view :: "asm \<Rightarrow> view" where
  "view a = (a_insns a, a_fixups a, lab a)"

fun place :: "item \<Rightarrow> view \<Rightarrow> view" where
  "place (Ins i) (c, f, L) = (c @ [i], f, L)"
| "place (Jump i l) (c, f, L) = (c @ [i], f @ [(length c, l)], L)"
| "place (Bind l) (c, f, L) = (c, f, L(l \<mapsto> length c))"

definition spec ::
  "emitter \<Rightarrow> trace_layout option \<Rightarrow> nat \<Rightarrow> (item list \<Rightarrow> nat \<Rightarrow> bool) \<Rightarrow> bool"
where
  "spec e T n Q \<longleftrightarrow>
     (\<forall>a a'. a_trace_layout a = T \<longrightarrow> length (a_labels a) = n \<longrightarrow> e a = Inr a'
        \<longrightarrow> (\<exists>is. view a' = fold place is (view a) \<and> a_trace_layout a' = T \<and> Q is (length (a_labels a'))))"

section \<open>Execution of labelled code\<close>

definition jump_cond :: "bpf_insn \<Rightarrow> machine \<Rightarrow> bool option" where
  "jump_cond i m =
     (let c = bi_code i; v = imm64 (bi_imm i) in
      if c = 0x05 then Some True
      else if c \<notin> {0x15, 0x55, 0x25, 0x35, 0x45} then None
      else case m_regs m (bi_dst i) of
        Scalar w \<Rightarrow> Some (if c = 0x15 then w = v else if c = 0x55 then w \<noteq> v else if c = 0x25 then w > v
                         else if c = 0x35 then w \<ge> v else w AND v \<noteq> 0)
      | Pointer _ _ \<Rightarrow> if bi_imm i = 0 then Some (c = 0x55) else None
      | Uninit \<Rightarrow> None)"

definition is_jump :: "bpf_insn \<Rightarrow> bool" where
  "is_jump i \<longleftrightarrow> bi_code i \<in> {0x05, 0x15, 0x55, 0x25, 0x35, 0x45}"

fun next_insn :: "item list \<Rightarrow> bpf_insn option" where
  "next_insn (Ins i # is) = Some i"
| "next_insn _ = None"

lemma find_label_length: "length (find_label l is) \<le> length is"
  by (induction l "is" rule: find_label.induct) auto

function run_items :: "bpf_maps \<Rightarrow> item list \<Rightarrow> machine \<Rightarrow> (u64 \<times> machine) option" where
  "run_items maps [] m = None"
| "run_items maps (Bind l # is) m = run_items maps is m"
| "run_items maps (Ins i # is) m =
     (if is_jump i then None
      else case exec_insn maps i (next_insn is) (goto 0 m) of
        Next m1 \<Rightarrow> run_items maps (if bi_code i = 0x18 then tl is else is) (goto 0 m1)
      | Exited w m1 \<Rightarrow> Some (w, goto 0 m1)
      | Fault \<Rightarrow> None)"
| "run_items maps (Jump i l # is) m =
     (case jump_cond i m of
        None \<Rightarrow> None
      | Some taken \<Rightarrow> run_items maps (if taken then find_label l is else is) m)"
  by pat_completeness auto
termination
  by (relation "measure (\<lambda>(_, is, _). length is)") (auto simp: find_label_length less_Suc_eq_le)

section \<open>The assembler\<close>

lemma fold_place:
  "distinct (binds is) \<Longrightarrow> fold place is (c, f, L) =
     (c @ item_code is, f @ item_fixups (length c) is,
      \<lambda>l. case bind_pos (length c) is l of Some t \<Rightarrow> Some t | None \<Rightarrow> L l)"
proof (induction "is" arbitrary: c f L)
  case (Cons x "is")
  then show ?case
  proof (cases x)
    case (Bind l)
    have "l \<notin> set (binds is) \<Longrightarrow> bind_pos n is l = None" for n "is"
      by (induction n "is" l rule: bind_pos.induct) auto
    with Cons Bind show ?thesis by (fastforce simp: fun_eq_iff split: option.split)
  qed auto
qed auto

lemma item_fixups_range: "(i, l) \<in> set (item_fixups n is) \<Longrightarrow> n \<le> i \<and> i < n + length (item_code is)"
  by (induction n "is" rule: item_fixups.induct) auto

lemma item_fixups_distinct: "distinct (map fst (item_fixups n is))"
  by (induction n "is" rule: item_fixups.induct) (fastforce dest: item_fixups_range)+

definition lookup_label :: "nat option list \<Rightarrow> nat \<Rightarrow> nat option" where
  "lookup_label labels l = (if l < length labels then labels ! l else None)"

lemma resolve_fixups_sound:
  "resolve_fixups labels fx insns = Inr P \<Longrightarrow> distinct (map fst fx) \<Longrightarrow> \<forall>(i, l) \<in> set fx. i < length insns \<Longrightarrow>
   length P = length insns
   \<and> (\<forall>i. i \<notin> fst ` set fx \<longrightarrow> P ! i = insns ! i)
   \<and> (\<forall>(i, l) \<in> set fx. \<exists>t. lookup_label labels l = Some t \<and> - (2 ^ 15) \<le> int t - int i - 1 \<and> int t - int i - 1 < 2 ^ 15
        \<and> P ! i = (insns ! i)\<lparr>bi_off := word_of_int (int t - int i - 1)\<rparr>)"
proof (induction labels fx insns rule: resolve_fixups.induct)
  case (2 labels index label rest insns)
  from 2(2) obtain t where t: "lookup_label labels label = Some t"
      "- (2 ^ 15) \<le> int t - int index - 1" "int t - int index - 1 < 2 ^ 15"
    and r: "resolve_fixups labels rest (insns[index := (insns ! index)\<lparr>bi_off := word_of_int (int t - int index - 1)\<rparr>]) = Inr P"
    by (auto simp: lookup_label_def Let_def split: option.splits if_splits)
  let ?ins = "insns[index := (insns ! index)\<lparr>bi_off := word_of_int (int t - int index - 1)\<rparr>]"
  have IH: "length P = length ?ins
   \<and> (\<forall>i. i \<notin> fst ` set rest \<longrightarrow> P ! i = ?ins ! i)
   \<and> (\<forall>(i, l) \<in> set rest. \<exists>t. lookup_label labels l = Some t \<and> - (2 ^ 15) \<le> int t - int i - 1 \<and> int t - int i - 1 < 2 ^ 15
        \<and> P ! i = (?ins ! i)\<lparr>bi_off := word_of_int (int t - int i - 1)\<rparr>)"
    using 2(1)[of t "int t - int index - 1"] 2(3,4) t r by (auto simp: lookup_label_def)
  have ni: "index \<notin> fst ` set rest" and li: "index < length insns" using 2(3,4) by auto
  have "P ! i = insns ! i" if "i \<notin> fst ` set ((index, label) # rest)" for i
    using IH that by auto
  moreover have "\<exists>t. lookup_label labels l = Some t \<and> - (2 ^ 15) \<le> int t - int i - 1 \<and> int t - int i - 1 < 2 ^ 15
        \<and> P ! i = (insns ! i)\<lparr>bi_off := word_of_int (int t - int i - 1)\<rparr>"
    if "(i, l) \<in> set ((index, label) # rest)" for i l
  proof (cases "(i, l) = (index, label)")
    case True
    with IH ni li t show ?thesis by auto
  next
    case False
    with that have m: "(i, l) \<in> set rest" by auto
    with ni have "i \<noteq> index" by force
    with IH m show ?thesis by fastforce
  qed
  ultimately show ?case using IH by auto
qed auto

text \<open>\<open>assembled P I\<close>: the bytecode \<open>P\<close> is the labelled code \<open>I\<close> with its jumps resolved.\<close>

definition assembled :: "bpf_insn list \<Rightarrow> item list \<Rightarrow> bool" where
  "assembled P I \<longleftrightarrow>
     length P = length (item_code I)
     \<and> (\<forall>i < length P. i \<notin> fst ` set (item_fixups 0 I) \<longrightarrow> P ! i = item_code I ! i)
     \<and> (\<forall>(i, l) \<in> set (item_fixups 0 I). \<exists>t. bind_pos 0 I l = Some t \<and> - (2 ^ 15) \<le> int t - int i - 1
          \<and> int t - int i - 1 < 2 ^ 15 \<and> P ! i = (item_code I ! i)\<lparr>bi_off := word_of_int (int t - int i - 1)\<rparr>)"

lemma finish_assembled:
  assumes "view a = fold place I ([], [], \<lambda>_. None)" "distinct (binds I)" "finish a = Inr bc"
  shows "assembled (rb_insns bc) I"
proof -
  have v: "a_insns a = item_code I" "a_fixups a = item_fixups 0 I" "lab a = bind_pos 0 I"
    using assms(1) fold_place[OF assms(2), of "[]" "[]" "\<lambda>_. None"]
    by (auto simp: view_def fun_eq_iff split: option.splits)
  have l: "lookup_label (a_labels a) = lab a" by (auto simp: fun_eq_iff lookup_label_def lab_def)
  from assms(3) v have r: "resolve_fixups (a_labels a) (item_fixups 0 I) (item_code I) = Inr (rb_insns bc)"
    by (auto simp: finish_def split: sum.splits)
  have "\<forall>(i, l) \<in> set (item_fixups 0 I). i < length (item_code I)"
    by (auto dest: item_fixups_range)
  from resolve_fixups_sound[OF r item_fixups_distinct this, unfolded l v] show ?thesis
    unfolding assembled_def by blast
qed

lemma item_code_append: "item_code (xs @ ys) = item_code xs @ item_code ys"
  by (induction xs rule: item_code.induct) auto

lemma item_fixups_append: "item_fixups n (xs @ ys) = item_fixups n xs @ item_fixups (n + length (item_code xs)) ys"
  by (induction n xs rule: item_fixups.induct) auto

lemma binds_append [simp]: "binds (xs @ ys) = binds xs @ binds ys"
  by (induction xs rule: binds.induct) auto

lemma bind_pos_append:
  "bind_pos n (xs @ ys) l = (case bind_pos n xs l of Some t \<Rightarrow> Some t | None \<Rightarrow> bind_pos (n + length (item_code xs)) ys l)"
  by (induction n xs l rule: bind_pos.induct) (auto split: option.split)

lemma bind_pos_None [simp]: "bind_pos n is l = None \<longleftrightarrow> l \<notin> set (binds is)"
  by (induction n "is" l rule: bind_pos.induct) auto

lemma find_label_suffix:
  "l \<in> set (binds is) \<Longrightarrow>
   \<exists>pre. is = pre @ find_label l is \<and> bind_pos n is l = Some (n + length (item_code pre))"
proof (induction l "is" arbitrary: n rule: find_label.induct)
  case (2 l k "is")
  show ?case
  proof (cases "k = l")
    case True
    then show ?thesis by (intro exI[of _ "[Bind k]"]) auto
  next
    case False
    with 2 obtain pre where "is = pre @ find_label l is" "bind_pos n is l = Some (n + length (item_code pre))"
      by fastforce
    with False show ?thesis by (intro exI[of _ "Bind k # pre"]) auto
  qed
next
  case (3 l i "is")
  then obtain pre where "is = pre @ find_label l is" "bind_pos (Suc n) is l = Some (Suc n + length (item_code pre))"
    by fastforce
  then show ?case by (intro exI[of _ "Ins i # pre"]) auto
next
  case (4 l i k "is")
  then obtain pre where "is = pre @ find_label l is" "bind_pos (Suc n) is l = Some (Suc n + length (item_code pre))"
    by fastforce
  then show ?case by (intro exI[of _ "Jump i k # pre"]) auto
qed auto

lemma find_label_none: "l \<notin> set (binds is) \<Longrightarrow> find_label l is = []"
  by (induction l "is" rule: find_label.induct) auto

lemma find_label_append:
  "find_label l (xs @ ys) = (if l \<in> set (binds xs) then find_label l xs @ ys else find_label l ys)"
  by (induction l xs rule: find_label.induct) auto

lemma bpf_run_mono: "bpf_run f P maps m = Some r \<Longrightarrow> f \<le> g \<Longrightarrow> bpf_run g P maps m = Some r"
proof (induction f P maps m arbitrary: g rule: bpf_run.induct)
  case (2 f P maps m)
  then obtain k where "g = Suc k" "f \<le> k" by (cases g) auto
  with 2 show ?case by (auto split: outcome.splits)
qed auto

section \<open>The bytecode runs like the labelled code\<close>

lemma jump_cond_jump: "jump_cond i m = Some b \<Longrightarrow> bi_code i \<in> {0x05, 0x15, 0x55, 0x25, 0x35, 0x45}"
  by (rule ccontr) (simp add: jump_cond_def Let_def)

lemma jump_cond_exec:
  assumes "jump_cond i m = Some b"
  shows "exec_insn maps i nx m = branch b i m"
  using jump_cond_jump[OF assms] assms
  by (elim insertE emptyE; cases "m_regs m (bi_dst i)";
      simp add: jump_cond_def exec_insn_def branch_imm_def Let_def split: if_splits)

lemma goto_simps [simp]:
  "goto p (goto q m) = goto p m" "m_regs (goto p m) = m_regs m" "m_input (goto p m) = m_input m"
  "m_output (goto p m) = m_output m" "m_stack (goto p m) = m_stack m" "m_pc (goto p m) = p"
  "set_reg r v (goto p m) = goto p (set_reg r v m)"
  by (simp_all add: goto_def set_reg_def)

lemma jump_cond_goto [simp]: "jump_cond i (goto p m) = jump_cond i m"
  unfolding jump_cond_def goto_simps ..

lemma jump_cond_off [simp]: "jump_cond (i\<lparr>bi_off := off\<rparr>) m = jump_cond i m"
  by (cases i, hypsubst) (unfold jump_cond_def bpf_insn.select_convs bpf_insn.update_convs, rule refl)

lemma region_bytes_goto [simp]: "region_bytes (goto p m) r = region_bytes m r"
  by (cases r) simp_all

lemma mem_load_goto [simp]: "mem_load (goto p m) v off n = mem_load m v off n"
  unfolding mem_load_def region_bytes_goto ..

lemma mem_store_goto [simp]: "mem_store (goto p m) v off xs = map_option (goto p) (mem_store m v off xs)"
proof (cases v)
  case (Pointer r q)
  then show ?thesis by (cases r) (auto simp: mem_store_def goto_def option.map_comp comp_def intro!: option.map_cong0)
qed (simp_all add: mem_store_def)

definition insn_width :: "bpf_insn \<Rightarrow> nat" where
  "insn_width i = (if bi_code i = 0x18 then 2 else 1)"

fun relocate :: "nat \<Rightarrow> outcome \<Rightarrow> outcome" where
  "relocate p (Next m) = Next (goto p m)"
| "relocate p (Exited w m) = Exited w m"
| "relocate p Fault = Fault"

fun strip_exit :: "outcome \<Rightarrow> outcome" where
  "strip_exit (Exited w m) = Exited w (goto 0 m)"
| "strip_exit x = x"

lemma proceed_goto:
  "proceed (map_option (goto p) r) = relocate (p + 1) (proceed r)"
  by (cases r) (simp_all add: proceed_def)

lemma proceed_goto_Some: "proceed (Some (goto p m)) = relocate (p + 1) (proceed (Some m))"
  by (simp add: proceed_def)

lemma set_result_goto: "set_result r v (goto p m) = relocate (p + 1) (set_result r v m)"
  by (cases v) (simp_all add: set_result_def proceed_def)

lemma strip_relocate [simp]: "strip_exit (relocate p x) = relocate p (strip_exit x)"
  by (cases x) simp_all

lemma alu_goto: "alu_imm f i (goto p m) = relocate (p + 1) (alu_imm f i m)"
  by (auto simp: alu_imm_def set_result_goto split: bval.split)

lemma add_imm_goto: "add_imm_insn i (goto p m) = relocate (p + 1) (add_imm_insn i m)"
  by (auto simp: add_imm_insn_def set_result_goto proceed_goto_Some split: bval.split)

lemma lookup_goto: "lookup_elem maps (goto p m) = relocate (p + 1) (lookup_elem maps m)"
proof -
  have u: "(goto p m)\<lparr>m_regs := f\<rparr> = goto p (m\<lparr>m_regs := f\<rparr>)" for f by (simp add: goto_def)
  show ?thesis
    unfolding lookup_elem_def goto_simps(2)
    by (auto simp: u Let_def proceed_goto_Some split: bval.split region.split option.split)
qed

lemma exec_insn_goto:
  assumes "\<not> is_jump i"
  shows "strip_exit (exec_insn maps i nx (goto p m)) = relocate (p + insn_width i) (strip_exit (exec_insn maps i nx m))"
  using assms unfolding exec_insn_def insn_width_def is_jump_def
  by (simp add: Let_def proceed_goto proceed_goto_Some set_result_goto alu_goto add_imm_goto lookup_goto
      split: bval.split)

lemma exec_insn_next:
  "bi_code i \<noteq> 0x18 \<or> (nx = None) = (nx' = None) \<Longrightarrow> exec_insn maps i nx m = exec_insn maps i nx' m"
  by (cases "bi_code i = 0x18") (auto simp: exec_insn_def Let_def)

lemma strip_Next: "strip_exit x = Next m \<Longrightarrow> x = Next m"
  by (cases x) auto

lemma strip_Exited: "strip_exit x = Exited w m \<Longrightarrow> \<exists>m0. x = Exited w m0 \<and> m = goto 0 m0"
  by (cases x) auto

lemma sint_offset: "- (2 ^ 15) \<le> k \<Longrightarrow> k < 2 ^ 15 \<Longrightarrow> sint (word_of_int k :: i16) = k"
  by transfer (simp add: signed_take_bit_int_eq_self)

text \<open>What the bytecode has at the position of an item.\<close>

lemma assembled_insn:
  assumes "assembled P (pre @ Ins i # is)"
  shows "fetch P (length (item_code pre)) = Some i"
proof -
  let ?p = "length (item_code pre)"
  have "?p \<notin> fst ` set (item_fixups 0 (pre @ Ins i # is))"
    by (auto simp: item_fixups_append dest: item_fixups_range)
  with assms show ?thesis by (auto simp: assembled_def fetch_def item_code_append nth_append)
qed

lemma assembled_jump:
  assumes "assembled P (pre @ Jump i l # is)" "distinct (binds (pre @ Jump i l # is))" "l \<in> set (binds is)"
  obtains mid off where
    "is = mid @ find_label l is" "fetch P (length (item_code pre)) = Some (i\<lparr>bi_off := off\<rparr>)"
    "sint off = int (length (item_code mid))"
proof -
  let ?p = "length (item_code pre)"
  obtain mid where mid: "is = mid @ find_label l is" "bind_pos (Suc ?p) is l = Some (Suc ?p + length (item_code mid))"
    using find_label_suffix[OF assms(3)] by blast
  have "(?p, l) \<in> set (item_fixups 0 (pre @ Jump i l # is))" by (simp add: item_fixups_append)
  with assms(1) obtain t where t: "bind_pos 0 (pre @ Jump i l # is) l = Some t"
      "- (2 ^ 15) \<le> int t - int ?p - 1" "int t - int ?p - 1 < 2 ^ 15"
      "P ! ?p = (item_code (pre @ Jump i l # is) ! ?p)\<lparr>bi_off := word_of_int (int t - int ?p - 1)\<rparr>"
    unfolding assembled_def by blast
  have "l \<notin> set (binds pre)" using assms(2,3) by auto
  then have "bind_pos 0 pre l = None" by simp
  with t(1) mid(2) have "t = Suc ?p + length (item_code mid)" by (simp add: bind_pos_append)
  then have "int t - int ?p - 1 = int (length (item_code mid))" by simp
  moreover have "?p < length P" using assms(1) by (simp add: assembled_def item_code_append)
  ultimately show thesis
    using that[OF mid(1), of "word_of_int (int t - int ?p - 1)"] t sint_offset[OF t(2,3)]
    by (simp add: fetch_def item_code_append nth_append)
qed

lemma assembled_jump_stays:
  assumes "assembled P (pre @ Jump i l # is)"
  obtains off where "fetch P (length (item_code pre)) = Some (i\<lparr>bi_off := off\<rparr>)"
proof -
  let ?p = "length (item_code pre)"
  have "(?p, l) \<in> set (item_fixups 0 (pre @ Jump i l # is))" by (simp add: item_fixups_append)
  with assms obtain t where
      "P ! ?p = (item_code (pre @ Jump i l # is) ! ?p)\<lparr>bi_off := word_of_int (int t - int ?p - 1)\<rparr>"
    unfolding assembled_def by blast
  moreover have "?p < length P" using assms by (simp add: assembled_def item_code_append)
  ultimately show thesis
    using that[of "word_of_int (int t - int ?p - 1)"] by (simp add: fetch_def item_code_append nth_append)
qed

lemma bpf_run_step:
  assumes "bpf_step P maps m = Next m1" "bpf_run f P maps m1 = Some r" "f < g"
  shows "bpf_run g P maps m = Some r"
proof -
  from \<open>f < g\<close> obtain k where "g = Suc k" "f \<le> k" by (cases g) auto
  then show ?thesis using assms(1) bpf_run_mono[OF assms(2)] by simp
qed

lemma run_items_sim:
  assumes "assembled P I" "distinct (binds I)"
  shows "run_items maps is m = Some (w, m') \<Longrightarrow> I = pre @ is \<Longrightarrow>
    \<exists>m''. bpf_run (length P - length (item_code pre)) P maps (goto (length (item_code pre)) m) = Some (w, m'')
          \<and> goto 0 m'' = m'"
proof (induction maps "is" m arbitrary: pre rule: run_items.induct)
  case (2 maps l "is" m)
  from 2(1)[of "pre @ [Bind l]"] 2(2,3) show ?case by (simp add: item_code_append)
next
  case (3 maps i "is" m)
  let ?p = "length (item_code pre)" and ?x = "exec_insn maps i (next_insn is) (goto 0 m)"
  have fetch: "fetch P ?p = Some i" using assembled_insn assms(1) 3(3) by blast
  have len: "length P = ?p + Suc (length (item_code is))"
    using assms(1) 3(3) by (simp add: assembled_def item_code_append)
  have nj: "\<not> is_jump i" using 3(2) by (auto split: if_splits)
  have nx: "bi_code i \<noteq> 0x18 \<or> (fetch P (?p + 1) = None) = (next_insn is = None)"
  proof (cases "next_insn is")
    case None
    have "bi_code i = 0x18 \<Longrightarrow> ?x = Fault" using None by (simp add: exec_insn_def)
    then show ?thesis using 3(2) nj by auto
  next
    case (Some j)
    then obtain is' where "is = Ins j # is'" by (cases "is" rule: next_insn.cases) auto
    then show ?thesis using Some len by (simp add: fetch_def)
  qed
  have step: "strip_exit (bpf_step P maps (goto ?p m)) = relocate (?p + insn_width i) (strip_exit ?x)"
    using exec_insn_goto[OF nj, of maps "next_insn is" ?p "goto 0 m"] exec_insn_next[OF nx]
    by (simp add: bpf_step_def fetch)
  show ?case
  proof (cases ?x)
    case (Next m1)
    let ?rest = "if bi_code i = 0x18 then tl is else is"
    have run: "run_items maps ?rest (goto 0 m1) = Some (w, m')" using 3(2) nj Next by auto
    have s: "bpf_step P maps (goto ?p m) = Next (goto (?p + insn_width i) m1)"
      using step Next strip_Next by auto
    obtain pre' where pre': "I = pre' @ ?rest" "length (item_code pre') = ?p + insn_width i"
    proof (cases "bi_code i = 0x18")
      case True
      then obtain j where "next_insn is = Some j" using Next by (fastforce simp: exec_insn_def split: if_splits)
      then obtain is' where "is = Ins j # is'" by (cases "is" rule: next_insn.cases) auto
      then show thesis using that[of "pre @ [Ins i, Ins j]"] 3(3) True by (simp add: item_code_append insn_width_def)
    next
      case False
      then show thesis using that[of "pre @ [Ins i]"] 3(3) by (simp add: item_code_append insn_width_def)
    qed
    from 3(1)[OF nj Next run pre'(1)] obtain m'' where
      "bpf_run (length P - (?p + insn_width i)) P maps (goto (?p + insn_width i) m1) = Some (w, m'')" "goto 0 m'' = m'"
      using pre'(2) by auto
    moreover have "length P - (?p + insn_width i) < length P - ?p" using len by (simp add: insn_width_def)
    ultimately show ?thesis using bpf_run_step[OF s] by blast
  next
    case (Exited v m1)
    with step obtain m0 where "bpf_step P maps (goto ?p m) = Exited v m0" "goto 0 m0 = goto 0 m1"
      using strip_Exited by fastforce
    then show ?thesis using 3(2) nj Exited len by (cases "length P - ?p") auto
  next
    case Fault
    then show ?thesis using 3(2) nj by auto
  qed
next
  case (4 maps i l "is" m)
  let ?p = "length (item_code pre)"
  have a: "assembled P (pre @ Jump i l # is)" "distinct (binds (pre @ Jump i l # is))"
    using assms 4(3) by auto
  have len: "length P = ?p + Suc (length (item_code is))"
    using assms(1) 4(3) by (simp add: assembled_def item_code_append)
  from 4(2) obtain b where b: "jump_cond i m = Some b"
    and run: "run_items maps (if b then find_label l is else is) m = Some (w, m')"
    by (auto split: option.splits)
  have jc: "jump_cond (i\<lparr>bi_off := off\<rparr>) (goto ?p m) = Some b" for off
    using b by simp
  show ?case
  proof (cases b)
    case True
    with run have "l \<in> set (binds is)" by (cases "l \<in> set (binds is)") (auto simp: find_label_none)
    then obtain mid off where m: "is = mid @ find_label l is" "fetch P ?p = Some (i\<lparr>bi_off := off\<rparr>)"
      "sint off = int (length (item_code mid))" by (rule assembled_jump[OF a])
    have s: "bpf_step P maps (goto ?p m) = Next (goto (?p + 1 + length (item_code mid)) m)"
      using jump_cond_exec[OF jc] True m(2,3) by (simp add: bpf_step_def branch_def Let_def nat_add_distrib)
    have i: "I = (pre @ Jump i l # mid) @ (if b then find_label l is else is)" using 4(3) m(1) True by simp
    from 4(1)[OF b run i] obtain m'' where
      "bpf_run (length P - (?p + 1 + length (item_code mid))) P maps (goto (?p + 1 + length (item_code mid)) m) = Some (w, m'')"
      "goto 0 m'' = m'" by (auto simp: item_code_append)
    moreover have "length P - (?p + 1 + length (item_code mid)) < length P - ?p" using len by simp
    ultimately show ?thesis using bpf_run_step[OF s] by blast
  next
    case False
    obtain off where f: "fetch P ?p = Some (i\<lparr>bi_off := off\<rparr>)" by (rule assembled_jump_stays[OF a(1)])
    have s: "bpf_step P maps (goto ?p m) = Next (goto (?p + 1) m)"
      using jump_cond_exec[OF jc] False f by (simp add: bpf_step_def branch_def Let_def nat_add_distrib)
    have i: "I = (pre @ [Jump i l]) @ (if b then find_label l is else is)" using 4(3) False by simp
    from 4(1)[OF b run i] obtain m'' where
      "bpf_run (length P - (?p + 1)) P maps (goto (?p + 1) m) = Some (w, m'')" "goto 0 m'' = m'"
      by (auto simp: item_code_append)
    moreover have "length P - (?p + 1) < length P - ?p" using len by simp
    ultimately show ?thesis using bpf_run_step[OF s] by blast
  qed
qed auto

lemma finish_runs:
  assumes "view a = fold place I ([], [], \<lambda>_. None)" "distinct (binds I)" "finish a = Inr bc"
    and "run_items maps I m = Some (w, m')" "m_pc m = 0"
  shows "\<exists>m''. bpf_run (length (rb_insns bc)) (rb_insns bc) maps m = Some (w, m'') \<and> goto 0 m'' = m'"
proof -
  have "goto 0 m = m" using assms(5) by (simp add: goto_def)
  with run_items_sim[OF finish_assembled[OF assms(1-3)] assms(2,4), of "[]"] show ?thesis by simp
qed

end
