(* ===== verification/Codegen_Run.thy ===== *)
theory Codegen_Run
  imports Codegen_Logic
begin

text \<open>
  Rules for the emitters and for the execution of the instructions they emit: \<open>spec_rules\<close> compute
  the items of an emitter, the \<open>run_insn\<close> equations execute one item, and the memory lemmas
  describe reads and writes of byte ranges.
\<close>

named_theorems spec_rules
named_theorems run_insn

section \<open>Byte ranges\<close>

definition segment :: "nat \<Rightarrow> nat \<Rightarrow> u8 list \<Rightarrow> u8 list" where
  "segment q n bs = take n (drop q bs)"

definition upd_bytes :: "u8 list \<Rightarrow> nat \<Rightarrow> u8 list \<Rightarrow> u8 list" where
  "upd_bytes bs q xs = take q bs @ xs @ drop (q + length xs) bs"

definition st_upd :: "nat \<Rightarrow> u8 list \<Rightarrow> machine \<Rightarrow> machine" where
  "st_upd q xs m = m\<lparr>m_stack := upd_bytes (m_stack m) q xs\<rparr>"

definition out_upd :: "nat \<Rightarrow> u8 list \<Rightarrow> machine \<Rightarrow> machine" where
  "out_upd q xs m = m\<lparr>m_output := upd_bytes (m_output m) q xs\<rparr>"

definition fld :: "nat \<Rightarrow> u8 list \<Rightarrow> u32" where
  "fld q bs = ucast (le_word (segment q 4 bs))"

definition mk :: "u8 \<Rightarrow> nat \<Rightarrow> nat \<Rightarrow> int \<Rightarrow> i32 \<Rightarrow> bpf_insn" where
  "mk c d s off imm = \<lparr>bi_code = c, bi_dst = d, bi_src = s, bi_off = word_of_int off, bi_imm = imm\<rparr>"

lemma mk_simps [simp]:
  "bi_code (mk c d s off imm) = c" "bi_dst (mk c d s off imm) = d" "bi_src (mk c d s off imm) = s"
  "bi_off (mk c d s off imm) = word_of_int off" "bi_imm (mk c d s off imm) = imm"
  by (simp_all add: mk_def)

lemma length_segment [simp]: "q + n \<le> length bs \<Longrightarrow> length (segment q n bs) = n"
  by (simp add: segment_def)

lemma length_upd_bytes [simp]: "q + length xs \<le> length bs \<Longrightarrow> length (upd_bytes bs q xs) = length bs"
  by (simp add: upd_bytes_def)

lemma segment_upd_same: "q + length xs \<le> length bs \<Longrightarrow> segment q (length xs) (upd_bytes bs q xs) = xs"
  by (simp add: segment_def upd_bytes_def)

lemma segment_upd_other:
  "r + n \<le> q \<or> q + length xs \<le> r \<Longrightarrow> q + length xs \<le> length bs \<Longrightarrow> segment r n (upd_bytes bs q xs) = segment r n bs"
proof (elim disjE)
  assume "r + n \<le> q" "q + length xs \<le> length bs"
  then show ?thesis by (auto simp: segment_def upd_bytes_def drop_take min_def)
next
  assume "q + length xs \<le> r" "q + length xs \<le> length bs"
  then show ?thesis by (auto simp: segment_def upd_bytes_def)
qed

lemma segment_all: "length bs = n \<Longrightarrow> segment 0 n bs = bs"
  by (simp add: segment_def)

lemma segment_nested: "p + k \<le> n \<Longrightarrow> segment p k (segment q n bs) = segment (q + p) k bs"
  by (simp add: segment_def drop_take min_def add.commute)

lemma segment_append: "segment q n bs @ segment (q + n) k bs = segment q (n + k) bs"
  by (simp add: segment_def take_add add.commute[of q n])

lemma upd_upd_adjacent:
  "q' = q + length xs \<Longrightarrow> q' + length ys \<le> length bs \<Longrightarrow>
   upd_bytes (upd_bytes bs q xs) q' ys = upd_bytes bs q (xs @ ys)"
  by (simp add: upd_bytes_def ac_simps)

section \<open>Little-endian words\<close>

lemma le_word_bit:
  "bit (le_word bs) i \<longleftrightarrow> i < 64 \<and> i div 8 < length bs \<and> bit (bs ! (i div 8)) (i mod 8)"
proof (induction bs arbitrary: i)
  case (Cons b bs)
  show ?case
  proof (cases "i < 8")
    case True
    then show ?thesis by (auto simp: le_word_def bit_or_iff bit_push_bit_iff bit_unsigned_iff dest: bit_imp_le_length)
  next
    case False
    then obtain j where j: "i = j + 8" by (metis le_add_diff_inverse2 not_less)
    have "bit (le_word (b # bs)) i \<longleftrightarrow> i < 64 \<and> bit (le_word bs) j"
      using j by (auto simp: le_word_def bit_or_iff bit_push_bit_iff bit_unsigned_iff dest: bit_imp_le_length)
    moreover have "i div 8 = Suc (j div 8)" "i mod 8 = j mod 8" using j by simp_all
    ultimately show ?thesis using Cons[of j] j by auto
  qed
qed (simp add: le_word_def)

lemma le_bytes_length [simp]: "length (le_bytes n w) = n"
  by (simp add: le_bytes_def)

lemma le_bytes_nth: "i < n \<Longrightarrow> bit (le_bytes n w ! i) j \<longleftrightarrow> j < 8 \<and> bit w (8 * i + j)"
  by (auto simp: le_bytes_def bit_unsigned_iff bit_drop_bit_eq dest: bit_imp_le_length)

lemma le_bytes_le_word:
  assumes "length bs = n" "n \<le> 8"
  shows "le_bytes n (le_word bs) = bs"
proof (rule nth_equalityI)
  fix i assume i: "i < length (le_bytes n (le_word bs))"
  show "le_bytes n (le_word bs) ! i = bs ! i"
  proof (rule bit_word_eqI)
    fix j assume "j < LENGTH(8)"
    then show "bit (le_bytes n (le_word bs) ! i) j = bit (bs ! i) j"
      using i assms by (simp add: le_bytes_nth le_word_bit)
  qed
qed (simp add: assms)

lemma le_word_le_bytes: "n \<le> 8 \<Longrightarrow> le_word (le_bytes n w) = take_bit (8 * n) w"
  by (rule bit_word_eqI) (auto simp: le_word_bit le_bytes_nth bit_take_bit_iff div_less_iff_less_mult mult.commute)

lemma le_word_fld: "length (segment q 4 bs) = 4 \<Longrightarrow> le_word (segment q 4 bs) = ucast (fld q bs)"
proof (rule bit_word_eqI)
  fix i assume "length (segment q 4 bs) = 4" "i < LENGTH(64)"
  then show "bit (le_word (segment q 4 bs)) i = bit (ucast (fld q bs) :: u64) i"
    unfolding fld_def by (auto simp: le_word_bit bit_unsigned_iff)
qed

lemma bit_imm64: "bit (imm64 i) n \<longleftrightarrow> n < 64 \<and> bit i (min n 31)"
  by (auto simp: imm64_def bit_signed_iff min_def)

lemma le_bytes_imm64: "le_bytes 4 (imm64 i) = le_bytes 4 (ucast i)"
proof (rule nth_equalityI)
  fix k assume "k < length (le_bytes 4 (imm64 i))"
  then have k: "k < 4" by simp
  show "le_bytes 4 (imm64 i) ! k = le_bytes 4 (ucast i) ! k"
    using k by (intro bit_word_eqI) (auto simp: le_bytes_nth bit_imm64 bit_unsigned_iff min_def dest: bit_imp_le_length)
qed simp

lemma imm64_0 [simp]: "imm64 0 = 0"
  by (simp add: imm64_def)

lemma imm64_nonneg: "sint i \<ge> 0 \<Longrightarrow> imm64 i = ucast i"
proof (rule bit_word_eqI)
  fix n assume "0 \<le> sint i" "n < LENGTH(64)"
  then have "\<not> bit i 31" using bit_last_iff[of i] by simp
  then show "bit (imm64 i) n = bit (ucast i :: u64) n"
    by (auto simp: bit_imm64 bit_unsigned_iff min_def dest: bit_imp_le_length)
qed

lemma ucast_eq_0: "(ucast (x :: u32) = (0 :: u64)) \<longleftrightarrow> x = 0"
proof
  assume u: "(ucast x :: u64) = 0"
  show "x = 0"
  proof (rule bit_word_eqI)
    fix i assume "i < LENGTH(32)"
    then have "bit (ucast x :: u64) i = bit x i" by (simp add: bit_unsigned_iff)
    then show "bit x i = bit (0 :: u32) i" using u by simp
  qed
qed simp

lemma ucast_and_imm64: "(ucast (w :: u32) AND imm64 b = (0 :: u64)) \<longleftrightarrow> w AND b = 0"
proof -
  have "(ucast w AND imm64 b :: u64) = ucast (w AND b)"
    by (rule bit_word_eqI) (auto simp: bit_and_iff bit_imm64 bit_unsigned_iff min_def dest: bit_imp_le_length)
  then show ?thesis by (simp add: ucast_eq_0)
qed

lemma and_push_bit_one: "n < 32 \<Longrightarrow> (w :: u32) AND push_bit n 1 = 0 \<longleftrightarrow> \<not> bit w n"
  by (auto simp: word_bits_iff bit_and_iff bit_exp_iff)

section \<open>Rules for emitters\<close>

lemma spec_mono: "spec e T n Q \<Longrightarrow> (\<And>is n'. Q is n' \<Longrightarrow> R is n') \<Longrightarrow> spec e T n R"
  unfolding spec_def by blast

lemma spec_Nil [spec_rules]: "Q [] n \<Longrightarrow> spec (seq []) T n Q"
  by (force simp: spec_def)

lemma spec_then:
  assumes spec: "spec e T n (\<lambda>is k. spec e' T k (\<lambda>is' k'. Q (is @ is') k'))"
    and f: "\<And>a. f a = (case e a of Inl err \<Rightarrow> Inl err | Inr a1 \<Rightarrow> e' a1)"
  shows "spec f T n Q"
  unfolding spec_def
proof (intro allI impI)
  fix a a' assume pre: "a_trace_layout a = T" "length (a_labels a) = n" and run: "f a = Inr a'"
  from run obtain a1 where a1: "e a = Inr a1" "e' a1 = Inr a'" by (auto simp: f split: sum.splits)
  from spec[unfolded spec_def[of e]] pre a1(1) obtain "is" where i: "view a1 = fold place is (view a)" "a_trace_layout a1 = T"
      "spec e' T (length (a_labels a1)) (\<lambda>is' k'. Q (is @ is') k')" by blast
  from i(3)[unfolded spec_def] i(2) a1(2) obtain is' where "view a' = fold place is' (view a1)" "a_trace_layout a' = T"
      "Q (is @ is') (length (a_labels a'))" by blast
  with i(1) show "\<exists>is. view a' = fold place is (view a) \<and> a_trace_layout a' = T \<and> Q is (length (a_labels a'))"
    by (intro exI[of _ "is @ is'"]) simp
qed

lemma spec_Cons [spec_rules]:
  "spec e T n (\<lambda>is k. spec (seq es) T k (\<lambda>is' k'. Q (is @ is') k')) \<Longrightarrow> spec (seq (e # es)) T n Q"
  by (erule spec_then) simp

lemma seq_append: "seq (es @ fs) a = (case seq es a of Inl err \<Rightarrow> Inl err | Inr a1 \<Rightarrow> seq fs a1)"
  by (induction es arbitrary: a) (auto split: sum.split)

lemma spec_append:
  "spec (seq es) T n (\<lambda>is k. spec (seq fs) T k (\<lambda>is' k'. Q (is @ is') k')) \<Longrightarrow> spec (seq (es @ fs)) T n Q"
  by (erule spec_then) (rule seq_append)

lemma spec_with_label [spec_rules]: "spec (f n) T (Suc n) Q \<Longrightarrow> spec (with_label f) T n Q"
  unfolding spec_def with_label_def
proof (intro allI impI)
  fix a a' :: asm
  let ?b = "a\<lparr>a_labels := a_labels a @ [None]\<rparr>"
  assume s: "\<forall>a a'. a_trace_layout a = T \<longrightarrow> length (a_labels a) = Suc n \<longrightarrow> f n a = Inr a' \<longrightarrow>
       (\<exists>is. view a' = fold place is (view a) \<and> a_trace_layout a' = T \<and> Q is (length (a_labels a')))"
    and pre: "a_trace_layout a = T" "length (a_labels a) = n" "f (length (a_labels a)) ?b = Inr a'"
  have "view ?b = view a" by (auto simp: view_def lab_def fun_eq_iff nth_append)
  then show "\<exists>is. view a' = fold place is (view a) \<and> a_trace_layout a' = T \<and> Q is (length (a_labels a'))"
    using s[rule_format, of ?b a'] pre by simp
qed

lemma spec_bind [spec_rules]: "l < n \<Longrightarrow> Q [Bind l] n \<Longrightarrow> spec (bind_label l) T n Q"
  unfolding spec_def bind_label_def
proof (intro allI impI)
  fix a a' assume *: "l < n" "Q [Bind l] n" "a_trace_layout a = T" "length (a_labels a) = n"
    "Inr (a\<lparr>a_labels := (a_labels a)[l := Some (length (a_insns a))]\<rparr>) = (Inr a' :: cg_error + asm)"
  then have "view a' = fold place [Bind l] (view a)" by (auto simp: view_def lab_def fun_eq_iff)
  with * show "\<exists>is. view a' = fold place is (view a) \<and> a_trace_layout a' = T \<and> Q is (length (a_labels a'))"
    by (intro exI[of _ "[Bind l]"]) auto
qed

lemma spec_source [spec_rules]: "Q [] n \<Longrightarrow> spec (source k s) T n Q"
proof -
  have "view (a\<lparr>a_lines := x\<rparr>) = view a" for a :: asm and x by (simp add: view_def lab_def fun_eq_iff)
  then show "Q [] n \<Longrightarrow> spec (source k s) T n Q" by (force simp: spec_def source_def)
qed

lemma emit_view: "emit c d s off imm a = Inr a' \<Longrightarrow>
   a' = a\<lparr>a_insns := a_insns a @ [mk (ucast c) d s off imm]\<rparr>"
  by (auto simp: emit_def mk_def split: if_splits)

lemma spec_emit: "Q [Ins (mk (ucast c) d s off imm)] n \<Longrightarrow> spec (emit c d s off imm) T n Q"
  unfolding spec_def
  by (auto dest!: emit_view simp: view_def lab_def fun_eq_iff intro!: exI[of _ "[Ins (mk (ucast c) d s off imm)]"])

lemma spec_fixup: "Q [Jump (mk (ucast c) d s off imm) l] n \<Longrightarrow> spec (fixup l (emit c d s off imm)) T n Q"
  unfolding spec_def fixup_def
  by (auto dest!: emit_view simp: view_def lab_def fun_eq_iff split: sum.splits
      intro!: exI[of _ "[Jump (mk (ucast c) d s off imm) l]"])

text \<open>The instruction of each mnemonic.\<close>

lemma spec_mov_reg [spec_rules]: "Q [Ins (mk 0xbf d s 0 0)] n \<Longrightarrow> spec (mov_reg d s) T n Q"
  using spec_emit[of Q] by (simp add: mov_reg_def rust_consts)

lemma spec_mov_imm [spec_rules]: "Q [Ins (mk 0xb7 d 0 0 imm)] n \<Longrightarrow> spec (mov_imm d imm) T n Q"
  using spec_emit[of Q] by (simp add: mov_imm_def rust_consts)

lemma spec_add_imm [spec_rules]: "Q [Ins (mk 0x07 d 0 0 imm)] n \<Longrightarrow> spec (add_imm d imm) T n Q"
  using spec_emit[of Q] by (simp add: add_imm_def rust_consts)

lemma spec_and_imm [spec_rules]: "Q [Ins (mk 0x57 d 0 0 imm)] n \<Longrightarrow> spec (and_imm d imm) T n Q"
  using spec_emit[of Q] by (simp add: and_imm_def rust_consts)

lemma spec_or_imm [spec_rules]: "Q [Ins (mk 0x47 d 0 0 imm)] n \<Longrightarrow> spec (or_imm d imm) T n Q"
  using spec_emit[of Q] by (simp add: or_imm_def rust_consts)

lemma spec_ldx_w [spec_rules]: "Q [Ins (mk 0x61 d s off 0)] n \<Longrightarrow> spec (ldx_w d s off) T n Q"
  using spec_emit[of Q] by (simp add: ldx_w_def rust_consts)

lemma spec_ldx_b [spec_rules]: "Q [Ins (mk 0x71 d s off 0)] n \<Longrightarrow> spec (ldx_b d s off) T n Q"
  using spec_emit[of Q] by (simp add: ldx_b_def rust_consts)

lemma spec_ldx_dw [spec_rules]: "Q [Ins (mk 0x79 d s off 0)] n \<Longrightarrow> spec (ldx_dw d s off) T n Q"
  using spec_emit[of Q] by (simp add: ldx_dw_def rust_consts)

lemma spec_stx_dw [spec_rules]: "Q [Ins (mk 0x7b d s off 0)] n \<Longrightarrow> spec (stx_dw d s off) T n Q"
  using spec_emit[of Q] by (simp add: stx_dw_def rust_consts)

lemma spec_stx_w [spec_rules]: "Q [Ins (mk 0x63 d s off 0)] n \<Longrightarrow> spec (stx_w d s off) T n Q"
  using spec_emit[of Q] by (simp add: stx_w_def rust_consts)

lemma spec_st_imm [spec_rules]: "Q [Ins (mk 0x62 d 0 off imm)] n \<Longrightarrow> spec (st_imm d off imm) T n Q"
  using spec_emit[of Q] by (simp add: st_imm_def rust_consts)

lemma spec_call_helper [spec_rules]: "Q [Ins (mk 0x85 0 0 0 h)] n \<Longrightarrow> spec (call_helper h) T n Q"
  using spec_emit[of Q] by (simp add: call_helper_def rust_consts)

lemma spec_exit_insn [spec_rules]: "Q [Ins (mk 0x95 0 0 0 0)] n \<Longrightarrow> spec (exit_insn) T n Q"
  using spec_emit[of Q] by (simp add: exit_insn_def rust_consts)

lemma spec_JEQ [spec_rules]: "Q [Jump (mk 0x15 d 0 0 imm) l] n \<Longrightarrow> spec (jump BPF_JEQ d imm l) T n Q"
  using spec_fixup[of Q] by (simp add: jump_def rust_consts)

lemma spec_JNE [spec_rules]: "Q [Jump (mk 0x55 d 0 0 imm) l] n \<Longrightarrow> spec (jump BPF_JNE d imm l) T n Q"
  using spec_fixup[of Q] by (simp add: jump_def rust_consts)

lemma spec_JGT [spec_rules]: "Q [Jump (mk 0x25 d 0 0 imm) l] n \<Longrightarrow> spec (jump BPF_JGT d imm l) T n Q"
  using spec_fixup[of Q] by (simp add: jump_def rust_consts)

lemma spec_JGE [spec_rules]: "Q [Jump (mk 0x35 d 0 0 imm) l] n \<Longrightarrow> spec (jump BPF_JGE d imm l) T n Q"
  using spec_fixup[of Q] by (simp add: jump_def rust_consts)

lemma spec_JSET [spec_rules]: "Q [Jump (mk 0x45 d 0 0 imm) l] n \<Longrightarrow> spec (jump BPF_JSET d imm l) T n Q"
  using spec_fixup[of Q] by (simp add: jump_def rust_consts)

lemma spec_ja [spec_rules]: "Q [Jump (mk 0x05 0 0 0 0) l] n \<Longrightarrow> spec (ja l) T n Q"
  using spec_fixup[of Q] by (simp add: ja_def rust_consts)

lemma spec_load_map_fd [spec_rules]:
  "Q [Ins (mk 0x18 1 1 0 fd), Ins (mk 0 0 0 0 0)] n \<Longrightarrow> spec (load_map_fd fd) T n Q"
  unfolding load_map_fd_def
  by (intro spec_rules spec_emit) (simp add: rust_consts registers PSEUDO_MAP_FD_def)

section \<open>Execution of instructions\<close>

lemma run_items_goto [simp]: "run_items maps is (goto p m) = run_items maps is m"
proof (induction maps "is" m rule: run_items.induct)
  case (4 maps i l "is" m)
  then show ?case by (cases "jump_cond i m") auto
qed auto

lemma state_simps [simp]:
  "m_regs (set_reg r v m) = (m_regs m)(r := v)" "m_input (set_reg r v m) = m_input m"
  "m_output (set_reg r v m) = m_output m" "m_stack (set_reg r v m) = m_stack m"
  "m_regs (st_upd q xs m) = m_regs m" "m_input (st_upd q xs m) = m_input m"
  "m_output (st_upd q xs m) = m_output m" "m_stack (st_upd q xs m) = upd_bytes (m_stack m) q xs"
  "m_regs (out_upd q xs m) = m_regs m" "m_input (out_upd q xs m) = m_input m"
  "m_output (out_upd q xs m) = upd_bytes (m_output m) q xs" "m_stack (out_upd q xs m) = m_stack m"
  by (simp_all add: set_reg_def st_upd_def out_upd_def)

lemma st_upd_set_reg: "st_upd q xs (set_reg r v m) = set_reg r v (st_upd q xs m)"
  by (simp add: st_upd_def set_reg_def)

lemma set_reg_same: "set_reg r v (set_reg r w m) = set_reg r v m"
  by (simp add: set_reg_def)

lemma st_upd_adjacent:
  "q' = q + length xs \<Longrightarrow> q' + length ys \<le> length (m_stack m) \<Longrightarrow> st_upd q' ys (st_upd q xs m) = st_upd q (xs @ ys) m"
  by (simp add: st_upd_def upd_upd_adjacent)

lemmas st_upd_normal = st_upd_set_reg set_reg_same st_upd_adjacent

lemma run_Bind [run_insn]: "run_items maps (Bind l # is) m = run_items maps is m"
  by simp

lemma run_mov_reg [run_insn]:
  "run_items maps (Ins (mk 0xbf d s off imm) # is) m = run_items maps is (set_reg d (m_regs m s) m)"
  by (simp add: is_jump_def exec_insn_def proceed_def)

lemma run_mov_imm [run_insn]:
  "run_items maps (Ins (mk 0xb7 d s off imm) # is) m = run_items maps is (set_reg d (Scalar (imm64 imm)) m)"
  by (simp add: is_jump_def exec_insn_def set_result_def proceed_def)

lemma run_add_imm [run_insn]:
  "m_regs m d = Pointer r q \<Longrightarrow>
   run_items maps (Ins (mk 0x07 d s off imm) # is) m = run_items maps is (set_reg d (Pointer r (q + sint imm)) m)"
  by (simp add: is_jump_def exec_insn_def add_imm_insn_def proceed_def)

lemma run_and_imm [run_insn]:
  "m_regs m d = Scalar w \<Longrightarrow>
   run_items maps (Ins (mk 0x57 d s off imm) # is) m = run_items maps is (set_reg d (Scalar (w AND imm64 imm)) m)"
  by (simp add: is_jump_def exec_insn_def alu_imm_def set_result_def proceed_def)

lemma run_or_imm [run_insn]:
  "m_regs m d = Scalar w \<Longrightarrow>
   run_items maps (Ins (mk 0x47 d s off imm) # is) m = run_items maps is (set_reg d (Scalar (w OR imm64 imm)) m)"
  by (simp add: is_jump_def exec_insn_def alu_imm_def set_result_def proceed_def)

lemma run_exit [run_insn]:
  "m_regs m 0 = Scalar w \<Longrightarrow> run_items maps (Ins (mk 0x95 d s off imm) # is) m = Some (w, goto 0 m)"
  by (simp add: is_jump_def exec_insn_def)

lemma run_load_map_fd [run_insn]:
  "run_items maps (Ins (mk 0x18 d (Suc 0) off fd) # Ins i # is) m
   = run_items maps is (set_reg d (Pointer (MapR (sint fd)) 0) m)"
  by (simp add: is_jump_def exec_insn_def)

lemma mem_load_at:
  "m_regs m r = Pointer region base \<Longrightarrow> 0 \<le> base + off \<Longrightarrow> nat (base + off) + n \<le> length (region_bytes m region) \<Longrightarrow>
   - (2 ^ 15) \<le> off \<Longrightarrow> off < 2 ^ 15 \<Longrightarrow>
   mem_load m (m_regs m r) (word_of_int off) n = Some (le_word (segment (nat (base + off)) n (region_bytes m region)))"
  by (simp add: mem_load_def read_bytes_def segment_def sint_offset)

lemma run_ldx [run_insn]:
  assumes "m_regs m s = Pointer region base" "0 \<le> base + off" "- (2 ^ 15) \<le> off" "off < 2 ^ 15"
  shows "nat (base + off) + 4 \<le> length (region_bytes m region) \<Longrightarrow>
      run_items maps (Ins (mk 0x61 d s off imm) # is) m
      = run_items maps is (set_reg d (Scalar (le_word (segment (nat (base + off)) 4 (region_bytes m region)))) m)"
    and "nat (base + off) + 1 \<le> length (region_bytes m region) \<Longrightarrow>
      run_items maps (Ins (mk 0x71 d s off imm) # is) m
      = run_items maps is (set_reg d (Scalar (le_word (segment (nat (base + off)) 1 (region_bytes m region)))) m)"
    and "nat (base + off) + 8 \<le> length (region_bytes m region) \<Longrightarrow>
      run_items maps (Ins (mk 0x79 d s off imm) # is) m
      = run_items maps is (set_reg d (Scalar (le_word (segment (nat (base + off)) 8 (region_bytes m region)))) m)"
  using mem_load_at[OF assms(1,2) _ assms(3,4)]
  by (simp_all add: is_jump_def exec_insn_def set_result_def proceed_def)

lemma mem_store_out:
  "m_regs m r = Pointer OutputR base \<Longrightarrow> 0 \<le> base + off \<Longrightarrow> nat (base + off) + length xs \<le> length (m_output m) \<Longrightarrow>
   - (2 ^ 15) \<le> off \<Longrightarrow> off < 2 ^ 15 \<Longrightarrow>
   mem_store m (m_regs m r) (word_of_int off) xs = Some (out_upd (nat (base + off)) xs m)"
  by (simp add: mem_store_def write_bytes_def upd_bytes_def out_upd_def sint_offset)

lemma mem_store_stack:
  "m_regs m r = Pointer StackR base \<Longrightarrow> 0 \<le> base + off \<Longrightarrow> nat (base + off) + length xs \<le> length (m_stack m) \<Longrightarrow>
   - (2 ^ 15) \<le> off \<Longrightarrow> off < 2 ^ 15 \<Longrightarrow>
   mem_store m (m_regs m r) (word_of_int off) xs = Some (st_upd (nat (base + off)) xs m)"
  by (simp add: mem_store_def write_bytes_def upd_bytes_def st_upd_def sint_offset)

lemma run_stx_out [run_insn]:
  assumes "m_regs m d = Pointer OutputR base" "0 \<le> base + off" "- (2 ^ 15) \<le> off" "off < 2 ^ 15"
  shows "nat (base + off) + 4 \<le> length (m_output m) \<Longrightarrow> m_regs m s = Scalar w \<Longrightarrow>
      run_items maps (Ins (mk 0x63 d s off imm) # is) m = run_items maps is (out_upd (nat (base + off)) (le_bytes 4 w) m)"
    and "nat (base + off) + 8 \<le> length (m_output m) \<Longrightarrow> m_regs m s = Scalar w \<Longrightarrow>
      run_items maps (Ins (mk 0x7b d s off imm) # is) m = run_items maps is (out_upd (nat (base + off)) (le_bytes 8 w) m)"
    and "nat (base + off) + 4 \<le> length (m_output m) \<Longrightarrow>
      run_items maps (Ins (mk 0x62 d s off imm) # is) m = run_items maps is (out_upd (nat (base + off)) (le_bytes 4 (ucast imm)) m)"
  using mem_store_out[OF assms(1,2) _ assms(3,4)]
  by (simp_all add: is_jump_def exec_insn_def proceed_def le_bytes_imm64)

lemma run_stx_stack [run_insn]:
  assumes "m_regs m d = Pointer StackR base" "0 \<le> base + off" "- (2 ^ 15) \<le> off" "off < 2 ^ 15"
  shows "nat (base + off) + 4 \<le> length (m_stack m) \<Longrightarrow> m_regs m s = Scalar w \<Longrightarrow>
      run_items maps (Ins (mk 0x63 d s off imm) # is) m = run_items maps is (st_upd (nat (base + off)) (le_bytes 4 w) m)"
    and "nat (base + off) + 8 \<le> length (m_stack m) \<Longrightarrow> m_regs m s = Scalar w \<Longrightarrow>
      run_items maps (Ins (mk 0x7b d s off imm) # is) m = run_items maps is (st_upd (nat (base + off)) (le_bytes 8 w) m)"
    and "nat (base + off) + 4 \<le> length (m_stack m) \<Longrightarrow>
      run_items maps (Ins (mk 0x62 d s off imm) # is) m = run_items maps is (st_upd (nat (base + off)) (le_bytes 4 (ucast imm)) m)"
  using mem_store_stack[OF assms(1,2) _ assms(3,4)]
  by (simp_all add: is_jump_def exec_insn_def proceed_def le_bytes_imm64)

lemma run_ja [run_insn]: "run_items maps (Jump (mk 0x05 d s off imm) l # is) m = run_items maps (find_label l is) m"
  by (simp add: jump_cond_def)

lemma run_jump [run_insn]:
  "m_regs m d = Scalar w \<Longrightarrow> run_items maps (Jump (mk 0x15 d s off imm) l # is) m
     = run_items maps (if w = imm64 imm then find_label l is else is) m"
  "m_regs m d = Scalar w \<Longrightarrow> run_items maps (Jump (mk 0x55 d s off imm) l # is) m
     = run_items maps (if w = imm64 imm then is else find_label l is) m"
  "m_regs m d = Scalar w \<Longrightarrow> run_items maps (Jump (mk 0x25 d s off imm) l # is) m
     = run_items maps (if w > imm64 imm then find_label l is else is) m"
  "m_regs m d = Scalar w \<Longrightarrow> run_items maps (Jump (mk 0x35 d s off imm) l # is) m
     = run_items maps (if w \<ge> imm64 imm then find_label l is else is) m"
  "m_regs m d = Scalar w \<Longrightarrow> run_items maps (Jump (mk 0x45 d s off imm) l # is) m
     = run_items maps (if w AND imm64 imm \<noteq> 0 then find_label l is else is) m"
  by (simp_all add: jump_cond_def)

lemma run_jump_pointer [run_insn]:
  "m_regs m d = Pointer r q \<Longrightarrow> run_items maps (Jump (mk 0x15 d s off 0) l # is) m = run_items maps is m"
  "m_regs m d = Pointer r q \<Longrightarrow> run_items maps (Jump (mk 0x55 d s off 0) l # is) m = run_items maps (find_label l is) m"
  by (simp_all add: jump_cond_def)

text \<open>The lookup helper.\<close>

definition after_call :: "bval \<Rightarrow> machine \<Rightarrow> machine" where
  "after_call v m = set_reg 0 v (m\<lparr>m_regs := (\<lambda>r. if r \<le> 5 then Uninit else m_regs m r)\<rparr>)"

lemma after_call_simps [simp]:
  "m_regs (after_call v m) r = (if r = 0 then v else if r \<le> 5 then Uninit else m_regs m r)"
  "m_input (after_call v m) = m_input m" "m_output (after_call v m) = m_output m" "m_stack (after_call v m) = m_stack m"
  by (simp_all add: after_call_def)

lemma run_lookup [run_insn]:
  assumes "m_regs m 1 = Pointer (MapR fd) 0" "m_regs m 2 = Pointer StackR p" "maps fd = Some mp"
    and "p = int q" "q + map_key_size mp \<le> length (m_stack m)"
  shows "run_items maps (Ins (mk 0x85 d s off 1) # is) m
    = run_items maps is (after_call (case map_lookup mp (segment q (map_key_size mp) (m_stack m)) of
        None \<Rightarrow> Scalar 0 | Some v \<Rightarrow> Pointer (ValueR v) 0) m)"
proof -
  have "lookup_elem maps m = Next (goto (m_pc m + 1) (after_call (case map_lookup mp (segment q (map_key_size mp) (m_stack m)) of
        None \<Rightarrow> Scalar 0 | Some v \<Rightarrow> Pointer (ValueR v) 0) m))"
    using assms by (simp add: lookup_elem_def read_bytes_def proceed_def segment_def after_call_def Let_def set_reg_def)
  then show ?thesis by (simp add: is_jump_def exec_insn_def lookup_goto)
qed

declare run_items.simps(2,3,4) [simp del]

end
