(* ===== verification/Plan_Spec.thy ===== *)
theory Plan_Spec
  imports Codegen "HOL-Library.Sublist"
begin

text \<open>
  What a routing plan means. The reference semantics evaluates the conditions of a rule in source
  order, with no folding, no reordering and no caching, and takes the first rule that matches. It
  is stated over the \<open>RoutingInput\<close> record; \<open>input_bytes\<close> and \<open>read_decision\<close> are the byte layouts
  of the interface with the generated function.
\<close>

section \<open>Layouts\<close>

definition le32 :: "u32 \<Rightarrow> u8 list" where
  "le32 w = le_bytes 4 (as_u64 w)"

definition be32 :: "u32 \<Rightarrow> u8 list" where
  "be32 w = [as_u8 (drop_bit 24 w), as_u8 (drop_bit 16 w), as_u8 (drop_bit 8 w), as_u8 w]"

definition addr_bytes :: "in6_addr \<Rightarrow> u8 list" where
  "addr_bytes a = be32 (w0 a) @ be32 (w1 a) @ be32 (w2 a) @ be32 (w3 a)"

definition input_bytes :: "routing_input \<Rightarrow> u8 list" where
  "input_bytes ri =
     addr_bytes (ri_src_ip ri) @ addr_bytes (ri_dst_ip ri) @ ri_mac ri @ ri_pname ri
     @ le32 (ri_src_port ri) @ le32 (ri_dst_port ri) @ le32 (ri_l4proto ri) @ le32 (ri_ip_version ri)
     @ le32 (ri_dscp ri) @ le32 (ri_is_wan ri) @ le32 (ri_pname_len ri) @ le32 (ri_flags ri)"

definition input_ok :: "routing_input \<Rightarrow> bool" where
  "input_ok ri \<longleftrightarrow> length (ri_mac ri) = 16 \<and> length (ri_pname ri) = 48"

definition read32 :: "nat \<Rightarrow> u8 list \<Rightarrow> u32" where
  "read32 q bs = as_u32 (le_word (take 4 (drop q bs)))"

definition read_decision :: "u8 list \<Rightarrow> routing_decision" where
  "read_decision out =
     \<lparr>d_outbound = read32 0 out, d_mark = read32 4 out, d_must = read32 8 out,
      d_domain_final = read32 12 out, d_rule_id = read32 16 out, d_direct_mark_index = read32 20 out\<rparr>"

section \<open>Facts\<close>

text \<open>The map and the key a fact of the input is looked up with; \<open>None\<close> when the input has no such
  fact.\<close>

definition fact_query :: "routing_map_fds \<Rightarrow> routing_input \<Rightarrow> fact_kind \<Rightarrow> (i32 \<times> u8 list) option" where
  "fact_query fds ri kind =
     (let ip = (\<lambda>v4 v6 addr.
            if ri_ip_version ri = 1 then Some (v4, le32 32 @ be32 (w3 addr) @ replicate 12 0)
            else if ri_ip_version ri = 2 then Some (v6, le32 128 @ addr_bytes addr)
            else None)
      in case kind of
           FactDomain \<Rightarrow> Some (fd_domain fds, addr_bytes (ri_dst_ip ri))
         | FactDestination \<Rightarrow> ip (fd_destination_v4 fds) (fd_destination_v6 fds) (ri_dst_ip ri)
         | FactSource \<Rightarrow> ip (fd_source_v4 fds) (fd_source_v6 fds) (ri_src_ip ri)
         | FactMac \<Rightarrow> if ri_flags ri AND ROUTING_INPUT_MAC_PRESENT \<noteq> 0
                     then Some (fd_mac fds, le32 128 @ ri_mac ri) else None)"

definition fact_value :: "bpf_maps \<Rightarrow> routing_map_fds \<Rightarrow> routing_input \<Rightarrow> fact_kind \<Rightarrow> u8 list option" where
  "fact_value maps fds ri kind =
     (case fact_query fds ri kind of
        None \<Rightarrow> None
      | Some (fd, key) \<Rightarrow> (case maps (sint fd) of None \<Rightarrow> None | Some mp \<Rightarrow> map_lookup mp key))"

definition fact_bit :: "u8 list option \<Rightarrow> u32 \<Rightarrow> bool" where
  "fact_bit value fid =
     (case value of None \<Rightarrow> False | Some v \<Rightarrow> bit (v ! (unat fid div 8)) (unat fid mod 8))"

text \<open>What the code assumes of the maps behind the descriptors: they exist, with the key and value
  sizes they are created with.\<close>

definition fact_map_ok :: "nat \<Rightarrow> bpf_map option \<Rightarrow> bool" where
  "fact_map_ok key_size mp \<longleftrightarrow>
     (case mp of None \<Rightarrow> False
      | Some mp \<Rightarrow> map_key_size mp = key_size \<and> (\<forall>k v. map_lookup mp k = Some v \<longrightarrow> length v = 32))"

definition maps_ok :: "bpf_maps \<Rightarrow> routing_map_fds \<Rightarrow> bool" where
  "maps_ok maps fds \<longleftrightarrow>
     fact_map_ok 20 (maps (sint (fd_destination_v4 fds))) \<and> fact_map_ok 20 (maps (sint (fd_destination_v6 fds)))
     \<and> fact_map_ok 20 (maps (sint (fd_source_v4 fds))) \<and> fact_map_ok 20 (maps (sint (fd_source_v6 fds)))
     \<and> fact_map_ok 20 (maps (sint (fd_mac fds))) \<and> fact_map_ok 16 (maps (sint (fd_domain fds)))"

section \<open>Rules\<close>

definition name_within :: "routing_input \<Rightarrow> u8 list \<Rightarrow> bool" where
  "name_within ri name \<longleftrightarrow>
     (name \<noteq> [] \<or> ri_pname_len ri \<noteq> 0) \<and> sublist name (take (unat (ri_pname_len ri)) (ri_pname ri))"

definition port_within :: "u32 \<Rightarrow> port_range \<Rightarrow> bool" where
  "port_within port r \<longleftrightarrow> as_u32 (range_start r) \<le> port \<and> port \<le> as_u32 (range_end r)"

fun eval_predicate :: "(fact_kind \<Rightarrow> u8 list option) \<Rightarrow> routing_input \<Rightarrow> kernel_predicate \<Rightarrow> bool" where
  "eval_predicate V ri (KDomain fid) = fact_bit (V FactDomain) fid"
| "eval_predicate V ri (KDestinationIp fid) = fact_bit (V FactDestination) fid"
| "eval_predicate V ri (KSourceIp fid) = fact_bit (V FactSource) fid"
| "eval_predicate V ri (KMac fid) = fact_bit (V FactMac) fid"
| "eval_predicate V ri (KDestinationPort ranges) = list_ex (port_within (ri_dst_port ri)) ranges"
| "eval_predicate V ri (KSourcePort ranges) = list_ex (port_within (ri_src_port ri)) ranges"
| "eval_predicate V ri (KProtocol bits) = (ri_l4proto ri AND as_u32 bits \<noteq> 0)"
| "eval_predicate V ri (KIpVersion bits) = (ri_ip_version ri AND as_u32 bits \<noteq> 0)"
| "eval_predicate V ri (KDscp values) = list_ex (\<lambda>v. ri_dscp ri = as_u32 v) values"
| "eval_predicate V ri (KProcessName names) = list_ex (name_within ri) names"

definition condition_holds :: "(fact_kind \<Rightarrow> u8 list option) \<Rightarrow> routing_input \<Rightarrow> kernel_condition \<Rightarrow> bool" where
  "condition_holds V ri c \<longleftrightarrow> eval_predicate V ri (kc_predicate c) \<noteq> kc_not c"

definition rule_matches :: "(fact_kind \<Rightarrow> u8 list option) \<Rightarrow> routing_input \<Rightarrow> kernel_rule \<Rightarrow> bool" where
  "rule_matches V ri rule \<longleftrightarrow>
     kr_conditions rule \<noteq> [] \<and> list_all (condition_holds V ri) (kr_conditions rule)"

text \<open>A rule that can match tests a domain.\<close>

definition tests_domain :: "kernel_rule \<Rightarrow> bool" where
  "tests_domain rule \<longleftrightarrow>
     \<not> folded_false rule \<and> list_ex (\<lambda>c. is_domain_predicate (kc_predicate c)) (kr_conditions rule)"

text \<open>A direct decision reached without testing a domain may be made final by the caller.\<close>

definition direct_finality :: "routing_input \<Rightarrow> kernel_action \<Rightarrow> bool" where
  "direct_finality ri action \<longleftrightarrow>
     ka_outbound action = outbound_u8 Direct \<and> \<not> ka_must action
     \<and> ri_flags ri AND ROUTING_INPUT_ALLOW_DIRECT_FINALITY \<noteq> 0"

definition action_decision :: "kernel_action \<Rightarrow> u32 option \<Rightarrow> bool \<Rightarrow> routing_decision" where
  "action_decision action rule_id final =
     \<lparr>d_outbound = as_u32 (ka_outbound action), d_mark = ka_mark action,
      d_must = (if ka_must action then 1 else 0), d_domain_final = (if final then 1 else 0),
      d_rule_id = (case rule_id of None \<Rightarrow> - 1 | Some i \<Rightarrow> i),
      d_direct_mark_index = (case ka_direct_mark_index action of None \<Rightarrow> - 1 | Some i \<Rightarrow> as_u32 i)\<rparr>"

definition plan_route :: "routing_push_plan \<Rightarrow> (fact_kind \<Rightarrow> u8 list option) \<Rightarrow> routing_input \<Rightarrow> routing_decision" where
  "plan_route plan V ri =
     (let rules = rp_rules plan;
          missed = takeWhile (\<lambda>rule. \<not> rule_matches V ri rule) rules;
          (action, rule_id, tested) =
            (case dropWhile (\<lambda>rule. \<not> rule_matches V ri rule) rules of
               [] \<Rightarrow> (rp_fallback plan, None, missed)
             | rule # _ \<Rightarrow> (kr_action rule, Some (kr_id rule), missed @ [rule]));
          final = (\<not> domain_reroute plan
                   \<or> V FactDomain \<noteq> None
                   \<or> (\<not> list_ex tests_domain tested \<and> direct_finality ri action))
      in action_decision action rule_id final)"

definition start_machine :: "bval \<Rightarrow> bval \<Rightarrow> u8 list \<Rightarrow> u8 list \<Rightarrow> u8 list \<Rightarrow> machine" where
  "start_machine r1 r2 input out stack =
     \<lparr>m_pc = 0, m_regs = (\<lambda>_. Uninit)(1 := r1, 2 := r2, 10 := Pointer StackR 512),
      m_input = input, m_output = out, m_stack = stack\<rparr>"

end
