(* ===== verification/Codegen_Facts.thy ===== *)
theory Codegen_Facts
  imports Codegen_Run Plan_Spec
    "HOL-Library.Multiset"
begin

text \<open>
  The invariant of a running policy, and the correctness of its trace code and of its fact lookups:
  \<open>spec_fact_lookup\<close> shows that the lookup code of a category leaves its bitmap, or zeros when there
  is none, in the stack area of the category and touches nothing else.
\<close>

section \<open>Invariant of a running policy\<close>

definition frame_ok :: "u8 list \<Rightarrow> trace_layout option \<Rightarrow> machine \<Rightarrow> bool" where
  "frame_ok X T m \<longleftrightarrow>
     m_input m = X \<and> length X = 128 \<and> length (m_stack m) = 512 \<and> length (m_output m) = 272
     \<and> m_regs m 6 = Pointer InputR 0 \<and> m_regs m 7 = Pointer OutputR 0 \<and> m_regs m 10 = Pointer StackR 512
     \<and> (T \<noteq> None \<longrightarrow> (\<exists>w. m_regs m 9 = Scalar w))"

definition falls :: "bpf_maps \<Rightarrow> (machine \<Rightarrow> bool) \<Rightarrow> (machine \<Rightarrow> machine \<Rightarrow> bool) \<Rightarrow> item list \<Rightarrow> bool" where
  "falls maps A R is \<longleftrightarrow>
     (\<forall>K m. A m \<longrightarrow> (\<exists>m'. R m m' \<and> run_items maps (is @ K) m = run_items maps K m'))"

definition goes ::
  "bpf_maps \<Rightarrow> (machine \<Rightarrow> bool) \<Rightarrow> (machine \<Rightarrow> machine \<Rightarrow> bool) \<Rightarrow> nat \<Rightarrow> item list \<Rightarrow> bool"
where
  "goes maps A R l is \<longleftrightarrow>
     (\<forall>K m. A m \<longrightarrow> (\<exists>m'. R m m' \<and> run_items maps (is @ K) m = run_items maps (find_label l K) m'))"

text \<open>\<open>quiet\<close>: the caller-saved registers and the trace part of the output may change.\<close>

definition quiet :: "trace_layout option \<Rightarrow> machine \<Rightarrow> machine \<Rightarrow> bool" where
  "quiet T m m' \<longleftrightarrow>
     m_input m' = m_input m \<and> m_stack m' = m_stack m \<and> (\<forall>r \<ge> 6. m_regs m' r = m_regs m r)
     \<and> length (m_output m') = length (m_output m) \<and> read_decision (m_output m') = read_decision (m_output m)
     \<and> (T = None \<longrightarrow> m_output m' = m_output m)"

lemma quiet_refl [simp]: "quiet T m m"
  by (simp add: quiet_def)

lemma quiet_trans: "quiet T m m1 \<Longrightarrow> quiet T m1 m2 \<Longrightarrow> quiet T m m2"
  by (auto simp: quiet_def)

lemma frame_ok_quiet: "quiet T m m' \<Longrightarrow> frame_ok X T m \<Longrightarrow> frame_ok X T m'"
  by (auto simp: quiet_def frame_ok_def)

lemma read32_fld: "read32 q bs = fld q bs"
  by (simp add: read32_def fld_def segment_def)

lemma read_decision_trace:
  "24 \<le> q \<Longrightarrow> q + length xs \<le> length out \<Longrightarrow> read_decision (upd_bytes out q xs) = read_decision out"
  by (simp add: read_decision_def read32_fld fld_def segment_upd_other)

lemma falls_quiet:
  assumes "\<And>K m. frame_ok X T m \<Longrightarrow> \<exists>m'. quiet T m m' \<and> run_items maps (is @ K) m = run_items maps K m'"
  shows "falls maps (frame_ok X T) (quiet T) is"
  using assms by (auto simp: falls_def)

lemma falls_append:
  assumes "falls maps A R is" "falls maps B S is'"
    and "\<And>m m'. A m \<Longrightarrow> R m m' \<Longrightarrow> B m'" "\<And>m m1 m2. R m m1 \<Longrightarrow> S m1 m2 \<Longrightarrow> U m m2"
  shows "falls maps A U (is @ is')"
  unfolding falls_def
proof (intro allI impI)
  fix K m assume "A m"
  with assms(1) obtain m1 where m1: "R m m1" "run_items maps (is @ is' @ K) m = run_items maps (is' @ K) m1"
    unfolding falls_def by blast
  from assms(2,3) \<open>A m\<close> m1(1) obtain m2 where "S m1 m2" "run_items maps (is' @ K) m1 = run_items maps K m2"
    unfolding falls_def by blast
  with m1 assms(4) show "\<exists>m'. U m m' \<and> run_items maps ((is @ is') @ K) m = run_items maps K m'" by auto
qed

lemma falls_quiet_append:
  "falls maps (frame_ok X T) (quiet T) is \<Longrightarrow> falls maps (frame_ok X T) (quiet T) is' \<Longrightarrow>
   falls maps (frame_ok X T) (quiet T) (is @ is')"
  by (erule (1) falls_append) (auto intro: frame_ok_quiet quiet_trans)

lemma scoped_append: "scoped is n k \<Longrightarrow> scoped is' k n' \<Longrightarrow> scoped (is @ is') n n'"
  by (fastforce simp: scoped_def)

lemma scoped_find: "scoped is n n' \<Longrightarrow> l < n \<Longrightarrow> find_label l (is @ K) = find_label l K"
  by (auto simp: scoped_def find_label_append)

text \<open>Scoping of composite code: the labels of the pieces, in any order.\<close>

definition labels_ok :: "nat list \<Rightarrow> nat \<Rightarrow> nat \<Rightarrow> bool" where
  "labels_ok xs n n' \<longleftrightarrow> n \<le> n' \<and> distinct xs \<and> set xs \<subseteq> {n..<n'}"

lemma labels_rules:
  "labels_ok [] n n"
  "labels_ok xs (Suc n) n' \<Longrightarrow> labels_ok (n # xs) n n'"
  "scoped is n k \<Longrightarrow> labels_ok xs k n' \<Longrightarrow> labels_ok (binds is @ xs) n n'"
  by (fastforce simp: labels_ok_def scoped_def)+

lemma scoped_perm: "labels_ok xs n n' \<Longrightarrow> mset (binds is) = mset xs \<Longrightarrow> scoped is n n'"
  by (metis labels_ok_def mset_eq_imp_distinct_iff scoped_def set_mset_mset)

section \<open>Trace\<close>

lemma spec_trace_if:
  "(T = None \<Longrightarrow> Q [] n) \<Longrightarrow> (T \<noteq> None \<Longrightarrow> spec e T n Q) \<Longrightarrow>
   spec (\<lambda>a. if a_trace_layout a = None then Inr a else e a) T n Q"
  by (cases "T = None") (force simp: spec_def)+

text \<open>\<open>neutral\<close> emitters only trace.\<close>

definition neutral :: "u8 list \<Rightarrow> trace_layout option \<Rightarrow> emitter \<Rightarrow> bool" where
  "neutral X T e \<longleftrightarrow>
     (\<forall>n. spec e T n (\<lambda>is n'. scoped is n n' \<and> (\<forall>maps. falls maps (frame_ok X T) (quiet T) is)))"

lemma falls_Nil: "falls maps A (quiet T) []"
  unfolding falls_def using quiet_refl by fastforce

lemma neutral_seq: "list_all (neutral X T) es \<Longrightarrow> neutral X T (seq es)"
proof (induction es)
  case Nil
  show ?case unfolding neutral_def by (intro allI spec_rules) (simp add: scoped_def falls_Nil)
next
  case (Cons e es)
  show ?case
    unfolding neutral_def
  proof (intro allI spec_rules)
    fix n
    from Cons.prems have "spec e T n (\<lambda>is n'. scoped is n n' \<and> (\<forall>maps. falls maps (frame_ok X T) (quiet T) is))"
      by (simp add: neutral_def)
    then show "spec e T n (\<lambda>is k. spec (seq es) T k (\<lambda>is' k'. scoped (is @ is') n k' \<and>
        (\<forall>maps. falls maps (frame_ok X T) (quiet T) (is @ is'))))"
    proof (rule spec_mono)
      fix "is" k assume i: "scoped is n k \<and> (\<forall>maps. falls maps (frame_ok X T) (quiet T) is)"
      from Cons have "spec (seq es) T k (\<lambda>is n'. scoped is k n' \<and> (\<forall>maps. falls maps (frame_ok X T) (quiet T) is))"
        by (simp add: neutral_def)
      then show "spec (seq es) T k (\<lambda>is' k'. scoped (is @ is') n k' \<and> (\<forall>maps. falls maps (frame_ok X T) (quiet T) (is @ is')))"
        by (rule spec_mono) (use i in \<open>blast intro: scoped_append falls_quiet_append\<close>)
    qed
  qed
qed

lemma spec_guard:
  assumes "T \<noteq> None" "neutral X T (seq es)"
  shows "spec (seq (jump BPF_JEQ R9 0 n # es @ [bind_label n])) T (Suc n)
    (\<lambda>is n'. scoped is n n' \<and> (\<forall>maps. falls maps (frame_ok X T) (quiet T) is))"
proof (intro spec_rules spec_append)
  from assms(2) have "spec (seq es) T (Suc n) (\<lambda>is n'. scoped is (Suc n) n' \<and> (\<forall>maps. falls maps (frame_ok X T) (quiet T) is))"
    by (simp add: neutral_def)
  then show "spec (seq es) T (Suc n) (\<lambda>is k. spec (seq [bind_label n]) T k (\<lambda>is' k'.
      scoped ([Jump (mk 0x15 R9 0 0 0) n] @ is @ is') n k' \<and>
      (\<forall>maps. falls maps (frame_ok X T) (quiet T) ([Jump (mk 0x15 R9 0 0 0) n] @ is @ is'))))"
  proof (rule spec_mono)
    fix "is" k assume i: "scoped is (Suc n) k \<and> (\<forall>maps. falls maps (frame_ok X T) (quiet T) is)"
    have "falls maps (frame_ok X T) (quiet T) (Jump (mk 0x15 R9 0 0 0) n # is @ [Bind n])" for maps
      unfolding falls_def
    proof (intro allI impI)
      fix K m assume f: "frame_ok X T m"
      with assms(1) obtain w where w: "m_regs m 9 = Scalar w" by (auto simp: frame_ok_def)
      from i f obtain m' where "quiet T m m'" "run_items maps (is @ Bind n # K) m = run_items maps (Bind n # K) m'"
        unfolding falls_def by blast
      moreover have "n \<notin> set (binds is)" using i by (auto simp: scoped_def)
      ultimately show "\<exists>m'. quiet T m m' \<and>
          run_items maps ((Jump (mk 0x15 R9 0 0 0) n # is @ [Bind n]) @ K) m = run_items maps K m'"
        using w quiet_refl[of T m]
        by (cases "w = 0") (fastforce simp: run_insn registers find_label_append)+
    qed
    moreover have "scoped (Jump (mk 0x15 R9 0 0 0) n # is @ [Bind n]) n k" "n < k"
      using i by (auto simp: scoped_def)
    ultimately show "spec (seq [bind_label n]) T k (\<lambda>is' k'. scoped ([Jump (mk 0x15 R9 0 0 0) n] @ is @ is') n k' \<and>
      (\<forall>maps. falls maps (frame_ok X T) (quiet T) ([Jump (mk 0x15 R9 0 0 0) n] @ is @ is')))"
      by (intro spec_rules) simp_all
  qed
qed

lemma neutral_guard:
  "T \<noteq> None \<Longrightarrow> neutral X T (seq es) \<Longrightarrow> neutral X T (with_label (\<lambda>l. seq (jump BPF_JEQ R9 0 l # es @ [bind_label l])))"
  unfolding neutral_def[of X T "with_label _"] by (intro allI spec_with_label spec_guard)

lemma neutral_if:
  "(T \<noteq> None \<Longrightarrow> neutral X T e) \<Longrightarrow> neutral X T (\<lambda>a. if a_trace_layout a = None then Inr a else e a)"
  unfolding neutral_def by (intro allI spec_trace_if) (auto simp: scoped_def falls_Nil)

text \<open>Straight-line trace code.\<close>

lemma neutral_store: "T \<noteq> None \<Longrightarrow> 24 \<le> off \<Longrightarrow> off \<le> 268 \<Longrightarrow> neutral X T (st_imm R7 off imm)"
  unfolding neutral_def
proof (intro allI spec_rules conjI falls_quiet)
  fix maps K m assume "T \<noteq> None" "24 \<le> off" "off \<le> 268" "frame_ok X T m"
  then show "\<exists>m'. quiet T m m' \<and> run_items maps ([Ins (mk 0x62 R7 0 off imm)] @ K) m = run_items maps K m'"
    by (simp add: run_insn registers frame_ok_def)
      (rule exI, rule conjI[OF _ refl], auto simp: quiet_def read_decision_trace)
qed (simp add: scoped_def)

lemma neutral_or:
  "T \<noteq> None \<Longrightarrow> 24 \<le> off \<Longrightarrow> off \<le> 268 \<Longrightarrow> neutral X T (seq [ldx_w R1 R7 off, or_imm R1 bits, stx_w R7 R1 off])"
  unfolding neutral_def
proof (intro allI spec_rules conjI falls_quiet)
  fix maps K m assume "T \<noteq> None" "24 \<le> off" "off \<le> 268" "frame_ok X T m"
  then show "\<exists>m'. quiet T m m' \<and> run_items maps (([Ins (mk 0x61 R1 R7 off 0)] @ [Ins (mk 0x47 R1 0 0 bits)]
      @ [Ins (mk 0x63 R7 R1 off 0)] @ []) @ K) m = run_items maps K m'"
    by (simp add: run_insn registers frame_ok_def)
      (rule exI, rule conjI[OF _ refl], auto simp: quiet_def read_decision_trace)
qed (simp add: scoped_def)

lemma neutral_copy_input:
  "T \<noteq> None \<Longrightarrow> w < 32 \<Longrightarrow>
   neutral X T (seq [ldx_w R1 R6 (int (w * 4)), stx_w R7 R1 (TRACE_INPUT + int (w * 4))])"
  unfolding neutral_def
proof (intro allI spec_rules conjI falls_quiet)
  fix maps K m assume "T \<noteq> None" "w < 32" "frame_ok X T m"
  then show "\<exists>m'. quiet T m m' \<and> run_items maps (([Ins (mk 0x61 R1 R6 (int (w * 4)) 0)]
      @ [Ins (mk 0x63 R7 R1 (TRACE_INPUT + int (w * 4)) 0)] @ []) @ K) m = run_items maps K m'"
    by (simp add: run_insn registers frame_ok_def TRACE_INPUT_def nat_add_distrib)
      (rule exI, rule conjI[OF _ refl], auto simp: quiet_def read_decision_trace)
qed (simp add: scoped_def)

lemma neutral_copy_domain:
  "T \<noteq> None \<Longrightarrow> w < 4 \<Longrightarrow>
   neutral X T (seq [ldx_dw R1 R10 (fact_area FactDomain + int w * 8), stx_dw R7 R1 (TRACE_DOMAIN + int w * 8)])"
  unfolding neutral_def
proof (intro allI spec_rules conjI falls_quiet)
  fix maps K m assume "T \<noteq> None" "w < 4" "frame_ok X T m"
  then show "\<exists>m'. quiet T m m' \<and> run_items maps (([Ins (mk 0x79 R1 R10 (fact_area FactDomain + int w * 8) 0)]
      @ [Ins (mk 0x7b R7 R1 (TRACE_DOMAIN + int w * 8) 0)] @ []) @ K) m = run_items maps K m'"
    by (simp add: run_insn registers frame_ok_def TRACE_DOMAIN_def fact_area_def FACT_BYTES_def nat_add_distrib)
      (rule exI, rule conjI[OF _ refl], auto simp: quiet_def read_decision_trace)
qed (simp add: scoped_def)

lemma neutral_trace_or:
  assumes "24 \<le> off" "off \<le> 268"
  shows "neutral X T (emit_trace_or off bits)"
  unfolding emit_trace_or_def[abs_def]
  by (rule neutral_if[OF neutral_guard[OF _ neutral_or[OF _ assms], unfolded append_Cons append_Nil]])

lemma neutral_trace_outcome: "neutral X T (emit_trace_outcome slot result)"
  unfolding emit_trace_outcome_def
  by (auto intro!: neutral_trace_or simp: rust_consts)

lemma neutral_trace_domain: "neutral X T emit_trace_domain"
  unfolding emit_trace_domain_def[abs_def]
proof (rule neutral_if)
  assume t: "T \<noteq> None"
  have "neutral X T (seq (map (\<lambda>w. seq [ldx_dw R1 R10 (fact_area FactDomain + int w * 8),
      stx_dw R7 R1 (TRACE_DOMAIN + int w * 8)]) [0..<nat (FACT_BYTES div 8)]))"
    by (rule neutral_seq) (use neutral_copy_domain[OF t] in \<open>simp add: list_all_iff FACT_BYTES_def\<close>)
  then have "neutral X T (seq [seq (map (\<lambda>w. seq [ldx_dw R1 R10 (fact_area FactDomain + int w * 8),
      stx_dw R7 R1 (TRACE_DOMAIN + int w * 8)]) [0..<nat (FACT_BYTES div 8)])])"
    by (intro neutral_seq) simp
  from neutral_guard[OF t this]
  show "neutral X T (with_label (\<lambda>disabled. seq [jump BPF_JEQ R9 0 disabled,
      seq (map (\<lambda>w. seq [ldx_dw R1 R10 (fact_area FactDomain + int w * 8),
        stx_dw R7 R1 (TRACE_DOMAIN + int w * 8)]) [0..<nat (FACT_BYTES div 8)]), bind_label disabled]))"
    by simp
qed

section \<open>Input\<close>

lemma length_le32 [simp]: "length (le32 w) = 4"
  by (simp add: le32_def)

lemma length_be32 [simp]: "length (be32 w) = 4"
  by (simp add: be32_def)

lemma length_addr [simp]: "length (addr_bytes a) = 16"
  by (simp add: addr_bytes_def)

lemma le_word_le32: "as_u32 (le_word (le32 w)) = w"
  by (rule bit_word_eqI) (auto simp: le32_def le_word_le_bytes bit_unsigned_iff bit_take_bit_iff)

lemma input_length: "input_ok ri \<Longrightarrow> length (input_bytes ri) = 128"
  by (simp add: input_bytes_def input_ok_def)

lemma input_slices:
  assumes "input_ok ri"
  shows "segment 0 16 (input_bytes ri) = addr_bytes (ri_src_ip ri)"
    and "segment 16 16 (input_bytes ri) = addr_bytes (ri_dst_ip ri)"
    and "segment 12 4 (input_bytes ri) = be32 (w3 (ri_src_ip ri))"
    and "segment 28 4 (input_bytes ri) = be32 (w3 (ri_dst_ip ri))"
    and "segment 32 16 (input_bytes ri) = ri_mac ri"
    and "segment 48 48 (input_bytes ri) = ri_pname ri"
  using assms by (simp_all add: segment_def input_bytes_def input_ok_def addr_bytes_def)

lemma input_fields:
  assumes "input_ok ri"
  shows "fld 96 (input_bytes ri) = ri_src_port ri" "fld 100 (input_bytes ri) = ri_dst_port ri"
    and "fld 104 (input_bytes ri) = ri_l4proto ri" "fld 108 (input_bytes ri) = ri_ip_version ri"
    and "fld 112 (input_bytes ri) = ri_dscp ri" "fld 120 (input_bytes ri) = ri_pname_len ri"
    and "fld 124 (input_bytes ri) = ri_flags ri"
  using assms by (simp_all add: fld_def segment_def input_bytes_def input_ok_def le_word_le32)

section \<open>Facts\<close>

text \<open>\<open>keeps\<close>: the registers of the invariant, the fact areas and the output are untouched.\<close>

definition keeps :: "machine \<Rightarrow> machine \<Rightarrow> bool" where
  "keeps m m' \<longleftrightarrow>
     m_input m' = m_input m \<and> m_output m' = m_output m \<and> length (m_stack m') = length (m_stack m)
     \<and> drop 384 (m_stack m') = drop 384 (m_stack m) \<and> (\<forall>r \<ge> 6. m_regs m' r = m_regs m r)"

lemma upt_4: "[0..<4] = [0, 1, 2, 3 :: nat]" "[1..<4] = [1, 2, 3 :: nat]" "[Suc 0..<4] = [1, 2, 3 :: nat]"
  by (simp_all add: upt_rec)

lemma segment_4: "segment q 4 X @ segment (q + 4) 4 X @ segment (q + 8) 4 X @ segment (q + 12) 4 X = segment q 16 X"
proof -
  have "segment q 16 X = segment q 12 X @ segment (q + 12) 4 X" "segment q 12 X = segment q 8 X @ segment (q + 8) 4 X"
    "segment q 8 X = segment q 4 X @ segment (q + 4) 4 X"
    using segment_append[of q 12 X 4] segment_append[of q 8 X 4] segment_append[of q 4 X 4] by simp_all
  then show ?thesis by simp
qed

lemma le_bytes_zero: "le_bytes 4 0 = [0, 0, 0, 0]" "le_bytes 8 0 = [0, 0, 0, 0, 0, 0, 0, 0]"
  by (simp_all add: le_bytes_def upt_rec)

lemma spec_write_key_v4:
  assumes "0 \<le> off" "off + 4 \<le> 128"
  shows "spec (write_key_from_input off 32) T n (\<lambda>is n'. n' = n \<and> binds is = [] \<and>
     (\<forall>maps K m. frame_ok X T m \<longrightarrow> (\<exists>v. run_items maps (is @ K) m
        = run_items maps K (set_reg 3 v (st_upd 352 (le32 32 @ segment (nat off) 4 X @ replicate 12 0) m)))))"
proof -
  have z: "replicate 12 (0 :: u8) = le_bytes 4 0 @ le_bytes 4 0 @ le_bytes 4 0"
    unfolding le_bytes_zero by (simp add: eval_nat_numeral)
  have l: "le32 32 = le_bytes 4 32" by (simp add: le32_def)
  show ?thesis
    unfolding write_key_from_input_def
    using assms
    by (simp add: upt_4)
      (intro spec_rules, auto simp: run_insn registers frame_ok_def STACK_KEY_def le_bytes_le_word st_upd_normal z l)
qed

lemma spec_write_key_v6:
  assumes "0 \<le> off" "off + 16 \<le> 128"
  shows "spec (write_key_from_input off 128) T n (\<lambda>is n'. n' = n \<and> binds is = [] \<and>
     (\<forall>maps K m. frame_ok X T m \<longrightarrow> (\<exists>v. run_items maps (is @ K) m
        = run_items maps K (set_reg 3 v (st_upd 352 (le32 128 @ segment (nat off) 16 X) m)))))"
proof -
  have z: "segment (nat off) 16 X = segment (nat off) 4 X @ segment (nat (off + 4)) 4 X @ segment (nat (off + 8)) 4 X
      @ segment (nat (off + 12)) 4 X" for X
    using segment_4[of "nat off" X] assms by (simp add: nat_add_distrib)
  have l: "le32 128 = le_bytes 4 128" by (simp add: le32_def)
  show ?thesis
    unfolding write_key_from_input_def
    using assms
    by (simp add: upt_4)
      (intro spec_rules, auto simp: run_insn registers frame_ok_def STACK_KEY_def le_bytes_le_word st_upd_normal z l)
qed

lemma spec_write_domain_key:
  "spec write_domain_key_from_input T n (\<lambda>is n'. n' = n \<and> binds is = [] \<and>
     (\<forall>maps K m. frame_ok X T m \<longrightarrow> (\<exists>v. run_items maps (is @ K) m
        = run_items maps K (set_reg 3 v (st_upd 336 (segment 16 16 X) m)))))"
proof -
  have z: "segment 16 16 X = segment 16 8 X @ segment 24 8 X" for X
    using segment_append[of 16 8 X 8] by simp
  show ?thesis
    unfolding write_domain_key_from_input_def
    by (intro spec_rules)
      (auto simp: run_insn registers frame_ok_def STACK_DOMAIN_KEY_def INPUT_DST_IP_def le_bytes_le_word st_upd_normal z)
qed

definition key_pos :: "fact_kind \<Rightarrow> nat" where
  "key_pos kind = (case kind of FactDomain \<Rightarrow> 336 | _ \<Rightarrow> 352)"

definition keyed ::
  "bpf_maps \<Rightarrow> nat \<Rightarrow> nat \<Rightarrow> nat \<Rightarrow> (i32 \<times> u8 list) option \<Rightarrow> item list \<Rightarrow> item list \<Rightarrow> machine \<Rightarrow> bool"
where
  "keyed maps absent lookup q query is K m \<longleftrightarrow>
     (\<exists>m'. keeps m m' \<and> (case query of
        None \<Rightarrow> run_items maps (is @ Bind lookup # K) m = run_items maps (find_label absent K) m'
      | Some (fd, key) \<Rightarrow> m_regs m' 1 = Pointer (MapR (sint fd)) 0 \<and> segment q (length key) (m_stack m') = key
          \<and> run_items maps (is @ Bind lookup # K) m = run_items maps K m'))"

lemma keeps_set_reg: "r \<le> 5 \<Longrightarrow> keeps m (set_reg r v m') \<longleftrightarrow> keeps m m'"
  by (auto simp: keeps_def)

lemma keeps_refl [simp]: "keeps m m"
  by (simp add: keeps_def)

lemma keeps_st_upd: "q + length xs \<le> 384 \<Longrightarrow> length (m_stack m) = 512 \<Longrightarrow> keeps m (st_upd q xs m)"
  by (simp add: keeps_def upd_bytes_def)

lemma segment_upd_same': "n = length xs \<Longrightarrow> q + length xs \<le> length bs \<Longrightarrow> segment q n (upd_bytes bs q xs) = xs"
  by (simp add: segment_upd_same)

lemma spec_fact_key_domain:
  assumes "input_ok ri" "X = input_bytes ri"
  shows "spec (emit_fact_key FactDomain fds absent lookup) T n (\<lambda>is n'. scoped is n n' \<and>
    (\<forall>maps K m. frame_ok X T m \<longrightarrow> keyed maps absent lookup 336 (fact_query fds ri FactDomain) is K m))"
  unfolding emit_fact_key_def fact_kind.case
proof (intro spec_rules, rule spec_mono[OF spec_write_domain_key[where X = X]], intro spec_rules conjI allI impI)
  fix "is" k maps K m
  let ?c = "[Ins (mk 0x18 1 1 0 (fd_domain fds)), Ins (mk 0 0 0 0 0)]"
  assume i: "k = n \<and> binds is = [] \<and> (\<forall>maps K m. frame_ok X T m \<longrightarrow> (\<exists>v. run_items maps (is @ K) m
        = run_items maps K (set_reg 3 v (st_upd 336 (segment 16 16 X) m))))"
  then show "scoped (is @ ?c @ []) n k" by (simp add: scoped_def)
  assume f: "frame_ok X T m"
  with i obtain v where v: "run_items maps (is @ ?c @ Bind lookup # K) m
      = run_items maps (?c @ Bind lookup # K) (set_reg 3 v (st_upd 336 (segment 16 16 X) m))" by blast
  show "keyed maps absent lookup 336 (fact_query fds ri FactDomain) (is @ ?c @ []) K m"
    using f v assms unfolding keyed_def
    by (intro exI[of _ "set_reg 1 (Pointer (MapR (sint (fd_domain fds))) 0) (set_reg 3 v (st_upd 336 (segment 16 16 X) m))"])
      (simp add: fact_query_def keeps_set_reg keeps_st_upd frame_ok_def input_slices segment_upd_same' run_insn)
qed

lemma spec_fact_key_mac:
  assumes "input_ok ri" "X = input_bytes ri" "absent \<noteq> lookup"
  shows "spec (emit_fact_key FactMac fds absent lookup) T n (\<lambda>is n'. scoped is n n' \<and>
    (\<forall>maps K m. frame_ok X T m \<longrightarrow> keyed maps absent lookup 352 (fact_query fds ri FactMac) is K m))"
  unfolding emit_fact_key_def fact_kind.case
proof (intro spec_rules, rule spec_mono[OF spec_write_key_v6[where X = X]],
    simp add: INPUT_MAC_def, simp add: INPUT_MAC_def, intro spec_rules conjI allI impI)
  fix "is" k maps K m
  let ?c = "[Ins (mk 0x18 1 1 0 (fd_mac fds)), Ins (mk 0 0 0 0 0)]"
  let ?h = "[Jump (mk 0x15 R0 0 0 0) absent]"
  let ?g = "[Ins (mk 0x57 R0 0 0 ROUTING_INPUT_MAC_PRESENT)]"
  let ?l = "[Ins (mk 0x61 R0 R6 INPUT_FLAGS 0)]"
  assume i: "k = n \<and> binds is = [] \<and> (\<forall>maps K m. frame_ok X T m \<longrightarrow> (\<exists>v. run_items maps (is @ K) m
        = run_items maps K (set_reg 3 v (st_upd 352 (le32 128 @ segment (nat INPUT_MAC) 16 X) m))))"
  then show "scoped (?l @ ?g @ ?h @ is @ ?c @ []) n k" by (simp add: scoped_def)
  assume f: "frame_ok X T m"
  let ?m0 = "set_reg 0 (Scalar (ucast (ri_flags ri) AND imm64 ROUTING_INPUT_MAC_PRESENT)) m"
  have f0: "frame_ok X T ?m0" using f by (simp add: frame_ok_def)
  with i obtain v where v: "run_items maps (is @ ?c @ Bind lookup # K) ?m0
      = run_items maps (?c @ Bind lookup # K) (set_reg 3 v (st_upd 352 (le32 128 @ segment (nat INPUT_MAC) 16 X) ?m0))"
    by blast
  have fl: "le_word (segment 124 4 X) = ucast (ri_flags ri)"
    using assms input_fields(7)[OF assms(1)] input_length[OF assms(1)] by (simp add: le_word_fld)
  show "keyed maps absent lookup 352 (fact_query fds ri FactMac) (?l @ ?g @ ?h @ is @ ?c @ []) K m"
  proof (cases "ri_flags ri AND ROUTING_INPUT_MAC_PRESENT = 0")
    case True
    with f assms fl show ?thesis
      unfolding keyed_def
      by (intro exI[of _ ?m0])
        (simp add: fact_query_def keeps_set_reg run_insn registers frame_ok_def INPUT_FLAGS_def ucast_and_imm64
          find_label_append i set_reg_same)
  next
    case False
    have "length (ri_mac ri) = 16" using assms(1) by (simp add: input_ok_def)
    with False f assms fl v show ?thesis
      unfolding keyed_def
      by (intro exI[of _ "set_reg 1 (Pointer (MapR (sint (fd_mac fds))) 0)
            (set_reg 3 v (st_upd 352 (le32 128 @ segment (nat INPUT_MAC) 16 X) ?m0))"])
        (simp add: fact_query_def keeps_set_reg keeps_st_upd run_insn registers frame_ok_def INPUT_FLAGS_def INPUT_MAC_def
          ucast_and_imm64 set_reg_same st_upd_set_reg input_slices segment_upd_same')
  qed
qed

definition emit_ip_key :: "i32 \<Rightarrow> i32 \<Rightarrow> int \<Rightarrow> nat \<Rightarrow> nat \<Rightarrow> emitter" where
  "emit_ip_key v4_fd v6_fd input_offset absent lookup = with_label (\<lambda>v6. seq
     [ldx_w R0 R6 INPUT_VERSION,
      jump BPF_JNE R0 1 v6,
      write_key_from_input (input_offset + 12) 32,
      load_map_fd v4_fd,
      ja lookup,
      bind_label v6,
      jump BPF_JNE R0 2 absent,
      write_key_from_input input_offset 128,
      load_map_fd v6_fd])"

definition ip_query :: "routing_input \<Rightarrow> i32 \<Rightarrow> i32 \<Rightarrow> in6_addr \<Rightarrow> (i32 \<times> u8 list) option" where
  "ip_query ri v4 v6 addr =
     (if ri_ip_version ri = 1 then Some (v4, le32 32 @ be32 (w3 addr) @ replicate 12 0)
      else if ri_ip_version ri = 2 then Some (v6, le32 128 @ addr_bytes addr)
      else None)"

lemma ucast_inject: "(ucast (a :: u32) :: u64) = ucast b \<longleftrightarrow> a = b"
proof
  assume u: "(ucast a :: u64) = ucast b"
  show "a = b"
  proof (rule bit_word_eqI)
    fix i assume "i < LENGTH(32)"
    then have "bit (ucast x :: u64) i = bit x i" for x :: u32 by (simp add: bit_unsigned_iff)
    then show "bit a i = bit b i" using u by metis
  qed
qed simp

lemma ucast_eq_imm64: "0 \<le> sint i \<Longrightarrow> (ucast (w :: u32) = imm64 i) \<longleftrightarrow> w = i"
  by (simp add: imm64_nonneg ucast_inject)

lemma ip_query_versions:
  "(ucast (w :: u32) = imm64 1) \<longleftrightarrow> w = 1" "(ucast (w :: u32) = imm64 2) \<longleftrightarrow> w = 2"
  by (simp_all add: ucast_eq_imm64)

lemma spec_ip_key:
  assumes "input_ok ri" "X = input_bytes ri" "absent < n" "lookup < n" "absent \<noteq> lookup"
    and ofs: "0 \<le> ofs" "ofs \<le> 16"
    and segs: "segment (nat ofs + 12) 4 X = be32 (w3 addr)" "segment (nat ofs) 16 X = addr_bytes addr"
  shows "spec (emit_ip_key v4 v6 ofs absent lookup) T n (\<lambda>is n'. scoped is n n' \<and>
    (\<forall>maps K m. frame_ok X T m \<longrightarrow> keyed maps absent lookup 352 (ip_query ri v4 v6 addr) is K m))"
  unfolding emit_ip_key_def
proof (intro spec_rules, rule spec_mono[OF spec_write_key_v4[where X = X]], use ofs in simp, use ofs in simp,
    intro spec_rules, simp, rule spec_mono[OF spec_write_key_v6[where X = X]], use ofs in simp, use ofs in simp,
    intro spec_rules conjI allI impI)
  fix "is" k is' k' maps K m
  let ?a = "[Ins (mk 0x61 R0 R6 INPUT_VERSION 0)]" and ?b = "[Jump (mk 0x55 R0 0 0 1) n]"
  let ?c = "[Ins (mk 0x18 1 1 0 v4), Ins (mk 0 0 0 0 0)]" and ?d = "[Jump (mk 0x05 0 0 0 0) lookup]"
  let ?e = "[Bind n]" and ?f = "[Jump (mk 0x55 R0 0 0 2) absent]"
  let ?g = "[Ins (mk 0x18 1 1 0 v6), Ins (mk 0 0 0 0 0)]"
  assume i: "k = Suc n \<and> binds is = [] \<and> (\<forall>maps K m. frame_ok X T m \<longrightarrow> (\<exists>v. run_items maps (is @ K) m
        = run_items maps K (set_reg 3 v (st_upd 352 (le32 32 @ segment (nat (ofs + 12)) 4 X @ replicate 12 0) m))))"
    and i': "k' = k \<and> binds is' = [] \<and> (\<forall>maps K m. frame_ok X T m \<longrightarrow> (\<exists>v. run_items maps (is' @ K) m
        = run_items maps K (set_reg 3 v (st_upd 352 (le32 128 @ segment (nat ofs) 16 X) m))))"
  show "scoped (?a @ ?b @ is @ ?c @ ?d @ ?e @ ?f @ is' @ ?g @ []) n k'"
    using i i' by (simp add: scoped_def)
  assume f: "frame_ok X T m"
  let ?m0 = "set_reg 0 (Scalar (ucast (ri_ip_version ri))) m"
  have f0: "frame_ok X T ?m0" using f by (simp add: frame_ok_def)
  have seg4: "segment (nat (ofs + 12)) 4 X = be32 (w3 addr)" using segs(1) ofs by (simp add: nat_add_distrib)
  have fl: "le_word (segment 108 4 X) = ucast (ri_ip_version ri)"
    using assms(2) input_fields(4)[OF assms(1)] input_length[OF assms(1)] by (simp add: le_word_fld)
  have k: "find_label l (is @ xs) = find_label l xs" "find_label l (is' @ xs) = find_label l xs" for l xs
    using i i' by (simp_all add: find_label_append)
  have start: "run_items maps ((?a @ ?b @ is @ ?c @ ?d @ ?e @ ?f @ is' @ ?g @ []) @ Bind lookup # K) m
    = (if ri_ip_version ri = 1 then run_items maps (is @ ?c @ ?d @ ?e @ ?f @ is' @ ?g @ Bind lookup # K) ?m0
       else if ri_ip_version ri = 2 then run_items maps (is' @ ?g @ Bind lookup # K) ?m0
       else run_items maps (find_label absent K) ?m0)"
    using f fl assms(3-5)
    by (simp add: run_insn registers frame_ok_def INPUT_VERSION_def k ip_query_versions)
  consider (v4) "ri_ip_version ri = 1" | (v6) "ri_ip_version ri = 2" | (other) "ri_ip_version ri \<notin> {1, 2}" by auto
  then show "keyed maps absent lookup 352 (ip_query ri v4 v6 addr) (?a @ ?b @ is @ ?c @ ?d @ ?e @ ?f @ is' @ ?g @ []) K m"
  proof cases
    case v4
    from i f0 obtain v where "run_items maps (is @ ?c @ ?d @ ?e @ ?f @ is' @ ?g @ Bind lookup # K) ?m0
      = run_items maps (?c @ ?d @ ?e @ ?f @ is' @ ?g @ Bind lookup # K)
          (set_reg 3 v (st_upd 352 (le32 32 @ segment (nat (ofs + 12)) 4 X @ replicate 12 0) ?m0))" by blast
    with f v4 start assms(3-5) show ?thesis
      unfolding keyed_def seg4
      by (intro exI[of _ "set_reg 1 (Pointer (MapR (sint v4)) 0)
            (set_reg 3 v (st_upd 352 (le32 32 @ be32 (w3 addr) @ replicate 12 0) ?m0))"])
        (simp add: ip_query_def keeps_set_reg keeps_st_upd run_insn frame_ok_def st_upd_set_reg segment_upd_same' k)
  next
    case v6
    from i' f0 obtain v where "run_items maps (is' @ ?g @ Bind lookup # K) ?m0
      = run_items maps (?g @ Bind lookup # K) (set_reg 3 v (st_upd 352 (le32 128 @ segment (nat ofs) 16 X) ?m0))" by blast
    with f v6 start show ?thesis
      unfolding keyed_def segs
      by (intro exI[of _ "set_reg 1 (Pointer (MapR (sint v6)) 0)
            (set_reg 3 v (st_upd 352 (le32 128 @ addr_bytes addr) ?m0))"])
        (simp add: ip_query_def keeps_set_reg keeps_st_upd run_insn frame_ok_def st_upd_set_reg segment_upd_same')
  next
    case other
    with start show ?thesis
      unfolding keyed_def by (intro exI[of _ ?m0]) (simp add: ip_query_def keeps_set_reg)
  qed
qed

lemma spec_fact_key:
  assumes "input_ok ri" "X = input_bytes ri" "absent < n" "lookup < n" "absent \<noteq> lookup"
  shows "spec (emit_fact_key kind fds absent lookup) T n (\<lambda>is n'. scoped is n n' \<and>
    (\<forall>maps K m. frame_ok X T m \<longrightarrow> keyed maps absent lookup (key_pos kind) (fact_query fds ri kind) is K m))"
proof (cases kind)
  case FactDomain
  then show ?thesis using spec_fact_key_domain[OF assms(1,2)] by (simp add: key_pos_def)
next
  case FactDestination
  have "spec (emit_ip_key (fd_destination_v4 fds) (fd_destination_v6 fds) 16 absent lookup) T n (\<lambda>is n'. scoped is n n' \<and>
    (\<forall>maps K m. frame_ok X T m \<longrightarrow> keyed maps absent lookup 352
       (ip_query ri (fd_destination_v4 fds) (fd_destination_v6 fds) (ri_dst_ip ri)) is K m))"
    using spec_ip_key[OF assms, of 16 "ri_dst_ip ri"] input_slices[OF assms(1)] assms(2) by simp
  then show ?thesis
    using FactDestination
    by (simp add: emit_fact_key_def emit_ip_key_def fact_query_def ip_query_def key_pos_def INPUT_DST_IP_def)
next
  case FactSource
  have "spec (emit_ip_key (fd_source_v4 fds) (fd_source_v6 fds) 0 absent lookup) T n (\<lambda>is n'. scoped is n n' \<and>
    (\<forall>maps K m. frame_ok X T m \<longrightarrow> keyed maps absent lookup 352
       (ip_query ri (fd_source_v4 fds) (fd_source_v6 fds) (ri_src_ip ri)) is K m))"
    using spec_ip_key[OF assms, of 0 "ri_src_ip ri"] input_slices[OF assms(1)] assms(2) by simp
  then show ?thesis
    using FactSource
    by (simp add: emit_fact_key_def emit_ip_key_def fact_query_def ip_query_def key_pos_def INPUT_SRC_IP_def)
next
  case FactMac
  then show ?thesis using spec_fact_key_mac[OF assms(1,2,5)] by (simp add: key_pos_def)
qed

definition area_pos :: "fact_kind \<Rightarrow> nat" where
  "area_pos kind = (case kind of FactDomain \<Rightarrow> 480 | FactDestination \<Rightarrow> 448 | FactSource \<Rightarrow> 416 | FactMac \<Rightarrow> 384)"

lemma fact_area_pos: "fact_area kind = int (area_pos kind) - 512"
  by (cases kind) (simp_all add: fact_area_def area_pos_def FACT_BYTES_def)

lemma area_pos_bounds: "384 \<le> area_pos kind" "area_pos kind \<le> 480"
  by (cases kind; simp add: area_pos_def)+

lemma area_pos_disjoint: "k \<noteq> kind \<Longrightarrow> area_pos k + 32 \<le> area_pos kind \<or> area_pos kind + 32 \<le> area_pos k"
  by (cases kind; cases k) (simp_all add: area_pos_def)

definition area :: "fact_kind \<Rightarrow> machine \<Rightarrow> u8 list" where
  "area kind m = segment (area_pos kind) 32 (m_stack m)"

definition fact_bytes :: "u8 list option \<Rightarrow> u8 list" where
  "fact_bytes v = (case v of None \<Rightarrow> replicate 32 0 | Some bs \<Rightarrow> bs)"

definition resolved ::
  "(fact_kind \<Rightarrow> u8 list option) \<Rightarrow> trace_layout option \<Rightarrow> fact_kind \<Rightarrow> machine \<Rightarrow> machine \<Rightarrow> bool"
where
  "resolved V T kind m m' \<longleftrightarrow>
     m_input m' = m_input m \<and> (\<forall>r \<ge> 6. m_regs m' r = m_regs m r)
     \<and> length (m_stack m') = length (m_stack m) \<and> length (m_output m') = length (m_output m)
     \<and> area kind m' = fact_bytes (V kind) \<and> (\<forall>k. k \<noteq> kind \<longrightarrow> area k m' = area k m)
     \<and> read_decision (m_output m') =
         (if kind = FactDomain \<and> V kind \<noteq> None then (read_decision (m_output m))\<lparr>d_domain_final := 1\<rparr>
          else read_decision (m_output m))
     \<and> (T = None \<longrightarrow> drop 24 (m_output m') = drop 24 (m_output m))"

lemma frame_ok_keeps: "keeps m m' \<Longrightarrow> frame_ok X T m \<Longrightarrow> frame_ok X T m'"
  by (auto simp: keeps_def frame_ok_def)

lemma area_keeps: "keeps m m' \<Longrightarrow> area k m' = area k m"
proof -
  assume k: "keeps m m'"
  have "segment (384 + j) 32 bs = segment j 32 (drop 384 bs)" for j and bs :: "u8 list"
    by (simp add: segment_def add.commute)
  moreover have "area_pos k = 384 + (area_pos k - 384)" using area_pos_bounds[of k] by simp
  ultimately show ?thesis using k unfolding area_def keeps_def by metis
qed

lemma area_quiet: "quiet T m m' \<Longrightarrow> area k m' = area k m"
  by (simp add: quiet_def area_def)

lemma area_st_upd:
  "length xs = 32 \<Longrightarrow> length (m_stack m) = 512 \<Longrightarrow>
   area k (st_upd (area_pos kind) xs m) = (if k = kind then xs else area k m)"
  using area_pos_bounds[of kind] area_pos_disjoint[of k kind]
  by (auto simp: area_def segment_upd_same' segment_upd_other)

lemma area_set_reg [simp]: "area k (set_reg r v m) = area k m" "area k (out_upd q xs m) = area k m"
  by (simp_all add: area_def)

lemma drop_upd_bytes: "q + length xs \<le> k \<Longrightarrow> q + length xs \<le> length bs \<Longrightarrow> drop k (upd_bytes bs q xs) = drop k bs"
  by (simp add: upd_bytes_def)

lemma read_decision_final:
  "length out = 272 \<Longrightarrow> read_decision (upd_bytes out 12 (le_bytes 4 1)) = (read_decision out)\<lparr>d_domain_final := 1\<rparr>"
  by (simp add: read_decision_def read32_fld fld_def segment_upd_other segment_upd_same' le_word_le_bytes)

lemma spec_copy_value:
  "spec (seq (map (\<lambda>w. seq [ldx_dw R1 R0 (int w * 8), stx_dw R10 R1 (fact_area kind + int w * 8)]) [0..<nat (FACT_BYTES div 8)]))
     T n (\<lambda>is n'. n' = n \<and> binds is = [] \<and>
     (\<forall>maps K m v. frame_ok X T m \<longrightarrow> m_regs m 0 = Pointer (ValueR v) 0 \<longrightarrow> length v = 32 \<longrightarrow>
        (\<exists>r. run_items maps (is @ K) m = run_items maps K (set_reg 1 r (st_upd (area_pos kind) v m)))))"
proof -
  have z: "segment 0 8 v @ segment 8 8 v @ segment 16 8 v @ segment 24 8 v = v" if "length v = 32" for v :: "u8 list"
  proof -
    have "v = segment 0 24 v @ segment 24 8 v" "segment 0 24 v = segment 0 16 v @ segment 16 8 v"
      "segment 0 16 v = segment 0 8 v @ segment 8 8 v"
      using segment_append[of 0 8 v 8] segment_append[of 0 16 v 8] segment_append[of 0 24 v 8] segment_all[OF that]
      by simp_all
    then show ?thesis by (metis append_assoc)
  qed
  have "\<exists>r. run_items maps (([Ins (mk 0x79 R1 R0 (int 0 * 8) 0)] @ [Ins (mk 0x7b R10 R1 (fact_area kind + int 0 * 8) 0)] @
      [Ins (mk 0x79 R1 R0 (int 1 * 8) 0)] @ [Ins (mk 0x7b R10 R1 (fact_area kind + int 1 * 8) 0)] @
      [Ins (mk 0x79 R1 R0 (int 2 * 8) 0)] @ [Ins (mk 0x7b R10 R1 (fact_area kind + int 2 * 8) 0)] @
      [Ins (mk 0x79 R1 R0 (int 3 * 8) 0)] @ [Ins (mk 0x7b R10 R1 (fact_area kind + int 3 * 8) 0)]) @ K) m
      = run_items maps K (set_reg 1 r (st_upd (area_pos kind) v m))"
    if f: "frame_ok X T m" "m_regs m 0 = Pointer (ValueR v) 0" "length v = 32" for maps K m v
  proof -
    note b = area_pos_bounds[of kind]
    have n: "nat (int (area_pos kind) + k) = area_pos kind + nat k" if "0 \<le> k" for k
      using that by (simp add: nat_add_distrib)
    show ?thesis
      using f b
      by (simp add: run_insn registers frame_ok_def fact_area_pos le_bytes_le_word st_upd_normal n)
        (metis z[OF f(3)])
  qed
  then show ?thesis
    by (simp add: FACT_BYTES_def upt_4) (intro spec_rules, simp)
qed

lemma spec_zero_area:
  "spec (seq (map (\<lambda>w. stx_dw R10 R1 (fact_area kind + int w * 8)) [0..<nat (FACT_BYTES div 8)]))
     T n (\<lambda>is n'. n' = n \<and> binds is = [] \<and>
     (\<forall>maps K m. frame_ok X T m \<longrightarrow> m_regs m 1 = Scalar 0 \<longrightarrow>
        run_items maps (is @ K) m = run_items maps K (st_upd (area_pos kind) (replicate 32 0) m)))"
proof -
  have z: "replicate 32 (0 :: u8) = le_bytes 8 0 @ le_bytes 8 0 @ le_bytes 8 0 @ le_bytes 8 0"
    unfolding le_bytes_zero by (simp add: eval_nat_numeral)
  have "run_items maps (([Ins (mk 0x7b R10 R1 (fact_area kind + int 0 * 8) 0)] @
      [Ins (mk 0x7b R10 R1 (fact_area kind + int 1 * 8) 0)] @ [Ins (mk 0x7b R10 R1 (fact_area kind + int 2 * 8) 0)] @
      [Ins (mk 0x7b R10 R1 (fact_area kind + int 3 * 8) 0)]) @ K) m
      = run_items maps K (st_upd (area_pos kind) (replicate 32 0) m)"
    if f: "frame_ok X T m" "m_regs m 1 = Scalar 0" for maps K m
  proof -
    note b = area_pos_bounds[of kind]
    have n: "nat (int (area_pos kind) + k) = area_pos kind + nat k" if "0 \<le> k" for k
      using that by (simp add: nat_add_distrib)
    show ?thesis
      using f b
      by (simp add: run_insn registers frame_ok_def fact_area_pos st_upd_normal n z)
  qed
  then show ?thesis
    by (simp add: FACT_BYTES_def upt_4) (intro spec_rules, simp)
qed

lemma spec_domain_final:
  "spec (seq (if kind = FactDomain then [st_imm R7 DOMAIN_FINAL 1] else [])) T n (\<lambda>is n'. n' = n \<and> binds is = [] \<and>
     (\<forall>maps K m. frame_ok X T m \<longrightarrow> run_items maps (is @ K) m
        = run_items maps K (if kind = FactDomain then out_upd 12 (le_bytes 4 1) m else m)))"
proof (cases "kind = FactDomain")
  case True
  then show ?thesis
    by (simp, intro spec_rules) (simp add: run_insn registers frame_ok_def DOMAIN_FINAL_def)
next
  case False
  then show ?thesis by (simp, intro spec_rules) simp
qed

lemma neutralD:
  "neutral X T e \<Longrightarrow> spec e T n (\<lambda>is n'. scoped is n n' \<and> (\<forall>maps. falls maps (frame_ok X T) (quiet T) is))"
  by (simp add: neutral_def)

lemma neutral_trace_tail: "neutral X T (if kind = FactDomain then emit_trace_domain else seq [])"
  using neutral_trace_domain neutral_seq[of X T "[]"] by simp

lemma neutral_fact_state: "neutral X T (emit_trace_or TRACE_FACT_STATE bits)"
  by (rule neutral_trace_or) (simp_all add: TRACE_FACT_STATE_def)

lemma fallsD:
  "falls maps A R is \<Longrightarrow> A m \<Longrightarrow> \<exists>m'. R m m' \<and> run_items maps (is @ K) m = run_items maps K m'"
  by (simp add: falls_def)

text \<open>The two ends of a lookup: the value is copied, or the area is zeroed.\<close>

lemma resolved_found:
  assumes "V kind = Some v" "length v = 32" "keeps m m1" "frame_ok X T m1"
    and "m2 = set_reg 1 r (st_upd (area_pos kind) v (if kind = FactDomain then out_upd 12 (le_bytes 4 1) (after_call p m1) else after_call p m1))"
    and "quiet T m2 m3"
  shows "resolved V T kind m m3"
proof -
  have "area k (after_call p m1) = area k m" for k using area_keeps[OF assms(3)] by (simp add: area_def)
  moreover have "length (m_stack m1) = 512" "length (m_output m1) = 272" using assms(4) by (simp_all add: frame_ok_def)
  ultimately have "area k m2 = (if k = kind then v else area k m)" for k
    using assms(2) by (simp add: assms(5) area_st_upd)
  with assms area_quiet[OF assms(6)] area_pos_bounds[of kind] show ?thesis
    by (auto simp: resolved_def fact_bytes_def quiet_def keeps_def frame_ok_def read_decision_final drop_upd_bytes)
qed

lemma resolved_absent:
  assumes "V kind = None" "keeps m m1" "frame_ok X T m1" "\<forall>r \<ge> 6. m_regs m1' r = m_regs m1 r" "m_stack m1' = m_stack m1"
    and "m_input m1' = m_input m1" "m_output m1' = m_output m1"
    and "m2 = st_upd (area_pos kind) (replicate 32 0) m1'" "quiet T m2 m3"
  shows "resolved V T kind m m3"
proof -
  have "area k m1' = area k m" for k using area_keeps[OF assms(2)] assms(5) by (simp add: area_def)
  moreover have "length (m_stack m1') = 512" using assms(3,5) by (simp add: frame_ok_def)
  ultimately have "area k m2 = (if k = kind then replicate 32 0 else area k m)" for k
    by (simp add: assms(8) area_st_upd)
  with assms area_quiet[OF assms(9)] area_pos_bounds[of kind] show ?thesis
    by (auto simp: resolved_def fact_bytes_def quiet_def keeps_def frame_ok_def)
qed

lemma fact_map_cases:
  assumes "maps_ok maps fds" "fact_query fds ri kind = Some (fd, key)" "input_ok ri"
  obtains mp where "maps (sint fd) = Some mp" "map_key_size mp = length key"
    "\<forall>v. map_lookup mp key = Some v \<longrightarrow> length v = 32" "key_pos kind + length key \<le> 384"
proof -
  have "fact_map_ok (length key) (maps (sint fd)) \<and> key_pos kind + length key \<le> 384"
    using assms by (cases kind) (auto simp: maps_ok_def fact_query_def key_pos_def input_ok_def Let_def split: if_splits)
  then show thesis using that by (cases "maps (sint fd)") (simp_all add: fact_map_ok_def)
qed

lemma frame_ok_scratch:
  "r \<le> 5 \<Longrightarrow> frame_ok X T (set_reg r v m) = frame_ok X T m"
  "q + length xs \<le> length (m_stack m) \<Longrightarrow> frame_ok X T (st_upd q xs m) = frame_ok X T m"
  "q + length xs \<le> length (m_output m) \<Longrightarrow> frame_ok X T (out_upd q xs m) = frame_ok X T m"
  "frame_ok X T (after_call v m) = frame_ok X T m"
  by (auto simp: frame_ok_def)

lemma zero_runs:
  assumes zero: "\<And>K m. frame_ok X T m \<Longrightarrow> m_regs m 1 = Scalar 0 \<Longrightarrow>
      run_items maps (iz @ K) m = run_items maps K (st_upd (area_pos kind) (replicate 32 0) m)"
    and tr: "falls maps (frame_ok X T) (quiet T) iu" and f: "frame_ok X T m"
  shows "\<exists>m3. quiet T (st_upd (area_pos kind) (replicate 32 0) (set_reg 1 (Scalar 0) m)) m3
    \<and> run_items maps (Ins (mk 0xb7 R1 0 0 0) # iz @ Bind l # iu @ K) m = run_items maps K m3"
proof -
  let ?m1 = "set_reg 1 (Scalar 0) m"
  let ?m2 = "st_upd (area_pos kind) (replicate 32 0) ?m1"
  have f2: "frame_ok X T ?m2" using f area_pos_bounds[of kind] by (simp add: frame_ok_scratch frame_ok_def)
  from fallsD[OF tr this] obtain m3 where "quiet T ?m2 m3" "run_items maps (iu @ K) ?m2 = run_items maps K m3" by blast
  moreover have "run_items maps (iz @ Bind l # iu @ K) ?m1 = run_items maps (Bind l # iu @ K) ?m2"
    by (rule zero) (simp_all add: f frame_ok_scratch)
  ultimately show ?thesis by (auto simp: run_insn registers)
qed

lemma copy_runs:
  assumes fin: "\<And>K m. frame_ok X T m \<Longrightarrow> run_items maps (ic @ K) m
      = run_items maps K (if kind = FactDomain then out_upd 12 (le_bytes 4 1) m else m)"
    and copy: "\<And>K m v. frame_ok X T m \<Longrightarrow> m_regs m 0 = Pointer (ValueR v) 0 \<Longrightarrow> length v = 32 \<Longrightarrow>
      \<exists>r. run_items maps (iv @ K) m = run_items maps K (set_reg 1 r (st_upd (area_pos kind) v m))"
    and tr: "falls maps (frame_ok X T) (quiet T) it" "falls maps (frame_ok X T) (quiet T) iu"
    and f: "frame_ok X T m" and v: "m_regs m 0 = Pointer (ValueR v) 0" "length v = 32"
    and l: "find_label l J = iu @ K"
  shows "\<exists>r m3. quiet T (set_reg 1 r (st_upd (area_pos kind) v
        (if kind = FactDomain then out_upd 12 (le_bytes 4 1) m else m))) m3
    \<and> run_items maps (ic @ iv @ it @ Jump (mk 0x05 0 0 0 0) l # J) m = run_items maps K m3"
proof -
  let ?m1 = "if kind = FactDomain then out_upd 12 (le_bytes 4 1) m else m"
  have f1: "frame_ok X T ?m1" using f by (auto simp: frame_ok_scratch frame_ok_def)
  have "m_regs ?m1 0 = Pointer (ValueR v) 0" using v by simp
  from copy[OF f1 this v(2)] obtain r where r: "run_items maps (iv @ it @ Jump (mk 0x05 0 0 0 0) l # J) ?m1
    = run_items maps (it @ Jump (mk 0x05 0 0 0 0) l # J) (set_reg 1 r (st_upd (area_pos kind) v ?m1))" by blast
  let ?m2 = "set_reg 1 r (st_upd (area_pos kind) v ?m1)"
  have f2: "frame_ok X T ?m2"
    using f1 v(2) area_pos_bounds[of kind] by (simp add: frame_ok_scratch frame_ok_def)
  from fallsD[OF tr(1) f2] obtain m3 where m3: "quiet T ?m2 m3"
    "run_items maps (it @ Jump (mk 0x05 0 0 0 0) l # J) ?m2 = run_items maps (Jump (mk 0x05 0 0 0 0) l # J) m3" by blast
  from fallsD[OF tr(2) frame_ok_quiet[OF m3(1) f2]] obtain m4 where
    m4: "quiet T m3 m4" "run_items maps (iu @ K) m3 = run_items maps K m4" by blast
  have "run_items maps (ic @ iv @ it @ Jump (mk 0x05 0 0 0 0) l # J) m = run_items maps K m4"
    using r m3(2) m4(2) fin[OF f] l by (simp add: run_insn)
  with quiet_trans[OF m3(1) m4(1)] show ?thesis by blast
qed

lemma key_offset: "(512 :: int) + sint (word_of_int (case kind of FactDomain \<Rightarrow> STACK_DOMAIN_KEY | _ \<Rightarrow> STACK_KEY) :: i32)
   = int (key_pos kind)"
  by (cases kind) (simp_all add: STACK_DOMAIN_KEY_def STACK_KEY_def key_pos_def)

lemma lookup_runs:
  assumes ok: "maps_ok maps fds" "input_ok ri"
    and key: "\<And>K m. frame_ok X T m \<Longrightarrow> keyed maps n (Suc n) (key_pos kind) (fact_query fds ri kind) ik K m"
    and fin: "\<And>K m. frame_ok X T m \<Longrightarrow> run_items maps (ic @ K) m
      = run_items maps K (if kind = FactDomain then out_upd 12 (le_bytes 4 1) m else m)"
    and copy: "\<And>K m v. frame_ok X T m \<Longrightarrow> m_regs m 0 = Pointer (ValueR v) 0 \<Longrightarrow> length v = 32 \<Longrightarrow>
      \<exists>r. run_items maps (iv @ K) m = run_items maps K (set_reg 1 r (st_upd (area_pos kind) v m))"
    and zero: "\<And>K m. frame_ok X T m \<Longrightarrow> m_regs m 1 = Scalar 0 \<Longrightarrow>
      run_items maps (iz @ K) m = run_items maps K (st_upd (area_pos kind) (replicate 32 0) m)"
    and tr: "falls maps (frame_ok X T) (quiet T) it" "falls maps (frame_ok X T) (quiet T) iu"
    and lab: "n \<notin> set (binds (ic @ iv @ it))" "Suc (Suc n) \<notin> set (binds iz)"
  shows "falls maps (frame_ok X T) (resolved (fact_value maps fds ri) T kind)
    (ik @ Bind (Suc n) # Ins (mk 0xbf R2 R10 0 0) # Ins (mk 0x07 R2 0 0
        (word_of_int (case kind of FactDomain \<Rightarrow> STACK_DOMAIN_KEY | _ \<Rightarrow> STACK_KEY)))
      # Ins (mk 0x85 0 0 0 MAP_LOOKUP_ELEM) # Jump (mk 0x15 R0 0 0 0) n # ic @ iv @ it
      @ Jump (mk 0x05 0 0 0 0) (Suc (Suc n)) # Bind n # Ins (mk 0xb7 R1 0 0 0) # iz @ Bind (Suc (Suc n)) # iu)"
    (is "falls _ _ _ (ik @ Bind (Suc n) # ?load)")
  unfolding falls_def
proof (intro allI impI)
  fix K m assume f: "frame_ok X T m"
  let ?z = "Ins (mk 0xb7 R1 0 0 0) # iz @ Bind (Suc (Suc n)) # iu @ K"
  from key[OF f, of "?load @ K", unfolded keyed_def] obtain m1 where m1: "keeps m m1"
    and q: "case fact_query fds ri kind of
        None \<Rightarrow> run_items maps (ik @ Bind (Suc n) # ?load @ K) m = run_items maps (find_label n (?load @ K)) m1
      | Some (fd, key) \<Rightarrow> m_regs m1 1 = Pointer (MapR (sint fd)) 0 \<and> segment (key_pos kind) (length key) (m_stack m1) = key
          \<and> run_items maps (ik @ Bind (Suc n) # ?load @ K) m = run_items maps (?load @ K) m1" by blast
  have f1: "frame_ok X T m1" using frame_ok_keeps[OF m1 f] .
  have z: "find_label n (?load @ K) = ?z" using lab(1) by (simp add: find_label_append)
  have absent: "\<exists>m'. resolved (fact_value maps fds ri) T kind m m' \<and> run_items maps ?z m0 = run_items maps K m'"
    if "fact_value maps fds ri kind = None" "frame_ok X T m0" "\<forall>r \<ge> 6. m_regs m0 r = m_regs m1 r"
      "m_stack m0 = m_stack m1" "m_input m0 = m_input m1" "m_output m0 = m_output m1" for m0
  proof -
    from zero_runs[OF zero tr(2) that(2)] obtain m3 where
      "quiet T (st_upd (area_pos kind) (replicate 32 0) (set_reg 1 (Scalar 0) m0)) m3" "run_items maps ?z m0 = run_items maps K m3"
      by blast
    moreover have "resolved (fact_value maps fds ri) T kind m m3"
      by (rule resolved_absent[where V = "fact_value maps fds ri", OF that(1) m1 f1 _ _ _ _ refl calculation(1)]) (use that in auto)
    ultimately show ?thesis by blast
  qed
  show "\<exists>m'. resolved (fact_value maps fds ri) T kind m m' \<and> run_items maps ((ik @ Bind (Suc n) # ?load) @ K) m = run_items maps K m'"
  proof (cases "fact_query fds ri kind")
    case None
    have v: "fact_value maps fds ri kind = None" unfolding fact_value_def None by simp
    have "run_items maps ((ik @ Bind (Suc n) # ?load) @ K) m = run_items maps ?z m1"
      using q[unfolded None option.case z] unfolding append_assoc append_Cons append_Nil .
    moreover obtain m' where "resolved (fact_value maps fds ri) T kind m m'" "run_items maps ?z m1 = run_items maps K m'"
      using absent[OF v f1] by blast
    ultimately show ?thesis by (intro exI[of _ m'] conjI) simp_all
  next
    case (Some fk)
    obtain fd key where fk: "fk = (fd, key)" by (cases fk)
    obtain mp where mp: "maps (sint fd) = Some mp" "map_key_size mp = length key"
      "\<forall>v. map_lookup mp key = Some v \<longrightarrow> length v = 32" "key_pos kind + length key \<le> 384"
      by (rule fact_map_cases[OF ok(1) Some[unfolded fk] ok(2)])
    have q': "m_regs m1 1 = Pointer (MapR (sint fd)) 0" "segment (key_pos kind) (length key) (m_stack m1) = key"
      "run_items maps (ik @ Bind (Suc n) # ?load @ K) m = run_items maps (?load @ K) m1"
      using q unfolding Some fk option.case prod.case by blast+
    have val: "fact_value maps fds ri kind = map_lookup mp key" using Some fk mp(1) by (simp add: fact_value_def)
    let ?p = "case map_lookup mp key of None \<Rightarrow> Scalar 0 | Some v \<Rightarrow> Pointer (ValueR v) 0"
    let ?m2 = "after_call ?p (set_reg 2 (Pointer StackR (int (key_pos kind))) m1)"
    have f2: "frame_ok X T ?m2" using f1 by (simp add: frame_ok_scratch)
    have "run_items maps (?load @ K) m1 = run_items maps (Jump (mk 0x15 R0 0 0 0) n # ic @ iv @ it
      @ Jump (mk 0x05 0 0 0 0) (Suc (Suc n)) # Bind n # ?z) ?m2"
      using q'(1,2) f1 mp key_offset[of kind]
      by (simp add: run_insn registers frame_ok_def MAP_LOOKUP_ELEM_def set_reg_same)
    then have run: "run_items maps ((ik @ Bind (Suc n) # ?load) @ K) m = run_items maps (Jump (mk 0x15 R0 0 0 0) n
      # ic @ iv @ it @ Jump (mk 0x05 0 0 0 0) (Suc (Suc n)) # Bind n # ?z) ?m2"
      using q'(3) unfolding append_assoc append_Cons append_Nil by (rule trans[rotated])
    show ?thesis
    proof (cases "map_lookup mp key")
      case None
      then have "run_items maps ((ik @ Bind (Suc n) # ?load) @ K) m = run_items maps ?z ?m2"
        using lab(1) unfolding run by (simp add: run_insn registers find_label_append)
      moreover have "fact_value maps fds ri kind = None" using None val by simp
      then obtain m' where "resolved (fact_value maps fds ri) T kind m m'" "run_items maps ?z ?m2 = run_items maps K m'"
        using absent[OF _ f2] by (auto simp del: append.simps)
      ultimately show ?thesis by (intro exI[of _ m'] conjI) (assumption, simp only:)
    next
      case (Some v)
      have l: "find_label (Suc (Suc n)) (Bind n # ?z) = iu @ K" using lab(2) by (simp add: find_label_append)
      have p: "m_regs ?m2 0 = Pointer (ValueR v) 0" using Some by simp
      obtain r m3 where
        m3: "quiet T (set_reg 1 r (st_upd (area_pos kind) v (if kind = FactDomain then out_upd 12 (le_bytes 4 1) ?m2 else ?m2))) m3"
        "run_items maps (ic @ iv @ it @ Jump (mk 0x05 0 0 0 0) (Suc (Suc n)) # Bind n # ?z) ?m2 = run_items maps K m3"
        using copy_runs[OF fin copy tr f2 p mp(3)[rule_format, OF Some] l] by blast
      have "keeps m (set_reg 2 (Pointer StackR (int (key_pos kind))) m1)" using m1 by (simp add: keeps_set_reg)
      moreover have "frame_ok X T (set_reg 2 (Pointer StackR (int (key_pos kind))) m1)" using f1 by (simp add: frame_ok_scratch)
      ultimately have "resolved (fact_value maps fds ri) T kind m m3"
        by (rule resolved_found[where V = "fact_value maps fds ri", OF val[unfolded Some] mp(3)[rule_format, OF Some] _ _ refl m3(1)])
      moreover have "run_items maps ((ik @ Bind (Suc n) # ?load) @ K) m = run_items maps K m3"
        using Some m3(2) unfolding run by (simp add: run_insn registers)
      ultimately show ?thesis by blast
    qed
  qed
qed

lemma spec_fact_lookup:
  assumes "input_ok ri" "X = input_bytes ri"
  shows "spec (emit_fact_lookup kind fds) T n (\<lambda>is n'. scoped is n n' \<and>
    (\<forall>maps. maps_ok maps fds \<longrightarrow> falls maps (frame_ok X T) (resolved (fact_value maps fds ri) T kind) is))"
  unfolding emit_fact_lookup_def Let_def
  apply (intro spec_rules)
  apply (rule spec_mono[OF spec_fact_key[OF assms]]; (simp; fail)?)
  apply (intro spec_rules)
   apply (simp add: scoped_def)
  apply (rule spec_mono[OF spec_domain_final[where X = X]])
  apply (rule spec_Cons, rule spec_mono[OF spec_copy_value[where X = X]])
  apply (rule spec_Cons, rule spec_mono[OF neutralD[OF neutral_fact_state[where X = X]]])
  apply (intro spec_rules)
   apply (simp add: scoped_def)
  apply (rule spec_mono[OF spec_zero_area[where X = X]])
  apply (intro spec_rules)
   apply (simp add: scoped_def)
  apply (rule spec_mono[OF neutralD[OF neutral_fact_state[where X = X]]])
  apply (rule spec_Cons, rule spec_mono[OF neutralD[OF neutral_trace_tail[where X = X]]])
  apply (rule spec_Nil)
  subgoal premises prems for ik k1 ic k2 iv k3 it k4 iz k5 iu k6 iw k7
  proof -
  have e: "k2 = k1" "k3 = k2" "k5 = k4" "binds ic = []" "binds iv = []" "binds iz = []"
    using prems(2,3,5) by blast+
  have s: "scoped ik (Suc (Suc (Suc n))) k1" "scoped it k3 k4" "scoped iu k5 k6" "scoped iw k6 k7"
    using prems(1,4,6,7) by blast+
  show ?thesis
  proof (intro conjI allI impI, goal_cases)
    case 1
    have "scoped ik (Suc (Suc (Suc n))) k1" "scoped it k1 k4" "scoped iu k4 k6" "scoped iw k6 k7"
      using s unfolding e by simp_all
    then have "labels_ok (n # Suc n # Suc (Suc n) # binds ik @ binds it @ binds iu @ binds iw @ []) n k7"
      by - (rule labels_rules | assumption)+
    then show ?case by (rule scoped_perm) (simp add: e)
  next
    case (2 maps)
    have "falls maps (frame_ok X T) (quiet T) iu" "falls maps (frame_ok X T) (quiet T) iw"
      using prems(6,7) by blast+
    then have tr: "falls maps (frame_ok X T) (quiet T) (iu @ iw)" by (rule falls_quiet_append)
    have "n \<notin> set (binds (ic @ iv @ it))" "Suc (Suc n) \<notin> set (binds iz)"
      using s(1,2) e by (auto simp: scoped_def)
    note l = this
    from prems have it: "falls maps (frame_ok X T) (quiet T) it" by blast
    show ?case
      unfolding append_assoc append_Cons append_Nil append_Nil2
    proof (rule lookup_runs[OF 2 assms(1) _ _ _ _ it tr l], goal_cases)
      case (1 K m)
      then show ?case using prems(1) by blast
    next
      case (2 K m)
      then show ?case using prems(2) by blast
    next
      case (3 K m v)
      then show ?case using prems(3) by blast
    next
      case (4 K m)
      then show ?case using prems(5) by blast
    qed
  qed
  qed
  done

end
