(* ===== verification/Codegen_Correct.thy ===== *)
theory Codegen_Correct
  imports Codegen_Facts
begin

text \<open>
  Correctness of the policy compiler: the bytecode of a plan computes the plan's decision.
\<close>

section \<open>Scalar predicates\<close>

lemma unat_ucast_64 [simp]: "unat (ucast (w :: u32) :: u64) = unat w"
proof -
  have "unat w < 2 ^ 64" using unsigned_less[of w, where ?'a = nat] by simp
  then show ?thesis by (simp add: unsigned_ucast_eq take_bit_nat_eq_self)
qed

lemma ucast_le_64: "(ucast (a :: u32) :: u64) \<le> ucast b \<longleftrightarrow> a \<le> b"
  by (simp add: word_le_nat_alt)

lemma imm64_u16: "imm64 (ucast (s :: u16)) = ucast (ucast s :: u32)"
proof (rule imm64_nonneg)
  have "\<not> bit (ucast s :: u32) 31" by (simp add: bit_unsigned_iff bit_beyond_length)
  then show "0 \<le> sint (ucast s :: u32)" using bit_last_iff[of "ucast s :: u32"] by simp
qed

lemma imm64_u8: "imm64 (ucast (s :: u8)) = ucast (ucast s :: u32)"
proof (rule imm64_nonneg)
  have "\<not> bit (ucast s :: u32) 31" by (simp add: bit_unsigned_iff bit_beyond_length)
  then show "0 \<le> sint (ucast s :: u32)" using bit_last_iff[of "ucast s :: u32"] by simp
qed

text \<open>\<open>branches maps A c l is\<close>: the code goes to label \<open>l\<close> when \<open>c\<close> holds and falls through otherwise,
  leaving the machine as it is.\<close>

definition branches :: "bpf_maps \<Rightarrow> (machine \<Rightarrow> bool) \<Rightarrow> bool \<Rightarrow> nat \<Rightarrow> item list \<Rightarrow> bool" where
  "branches maps A c l is \<longleftrightarrow>
     (\<forall>K m. A m \<longrightarrow> run_items maps (is @ K) m = run_items maps (if c then find_label l K else K) m)"

lemma branches_append:
  "branches maps A c l is \<Longrightarrow> branches maps A d l is' \<Longrightarrow> scoped is' n n' \<Longrightarrow> l < n \<Longrightarrow> branches maps A (c \<or> d) l (is @ is')"
  by (auto simp: branches_def scoped_find)

lemma spec_port_range:
  assumes "on_true < n"
  shows "spec (emit_port_range on_true r) T n (\<lambda>is n'. scoped is n n' \<and>
    (\<forall>maps. branches maps (\<lambda>m. m_regs m 0 = Scalar (ucast p)) (port_within p r) on_true is))"
  unfolding emit_port_range_def
  apply (intro spec_rules)
  using assms
   apply (simp_all add: scoped_def branches_def run_insn registers imm64_u16 ucast_le_64 port_within_def not_le[symmetric])
  done

text \<open>A list of tests, any of which goes to the label.\<close>

lemma spec_any:
  assumes "\<And>x n. l < n \<Longrightarrow> x \<in> set xs \<Longrightarrow>
      spec (e x) T n (\<lambda>is n'. scoped is n n' \<and> (\<forall>maps. branches maps A (c x) l is))"
    and "l < n"
  shows "spec (seq (map e xs)) T n (\<lambda>is n'. scoped is n n' \<and> (\<forall>maps. branches maps A (list_ex c xs) l is))"
  using assms
proof (induction xs arbitrary: n)
  case Nil
  show ?case unfolding list.map by (rule spec_Nil) (simp add: scoped_def branches_def)
next
  case (Cons x xs)
  have s: "spec (e x) T n (\<lambda>is n'. scoped is n n' \<and> (\<forall>maps. branches maps A (c x) l is))" using Cons.prems by simp
  show ?case
    unfolding list.map
  proof (rule spec_Cons, rule spec_mono[OF s])
    fix "is" k assume i: "scoped is n k \<and> (\<forall>maps. branches maps A (c x) l is)"
    then have k: "l < k" using Cons.prems(2) by (auto simp: scoped_def)
    then have "spec (seq (map e xs)) T k (\<lambda>is n'. scoped is k n' \<and> (\<forall>maps. branches maps A (list_ex c xs) l is))"
      by (intro Cons.IH) (use Cons.prems in auto)
    then show "spec (seq (map e xs)) T k (\<lambda>is' k'. scoped (is @ is') n k' \<and>
        (\<forall>maps. branches maps A (list_ex c (x # xs)) l (is @ is')))"
    proof (rule spec_mono)
      fix is' k' assume i': "scoped is' k k' \<and> (\<forall>maps. branches maps A (list_ex c xs) l is')"
      show "scoped (is @ is') n k' \<and> (\<forall>maps. branches maps A (list_ex c (x # xs)) l (is @ is'))"
        using i i' k by (auto intro: scoped_append branches_append)
    qed
  qed
qed

lemma le_word_field:
  "input_ok ri \<Longrightarrow> X = input_bytes ri \<Longrightarrow> q + 4 \<le> 128 \<Longrightarrow> le_word (segment q 4 X) = ucast (fld q X)"
  by (simp add: le_word_fld input_length)

lemma quiet_set_reg: "r \<le> 5 \<Longrightarrow> quiet T m (set_reg r v m)"
  by (simp add: quiet_def)

text \<open>A field is loaded into R0, tested by a list of branches, and the code ends with a jump.\<close>

lemma goes_tests:
  assumes "input_ok ri" "X = input_bytes ri" "0 \<le> ofs" "nat ofs + 4 \<le> 128" "on_true < n" "scoped is n n'"
    and "branches maps (\<lambda>m. m_regs m 0 = Scalar (ucast (fld (nat ofs) X))) c on_true is"
  shows "goes maps (frame_ok X T) (quiet T) (if c then on_true else on_false)
    ([Ins (mk 0x61 R0 R6 ofs 0)] @ is @ [Jump (mk 0x05 0 0 0 0) on_false])"
  unfolding goes_def
proof (intro allI impI)
  fix K m assume f: "frame_ok X T m"
  let ?m = "set_reg 0 (Scalar (ucast (fld (nat ofs) X))) m"
  have "run_items maps (Ins (mk 0x61 R0 R6 ofs 0) # is @ Jump (mk 0x05 0 0 0 0) on_false # K) m
     = run_items maps (is @ Jump (mk 0x05 0 0 0 0) on_false # K) ?m"
    using f assms(3,4) le_word_field[OF assms(1,2,4)] by (simp add: run_insn registers frame_ok_def)
  also have "\<dots> = run_items maps (if c then find_label on_true (Jump (mk 0x05 0 0 0 0) on_false # K) else Jump (mk 0x05 0 0 0 0) on_false # K) ?m"
    using assms(7) by (simp add: branches_def)
  also have "\<dots> = run_items maps (find_label (if c then on_true else on_false) K) ?m"
    by (simp add: run_insn)
  finally show "\<exists>m'. quiet T m m' \<and> run_items maps (([Ins (mk 0x61 R0 R6 ofs 0)] @ is @ [Jump (mk 0x05 0 0 0 0) on_false]) @ K) m
      = run_items maps (find_label (if c then on_true else on_false) K) m'"
    by (intro exI[of _ ?m]) (simp add: quiet_set_reg)
qed

lemma scoped_tests: "scoped is n n' \<Longrightarrow> scoped ([Ins i] @ is @ [Jump j l]) n n'"
  by (simp add: scoped_def)

lemma spec_tests:
  assumes "input_ok ri" "X = input_bytes ri" "0 \<le> ofs" "nat ofs + 4 \<le> 128" "on_true < n"
    and "spec (seq es) T n (\<lambda>is n'. scoped is n n' \<and>
      (\<forall>maps. branches maps (\<lambda>m. m_regs m 0 = Scalar (ucast (fld (nat ofs) X))) c on_true is))"
  shows "spec (seq [ldx_w R0 R6 ofs, seq es, ja on_false]) T n (\<lambda>is n'. scoped is n n' \<and>
    (\<forall>maps. goes maps (frame_ok X T) (quiet T) (if c then on_true else on_false) is))"
proof (intro spec_rules, rule spec_mono[OF assms(6)], intro spec_rules)
  fix "is" k assume i: "scoped is n k \<and>
    (\<forall>maps. branches maps (\<lambda>m. m_regs m 0 = Scalar (ucast (fld (nat ofs) X))) c on_true is)"
  then show "scoped ([Ins (mk 0x61 R0 R6 ofs 0)] @ is @ [Jump (mk 0x05 0 0 0 0) on_false] @ []) n k \<and>
    (\<forall>maps. goes maps (frame_ok X T) (quiet T) (if c then on_true else on_false)
       ([Ins (mk 0x61 R0 R6 ofs 0)] @ is @ [Jump (mk 0x05 0 0 0 0) on_false] @ []))"
    using goes_tests[OF assms(1-5), of "is" k _ c T on_false] scoped_tests[of "is" n k]
    unfolding append_Nil2 by blast
qed

lemma spec_port_ranges:
  assumes "input_ok ri" "X = input_bytes ri" "0 \<le> ofs" "nat ofs + 4 \<le> 128" "on_true < n"
  shows "spec (emit_port_ranges ranges ofs on_true on_false) T n (\<lambda>is n'. scoped is n n' \<and>
    (\<forall>maps. goes maps (frame_ok X T) (quiet T)
       (if list_ex (port_within (fld (nat ofs) X)) ranges then on_true else on_false) is))"
  unfolding emit_port_ranges_def
  by (rule spec_tests[OF assms]) (rule spec_any[OF spec_port_range assms(5)])

lemma spec_dscp:
  assumes "input_ok ri" "X = input_bytes ri" "on_true < n"
  shows "spec (emit_dscp values on_true on_false) T n (\<lambda>is n'. scoped is n n' \<and>
    (\<forall>maps. goes maps (frame_ok X T) (quiet T)
       (if list_ex (\<lambda>v :: u8. fld 112 X = as_u32 v) values then on_true else on_false) is))"
proof -
  have one: "spec (jump BPF_JEQ R0 (as_u32 v) on_true) T n (\<lambda>is n'. scoped is n n' \<and>
      (\<forall>maps. branches maps (\<lambda>m. m_regs m 0 = Scalar (ucast (fld 112 X))) (fld 112 X = as_u32 v) on_true is))" for v :: u8 and n
    by (intro spec_rules) (simp add: scoped_def branches_def run_insn registers imm64_u8 ucast_inject)
  have "spec (seq (map (\<lambda>v. jump BPF_JEQ R0 (as_u32 v) on_true) values)) T n (\<lambda>is n'. scoped is n n' \<and>
      (\<forall>maps. branches maps (\<lambda>m. m_regs m 0 = Scalar (ucast (fld 112 X))) (list_ex (\<lambda>v. fld 112 X = as_u32 v) values) on_true is))"
    by (rule spec_any[OF one assms(3)])
  then show ?thesis
    unfolding emit_dscp_def
    using spec_tests[OF assms(1,2), of INPUT_DSCP on_true n _ T _ on_false] assms(3) by (simp add: INPUT_DSCP_def)
qed

lemma spec_mask_scalar:
  assumes "input_ok ri" "X = input_bytes ri" "0 \<le> ofs" "nat ofs + 4 \<le> 128"
  shows "spec (emit_mask_scalar ofs bits on_true on_false) T n (\<lambda>is n'. scoped is n n' \<and>
    (\<forall>maps. goes maps (frame_ok X T) (quiet T)
       (if fld (nat ofs) X AND bits \<noteq> 0 then on_true else on_false) is))"
  unfolding emit_mask_scalar_def
proof (intro spec_rules conjI allI)
  fix maps
  show "goes maps (frame_ok X T) (quiet T) (if fld (nat ofs) X AND bits \<noteq> 0 then on_true else on_false)
     ([Ins (mk 0x61 R0 R6 ofs 0)] @ [Ins (mk 0x57 R0 0 0 bits)] @ [Jump (mk 0x55 R0 0 0 0) on_true]
        @ [Jump (mk 0x05 0 0 0 0) on_false] @ [])"
    unfolding goes_def
  proof (intro allI impI)
    fix K m assume f: "frame_ok X T m"
    let ?m = "set_reg 0 (Scalar (ucast (fld (nat ofs) X) AND imm64 bits)) m"
    show "\<exists>m'. quiet T m m' \<and> run_items maps (([Ins (mk 0x61 R0 R6 ofs 0)] @ [Ins (mk 0x57 R0 0 0 bits)]
        @ [Jump (mk 0x55 R0 0 0 0) on_true] @ [Jump (mk 0x05 0 0 0 0) on_false] @ []) @ K) m
        = run_items maps (find_label (if fld (nat ofs) X AND bits \<noteq> 0 then on_true else on_false) K) m'"
      using f assms(3,4) le_word_field[OF assms(1,2,4)]
      by (intro exI[of _ ?m]) (simp add: run_insn registers frame_ok_def quiet_set_reg set_reg_same ucast_and_imm64)
  qed
qed (simp add: scoped_def)

section \<open>Process names\<close>

text \<open>\<open>may_branch\<close> is \<open>branches\<close> for code that uses R5.\<close>

definition named :: "u8 list \<Rightarrow> trace_layout option \<Rightarrow> u32 \<Rightarrow> machine \<Rightarrow> bool" where
  "named X T len m \<longleftrightarrow> frame_ok X T m \<and> m_regs m 4 = Scalar (ucast len)"

definition may_branch ::
  "bpf_maps \<Rightarrow> (machine \<Rightarrow> bool) \<Rightarrow> trace_layout option \<Rightarrow> bool \<Rightarrow> nat \<Rightarrow> item list \<Rightarrow> bool"
where
  "may_branch maps A T c l is \<longleftrightarrow>
     (\<forall>K m. A m \<longrightarrow> (\<exists>m'. A m' \<and> quiet T m m' \<and>
        run_items maps (is @ K) m = run_items maps (if c then find_label l K else K) m'))"

lemma may_branch_append:
  assumes "may_branch maps A T c l is" "may_branch maps A T d l is'" "scoped is' n n'" "l < n"
  shows "may_branch maps A T (c \<or> d) l (is @ is')"
  unfolding may_branch_def
proof (intro allI impI)
  fix K m assume "A m"
  with assms(1) obtain m1 where m1: "A m1" "quiet T m m1"
    "run_items maps (is @ is' @ K) m = run_items maps (if c then find_label l (is' @ K) else is' @ K) m1"
    unfolding may_branch_def by blast
  from assms(2) m1(1) obtain m2 where m2: "A m2" "quiet T m1 m2"
    "run_items maps (is' @ K) m1 = run_items maps (if d then find_label l K else K) m2"
    unfolding may_branch_def by blast
  have "find_label l (is' @ K) = find_label l K" using scoped_find[OF assms(3,4)] .
  then show "\<exists>m'. A m' \<and> quiet T m m' \<and> run_items maps ((is @ is') @ K) m
      = run_items maps (if c \<or> d then find_label l K else K) m'"
    using m1 m2 quiet_trans[OF m1(2) m2(2)] by (cases c) auto
qed

lemma spec_any_name:
  assumes "\<And>x n. l < n \<Longrightarrow> x \<in> set xs \<Longrightarrow>
      spec (e x) T n (\<lambda>is n'. scoped is n n' \<and> (\<forall>maps. may_branch maps A T (c x) l is))"
    and "l < n"
  shows "spec (seq (map e xs)) T n (\<lambda>is n'. scoped is n n' \<and> (\<forall>maps. may_branch maps A T (list_ex c xs) l is))"
  using assms
proof (induction xs arbitrary: n)
  case Nil
  show ?case
    unfolding list.map by (rule spec_Nil) (use quiet_refl in \<open>fastforce simp: scoped_def may_branch_def\<close>)
next
  case (Cons x xs)
  have s: "spec (e x) T n (\<lambda>is n'. scoped is n n' \<and> (\<forall>maps. may_branch maps A T (c x) l is))" using Cons.prems by simp
  show ?case
    unfolding list.map
  proof (rule spec_Cons, rule spec_mono[OF s])
    fix "is" k assume i: "scoped is n k \<and> (\<forall>maps. may_branch maps A T (c x) l is)"
    then have k: "l < k" using Cons.prems(2) by (auto simp: scoped_def)
    then have "spec (seq (map e xs)) T k (\<lambda>is n'. scoped is k n' \<and> (\<forall>maps. may_branch maps A T (list_ex c xs) l is))"
      by (intro Cons.IH) (use Cons.prems in auto)
    then show "spec (seq (map e xs)) T k (\<lambda>is' k'. scoped (is @ is') n k' \<and>
        (\<forall>maps. may_branch maps A T (list_ex c (x # xs)) l (is @ is')))"
    proof (rule spec_mono)
      fix is' k' assume i': "scoped is' k k' \<and> (\<forall>maps. may_branch maps A T (list_ex c xs) l is')"
      have "may_branch maps A T (c x \<or> list_ex c xs) l (is @ is')" for maps
        using i i' k by (blast intro: may_branch_append)
      then show "scoped (is @ is') n k' \<and> (\<forall>maps. may_branch maps A T (list_ex c (x # xs)) l (is @ is'))"
        using i i' by (auto intro: scoped_append)
    qed
  qed
qed

lemma le_word_byte: "q < length X \<Longrightarrow> le_word (segment q 1 X) = ucast (X ! q)"
  by (simp add: segment_def take_Suc hd_drop_conv_nth le_word_def)

lemma ucast_u8_imm: "(ucast (x :: u8) :: u64) = imm64 (ucast b) \<longleftrightarrow> x = b" for b :: u8
proof -
  have "(ucast (ucast b :: u32) :: u64) = ucast b"
    by (rule bit_word_eqI) (auto simp: bit_unsigned_iff dest: bit_imp_le_length)
  moreover have "(ucast x :: u64) = ucast b \<longleftrightarrow> x = b"
  proof
    assume u: "(ucast x :: u64) = ucast b"
    show "x = b"
    proof (rule bit_word_eqI)
      fix i assume "i < LENGTH(8)"
      then have "bit (ucast y :: u64) i = bit y i" for y :: u8 by (simp add: bit_unsigned_iff)
      then show "bit x i = bit b i" using u by metis
    qed
  qed simp
  ultimately show ?thesis by (simp add: imm64_u8)
qed

lemma spec_name_byte:
  assumes "q < 48"
  shows "spec (seq [ldx_b R5 R6 (INPUT_PNAME + int q), jump BPF_JNE R5 (as_u32 b) l]) T n (\<lambda>is n'. scoped is n n' \<and>
    (\<forall>maps. may_branch maps (named X T len) T (X ! (48 + q) \<noteq> b) l is))"
  unfolding may_branch_def
proof (intro spec_rules conjI allI impI)
  fix maps K m assume n: "named X T len m"
  let ?m = "set_reg 5 (Scalar (ucast (X ! (48 + q)))) m"
  have "le_word (segment (48 + q) 1 X) = ucast (X ! (48 + q))"
    using n assms by (intro le_word_byte) (simp add: named_def frame_ok_def)
  then show "\<exists>m'. named X T len m' \<and> quiet T m m' \<and>
      run_items maps (([Ins (mk 0x71 R5 R6 (INPUT_PNAME + int q) 0)] @ [Jump (mk 0x55 R5 0 0 (as_u32 b)) l] @ []) @ K) m
      = run_items maps (if X ! (48 + q) \<noteq> b then find_label l K else K) m'"
    using n assms
    by (intro exI[of _ ?m])
      (simp add: run_insn registers named_def frame_ok_def quiet_set_reg INPUT_PNAME_def nat_add_distrib ucast_u8_imm)
qed (simp add: scoped_def)

lemma unat_of_small: "k \<le> 48 \<Longrightarrow> unat (of_nat k :: u32) = k"
  by (simp add: unat_of_nat)

lemma le_imm64_small: "k \<le> 48 \<Longrightarrow> imm64 (of_nat k) \<le> ucast (w :: u32) \<longleftrightarrow> k \<le> unat w"
proof -
  assume k: "k \<le> 48"
  have "unat (of_nat k :: u32) < 2 ^ 31" using unat_of_small[OF k] k by simp
  then have "\<not> bit (of_nat k :: u32) 31" unfolding unat_below_bits by blast
  then have "imm64 (of_nat k) = ucast (of_nat k :: u32)"
    using bit_last_iff[of "of_nat k :: u32"] by (intro imm64_nonneg) simp
  then show ?thesis by (simp add: ucast_le_64 word_le_nat_alt unat_of_small[OF k])
qed

lemma bytes_match:
  "length X = 128 \<Longrightarrow> p + length bytes \<le> 128 \<Longrightarrow>
   list_ex (\<lambda>(i, b). X ! (p + i) \<noteq> b) (enumerate 0 bytes) \<longleftrightarrow> segment p (length bytes) X \<noteq> bytes"
  by (auto simp: list_ex_iff in_set_enumerate_eq segment_def list_eq_iff_nth_eq) (force simp: in_set_enumerate_eq)

lemma spec_name_at:
  assumes "on_true < n" "bytes \<noteq> []" "ofs + length bytes \<le> 48"
  shows "spec (emit_name_at on_true bytes ofs) T n (\<lambda>is n'. scoped is n n' \<and>
    (\<forall>maps. may_branch maps (named X T len) T
       (ofs + length bytes \<le> unat len \<and> segment (48 + ofs) (length bytes) X = bytes) on_true is))"
proof -
  let ?c = "\<lambda>(i, b). X ! (48 + ofs + i) \<noteq> b"
  have one: "spec (case x of (i, b) \<Rightarrow> seq [ldx_b R5 R6 (INPUT_PNAME + int ofs + int i), jump BPF_JNE R5 (as_u32 b) n]) T k
      (\<lambda>is n'. scoped is k n' \<and> (\<forall>maps. may_branch maps (named X T len) T (?c x) n is))"
    if "x \<in> set (enumerate 0 bytes)" for x k
  proof -
    obtain i b where x: "x = (i, b)" by (cases x)
    with that assms(3) have "ofs + i < 48" by (auto simp: in_set_enumerate_eq)
    from spec_name_byte[OF this] x show ?thesis by (simp add: add.assoc)
  qed
  have bytes: "spec (seq (map (\<lambda>(i, b). seq [ldx_b R5 R6 (INPUT_PNAME + int ofs + int i), jump BPF_JNE R5 (as_u32 b) n])
      (enumerate 0 bytes))) T (Suc (Suc n)) (\<lambda>is n'. scoped is (Suc (Suc n)) n' \<and>
      (\<forall>maps. may_branch maps (named X T len) T (list_ex ?c (enumerate 0 bytes)) n is))"
    by (rule spec_any_name[OF one]) simp_all
  show ?thesis
    unfolding emit_name_at_def
  proof (intro spec_rules, simp, rule spec_mono[OF bytes], intro spec_rules)
    fix "is" k assume i: "scoped is (Suc (Suc n)) k \<and>
      (\<forall>maps. may_branch maps (named X T len) T (list_ex ?c (enumerate 0 bytes)) n is)"
    then show "n < k" by (auto simp: scoped_def)
    let ?is = "[Jump (mk 0x35 R4 0 0 (of_nat (ofs + length bytes))) (Suc n)] @ [Jump (mk 0x05 0 0 0 0) n] @ [Bind (Suc n)] @
       is @ [Jump (mk 0x05 0 0 0 0) on_true] @ [Bind n] @ []"
    have sc: "labels_ok (n # Suc n # binds is @ []) n k"
      using i by - (rule labels_rules | assumption | erule conjunct1)+
    have "may_branch maps (named X T len) T
        (ofs + length bytes \<le> unat len \<and> segment (48 + ofs) (length bytes) X = bytes) on_true ?is" for maps
      unfolding may_branch_def
    proof (intro allI impI)
      fix K m assume n: "named X T len m"
      then have r4: "m_regs m 4 = Scalar (ucast len)" and lx: "length X = 128" by (auto simp: named_def frame_ok_def)
      have m: "list_ex ?c (enumerate 0 bytes) \<longleftrightarrow> segment (48 + ofs) (length bytes) X \<noteq> bytes"
        using bytes_match[OF lx, of "48 + ofs" bytes] assms(3) by simp
      have f: "find_label n (is @ xs) = find_label n xs" "find_label on_true (is @ xs) = find_label on_true xs" for xs
        using i assms(1) by (auto simp: scoped_def find_label_append)
      let ?tail = "Jump (mk 0x05 0 0 0 0) on_true # Bind n # K"
      from i n obtain m' where m': "named X T len m'" "quiet T m m'" "run_items maps (is @ ?tail) m
          = run_items maps (if list_ex ?c (enumerate 0 bytes) then find_label n ?tail else ?tail) m'"
        unfolding may_branch_def by blast
      show "\<exists>m'. named X T len m' \<and> quiet T m m' \<and> run_items maps (?is @ K) m = run_items maps
          (if ofs + length bytes \<le> unat len \<and> segment (48 + ofs) (length bytes) X = bytes then find_label on_true K else K) m'"
      proof (cases "ofs + length bytes \<le> unat len")
        case True
        with m' m r4 assms(1,3) show ?thesis
          by (intro exI[of _ m']) (simp add: run_insn registers le_imm64_small del: of_nat_add)
      next
        case False
        with n r4 assms(1,3) show ?thesis
          by (intro exI[of _ m]) (simp add: run_insn registers le_imm64_small f del: of_nat_add)
      qed
    qed
    moreover have "scoped ?is n k" by (rule scoped_perm[OF sc]) simp
    ultimately show "scoped ?is n k \<and> (\<forall>maps. may_branch maps (named X T len) T
        (ofs + length bytes \<le> unat len \<and> segment (48 + ofs) (length bytes) X = bytes) on_true ?is)" by blast
  qed
qed

text \<open>The offsets tried are those of the sublists of the name.\<close>

lemma sublist_offsets:
  assumes "length pname = 48" "bytes \<noteq> []" "length bytes \<le> 48"
  shows "length bytes \<le> len \<and>
      list_ex (\<lambda>ofs. ofs + length bytes \<le> len \<and> take (length bytes) (drop ofs pname) = bytes) [0..<48 - length bytes + 1]
    \<longleftrightarrow> sublist bytes (take len pname)" (is "?l \<longleftrightarrow> ?r")
proof
  assume ?l
  then obtain ofs where o: "ofs + length bytes \<le> len" "take (length bytes) (drop ofs pname) = bytes" "ofs < 48 - length bytes + 1"
    by (auto simp: list_ex_iff)
  have "take len pname = take ofs pname @ take (len - ofs) (drop ofs pname)"
    using o by (metis add_leE le_add_diff_inverse take_add)
  also have "take (len - ofs) (drop ofs pname) = bytes @ take (len - ofs - length bytes) (drop (length bytes) (drop ofs pname))"
    using o by (metis add_le_imp_le_diff add.commute le_add_diff_inverse take_add)
  finally show ?r by (metis sublist_appendI)
next
  assume ?r
  then obtain ps ss where s: "take len pname = ps @ bytes @ ss" by (auto simp: sublist_def)
  have l: "length ps + length bytes \<le> min len 48"
    using arg_cong[OF s, of length] assms(1) by (simp add: min_def split: if_splits)
  have "take (length bytes) (drop (length ps) (take len pname)) = bytes" by (simp add: s)
  then have "take (length bytes) (drop (length ps) pname) = bytes"
    using l by (simp add: drop_take min_def split: if_splits)
  moreover have "length ps < 48 - length bytes + 1" using l by linarith
  then have "length ps \<in> set [0..<48 - length bytes + 1]" by (simp del: upt_Suc)
  ultimately show ?l using l by (auto simp: list_ex_iff intro!: bexI[of _ "length ps"])
qed

lemma spec_process_name:
  assumes "input_ok ri" "X = input_bytes ri" "on_true < n" "length bytes \<le> 48"
  shows "spec (emit_process_name on_true bytes) T n (\<lambda>is n'. scoped is n n' \<and>
    (\<forall>maps. may_branch maps (frame_ok X T) T (name_within ri bytes) on_true is))"
proof (cases "bytes = []")
  case True
  have l: "le_word (segment 120 4 X) = ucast (ri_pname_len ri)"
    using le_word_field[OF assms(1,2)] input_fields(6)[OF assms(1)] assms(2) by simp
  show ?thesis
    unfolding emit_process_name_def True
  proof (simp only: if_True simp_thms, intro spec_rules conjI allI)
    fix maps
    show "may_branch maps (frame_ok X T) T (name_within ri []) on_true
        ([Ins (mk 0x61 R4 R6 INPUT_PNAME_LEN 0)] @ [Jump (mk 0x55 R4 0 0 0) on_true] @ [])"
      unfolding may_branch_def
    proof (intro allI impI)
      fix K m assume f: "frame_ok X T m"
      let ?m = "set_reg 4 (Scalar (ucast (ri_pname_len ri))) m"
      show "\<exists>m'. frame_ok X T m' \<and> quiet T m m' \<and> run_items maps
          (([Ins (mk 0x61 R4 R6 INPUT_PNAME_LEN 0)] @ [Jump (mk 0x55 R4 0 0 0) on_true] @ []) @ K) m
          = run_items maps (if name_within ri [] then find_label on_true K else K) m'"
        using f l
        by (intro exI[of _ ?m])
          (simp add: run_insn registers frame_ok_def quiet_set_reg INPUT_PNAME_LEN_def name_within_def ucast_eq_0)
    qed
  qed (simp add: scoped_def)
next
  case False
  let ?c = "\<lambda>ofs. ofs + length bytes \<le> unat (ri_pname_len ri) \<and> segment (48 + ofs) (length bytes) X = bytes"
  have l: "le_word (segment 120 4 X) = ucast (ri_pname_len ri)"
    using le_word_field[OF assms(1,2)] input_fields(6)[OF assms(1)] assms(2) by simp
  have pn: "segment (48 + ofs) (length bytes) X = take (length bytes) (drop ofs (ri_pname ri))"
    if "ofs < 48 - length bytes + 1" for ofs
    using segment_nested[of ofs "length bytes" 48 48 X] that input_slices(6)[OF assms(1)] assms(2,4)
    by (simp add: segment_def)
  have nm: "name_within ri bytes \<longleftrightarrow> length bytes \<le> unat (ri_pname_len ri) \<and> list_ex ?c [0..<48 - length bytes + 1]"
    using sublist_offsets[OF _ False assms(4), of "ri_pname ri" "unat (ri_pname_len ri)"] False assms(1) pn
    by (auto simp: name_within_def input_ok_def list_ex_iff)
  have one: "spec (emit_name_at on_true bytes ofs) T k (\<lambda>is n'. scoped is k n' \<and>
      (\<forall>maps. may_branch maps (named X T (ri_pname_len ri)) T (?c ofs) on_true is))"
    if "on_true < k" "ofs \<in> set [0..<48 - length bytes + 1]" for ofs k
    by (rule spec_name_at[OF that(1) False]) (use that(2) assms(4) in auto)
  have body: "spec (seq (map (emit_name_at on_true bytes) [0..<ROUTING_PROCESS_MAX_LEN - length bytes + 1])) T (Suc (Suc n))
      (\<lambda>is n'. scoped is (Suc (Suc n)) n' \<and>
      (\<forall>maps. may_branch maps (named X T (ri_pname_len ri)) T (list_ex ?c [0..<48 - length bytes + 1]) on_true is))"
    unfolding ROUTING_PROCESS_MAX_LEN_def by (rule spec_any_name[OF one]) (use assms(3) in simp_all)
  show ?thesis
    unfolding emit_process_name_def if_not_P[OF False]
  proof (intro spec_rules, simp, rule spec_mono[OF body], intro spec_rules)
    fix "is" k assume i: "scoped is (Suc (Suc n)) k \<and>
      (\<forall>maps. may_branch maps (named X T (ri_pname_len ri)) T (list_ex ?c [0..<48 - length bytes + 1]) on_true is)"
    then show "n < k" by (auto simp: scoped_def)
    let ?is = "[Ins (mk 0x61 R4 R6 INPUT_PNAME_LEN 0)] @ ([Jump (mk 0x35 R4 0 0 (of_nat (length bytes))) (Suc n)]
        @ [Jump (mk 0x05 0 0 0 0) n] @ [Bind (Suc n)] @ is @ [Bind n] @ []) @ []"
    have sc: "labels_ok (n # Suc n # binds is @ []) n k"
      using i by - (rule labels_rules | assumption | erule conjunct1)+
    have "may_branch maps (frame_ok X T) T (name_within ri bytes) on_true ?is" for maps
      unfolding may_branch_def
    proof (intro allI impI)
      fix K m assume f: "frame_ok X T m"
      let ?m = "set_reg 4 (Scalar (ucast (ri_pname_len ri))) m"
      have n: "named X T (ri_pname_len ri) ?m" using f by (simp add: named_def frame_ok_def)
      have fl: "find_label n (is @ xs) = find_label n xs" "find_label on_true (is @ xs) = find_label on_true xs" for xs
        using i assms(3) by (auto simp: scoped_def find_label_append)
      from i n obtain m' where m': "named X T (ri_pname_len ri) m'" "quiet T ?m m'" "run_items maps (is @ Bind n # K) ?m
          = run_items maps (if list_ex ?c [0..<48 - length bytes + 1] then find_label on_true (Bind n # K) else Bind n # K) m'"
        unfolding may_branch_def by blast
      show "\<exists>m'. frame_ok X T m' \<and> quiet T m m' \<and> run_items maps (?is @ K) m
          = run_items maps (if name_within ri bytes then find_label on_true K else K) m'"
      proof (cases "length bytes \<le> unat (ri_pname_len ri)")
        case True
        have "run_items maps (?is @ K) m = run_items maps (is @ Bind n # K) ?m"
          using True f l assms(4) by (simp add: run_insn registers frame_ok_def INPUT_PNAME_LEN_def le_imm64_small)
        also have "\<dots> = run_items maps (if name_within ri bytes then find_label on_true K else K) m'"
          unfolding m'(3) nm using True assms(3) by (simp add: run_insn)
        finally show ?thesis
          using m'(1) quiet_trans[OF quiet_set_reg m'(2)] by (intro exI[of _ m']) (simp add: named_def)
      next
        case False
        have "run_items maps (?is @ K) m = run_items maps K ?m"
          using False f l assms(4) by (simp add: run_insn registers frame_ok_def INPUT_PNAME_LEN_def le_imm64_small fl)
        with False nm n show ?thesis by (intro exI[of _ ?m]) (simp add: named_def quiet_set_reg)
      qed
    qed
    moreover have "scoped ?is n k" by (rule scoped_perm[OF sc]) simp
    ultimately show "scoped ?is n k \<and> (\<forall>maps. may_branch maps (frame_ok X T) T (name_within ri bytes) on_true ?is)" by blast
  qed
qed

lemma spec_process_names:
  assumes "input_ok ri" "X = input_bytes ri" "on_true < n" "list_all (\<lambda>bytes. length bytes \<le> 48) names"
  shows "spec (emit_process_names names on_true on_false) T n (\<lambda>is n'. scoped is n n' \<and>
    (\<forall>maps. goes maps (frame_ok X T) (quiet T) (if list_ex (name_within ri) names then on_true else on_false) is))"
proof -
  have "spec (seq (map (emit_process_name on_true) names)) T n (\<lambda>is n'. scoped is n n' \<and>
      (\<forall>maps. may_branch maps (frame_ok X T) T (list_ex (name_within ri) names) on_true is))"
    by (rule spec_any_name[OF spec_process_name[OF assms(1,2)] assms(3)]) (use assms(4) in \<open>auto simp: list_all_iff\<close>)
  then show ?thesis
    unfolding emit_process_names_def
  proof (intro spec_rules, elim spec_mono, intro spec_rules)
    fix "is" k assume i: "scoped is n k \<and>
      (\<forall>maps. may_branch maps (frame_ok X T) T (list_ex (name_within ri) names) on_true is)"
    have "goes maps (frame_ok X T) (quiet T) (if list_ex (name_within ri) names then on_true else on_false)
        (is @ [Jump (mk 0x05 0 0 0 0) on_false])" for maps
      unfolding goes_def
    proof (intro allI impI)
      fix K m assume "frame_ok X T m"
      with i obtain m' where "quiet T m m'" "run_items maps (is @ Jump (mk 0x05 0 0 0 0) on_false # K) m
        = run_items maps (if list_ex (name_within ri) names then find_label on_true (Jump (mk 0x05 0 0 0 0) on_false # K)
            else Jump (mk 0x05 0 0 0 0) on_false # K) m'" unfolding may_branch_def by blast
      then show "\<exists>m'. quiet T m m' \<and> run_items maps ((is @ [Jump (mk 0x05 0 0 0 0) on_false]) @ K) m
          = run_items maps (find_label (if list_ex (name_within ri) names then on_true else on_false) K) m'"
        by (intro exI[of _ m']) (simp add: run_insn)
    qed
    moreover have "scoped (is @ [Jump (mk 0x05 0 0 0 0) on_false]) n k" using i by (simp add: scoped_def)
    ultimately show "scoped (is @ [Jump (mk 0x05 0 0 0 0) on_false] @ []) n k \<and> (\<forall>maps. goes maps (frame_ok X T) (quiet T)
        (if list_ex (name_within ri) names then on_true else on_false) (is @ [Jump (mk 0x05 0 0 0 0) on_false] @ []))" by simp
  qed
qed

section \<open>Fact predicates\<close>

text \<open>The invariant of the program between conditions: a category whose bit is set in the ready mask is
  resolved, and the domain is resolved when the plan tests domains.\<close>

definition ready_ok :: "(fact_kind \<Rightarrow> u8 list option) \<Rightarrow> u64 \<Rightarrow> machine \<Rightarrow> bool" where
  "ready_ok V w m \<longleftrightarrow>
     (\<forall>k. k \<noteq> FactDomain \<longrightarrow> bit w (fact_index k - 1) \<longrightarrow> area k m = fact_bytes (V k))"

definition inv ::
  "u8 list \<Rightarrow> trace_layout option \<Rightarrow> (fact_kind \<Rightarrow> u8 list option) \<Rightarrow> bool \<Rightarrow> machine \<Rightarrow> bool"
where
  "inv X T V D m \<longleftrightarrow>
     frame_ok X T m \<and> (\<exists>w. m_regs m 8 = Scalar w \<and> ready_ok V w m)
     \<and> (D \<longrightarrow> area FactDomain m = fact_bytes (V FactDomain))"

definition same :: "trace_layout option \<Rightarrow> machine \<Rightarrow> machine \<Rightarrow> bool" where
  "same T m m' \<longleftrightarrow>
     read_decision (m_output m') = read_decision (m_output m) \<and> (T = None \<longrightarrow> drop 24 (m_output m') = drop 24 (m_output m))"

lemma same_trans: "same T m m1 \<Longrightarrow> same T m1 m2 \<Longrightarrow> same T m m2"
  by (simp add: same_def)

lemma same_refl [simp]: "same T m m"
  by (simp add: same_def)

lemma quiet_same: "quiet T m m' \<Longrightarrow> same T m m'"
  by (auto simp: quiet_def same_def)

lemma inv_quiet: "quiet T m m' \<Longrightarrow> inv X T V D m \<Longrightarrow> inv X T V D m'"
  using area_quiet[of T m m'] frame_ok_quiet[of T m m' X] by (auto simp: inv_def ready_ok_def quiet_def)

lemma inv_frame: "inv X T V D m \<Longrightarrow> frame_ok X T m"
  by (simp add: inv_def)

lemma segment_nth: "q + n \<le> length bs \<Longrightarrow> i < n \<Longrightarrow> segment q n bs ! i = bs ! (q + i)"
  by (simp add: segment_def)

lemma div_8_32: "(f :: nat) div 8 = f div 32 * 4 + f mod 32 div 8"
proof -
  have "f = f mod 32 + 8 * (f div 32 * 4)" by simp
  then have "f div 8 = (f mod 32 + 8 * (f div 32 * 4)) div 8" by simp
  also have "\<dots> = f div 32 * 4 + f mod 32 div 8" by (subst div_mult_self2) simp_all
  finally show ?thesis .
qed

lemma fact_word_bit:
  assumes "length st = 512" "unat fid < 256" "a \<le> 480"
  shows "(le_word (segment (a + unat fid div 32 * 4) 4 st) AND imm64 (push_bit (unat fid mod 32) 1) = 0)
    \<longleftrightarrow> \<not> bit (segment a 32 st ! (unat fid div 8)) (unat fid mod 8)"
proof -
  let ?q = "a + unat fid div 32 * 4" and ?r = "unat fid mod 32"
  have q: "unat fid div 32 < 8" using assms(2) by simp
  then have len: "length (segment ?q 4 st) = 4" using assms(1,3) by simp
  have "(le_word (segment ?q 4 st) AND imm64 (push_bit ?r 1) = 0) \<longleftrightarrow> \<not> bit (fld ?q st) ?r"
    unfolding le_word_fld[OF len] ucast_and_imm64 by (rule and_push_bit_one) simp
  also have "bit (fld ?q st) ?r \<longleftrightarrow> bit (le_word (segment ?q 4 st)) ?r"
    unfolding fld_def by (simp add: bit_unsigned_iff)
  also have "\<dots> \<longleftrightarrow> bit (segment ?q 4 st ! (?r div 8)) (?r mod 8)"
    using len by (auto simp: le_word_bit)
  also have "segment ?q 4 st ! (?r div 8) = st ! (?q + ?r div 8)"
    using q assms(1,3) by (intro segment_nth) auto
  also have "?q + ?r div 8 = a + unat fid div 8"
    using div_8_32[of "unat fid"] by simp
  also have "st ! (a + unat fid div 8) = segment a 32 st ! (unat fid div 8)"
    using assms by (subst segment_nth) auto
  also have "?r mod 8 = unat fid mod 8" by (simp add: mod_mod_cancel)
  finally show ?thesis .
qed

lemma spec_fact_bit:
  assumes "unat fid < 256"
  shows "spec (emit_fact_bit kind fid on_true on_false) T n (\<lambda>is n'. n' = n \<and> binds is = [] \<and>
    (\<forall>maps K m. frame_ok X T m \<longrightarrow> (\<exists>m'. quiet T m m' \<and> run_items maps (is @ K) m
       = run_items maps (find_label (if bit (area kind m ! (unat fid div 8)) (unat fid mod 8) then on_true else on_false) K) m')))"
  unfolding emit_fact_bit_def
proof (intro spec_rules conjI allI impI)
  fix maps K m assume f: "frame_ok X T m"
  let ?w = "le_word (segment (area_pos kind + unat fid div 32 * 4) 4 (m_stack m)) AND imm64 (push_bit (unat fid mod 32) 1)"
  have q: "unat fid div 32 < 8" using assms by simp
  have p: "nat (int (area_pos kind) + int (unat fid div 32 * 4)) = area_pos kind + unat fid div 32 * 4"
    by (simp add: nat_add_distrib)
  have z: "?w = 0 \<longleftrightarrow> \<not> bit (area kind m ! (unat fid div 8)) (unat fid mod 8)"
    unfolding area_def by (rule fact_word_bit) (use f assms area_pos_bounds in \<open>auto simp: frame_ok_def\<close>)
  show "\<exists>m'. quiet T m m' \<and> run_items maps (([Ins (mk 0x61 R2 R10 (fact_area kind + int (unat fid div 32 * 4)) 0)]
      @ [Ins (mk 0x57 R2 0 0 (push_bit (unat fid mod 32) 1))] @ [Jump (mk 0x55 R2 0 0 0) on_true]
      @ [Jump (mk 0x05 0 0 0 0) on_false] @ []) @ K) m
      = run_items maps (find_label (if bit (area kind m ! (unat fid div 8)) (unat fid mod 8) then on_true else on_false) K) m'"
    using f q z area_pos_bounds[of kind]
    by (intro exI[of _ "set_reg 2 (Scalar ?w) m"])
      (simp add: run_insn registers frame_ok_def fact_area_pos p quiet_set_reg set_reg_same del: of_nat_mult of_nat_add)
qed simp_all

lemma fact_bit_bytes:
  "unat fid < 256 \<Longrightarrow> bit (fact_bytes v ! (unat fid div 8)) (unat fid mod 8) \<longleftrightarrow> fact_bit v fid"
  by (cases v) (simp_all add: fact_bytes_def fact_bit_def)

lemma bit_ready: "j < 31 \<Longrightarrow> bit (imm64 (push_bit j 1)) i \<longleftrightarrow> i = j"
  by (auto simp: bit_imm64 bit_push_bit_iff bit_1_iff min_def bit_exp_iff)

lemma and_ready: "j < 31 \<Longrightarrow> (w AND imm64 (push_bit j 1) \<noteq> 0) \<longleftrightarrow> bit w j"
  using bit_ready by (auto simp: word_bits_iff bit_and_iff dest: bit_imp_le_length)

lemma fact_index_bound: "kind \<noteq> FactDomain \<Longrightarrow> fact_index kind - 1 < 31"
  by (cases kind) simp_all

lemma fact_index_inject: "k \<noteq> FactDomain \<Longrightarrow> kind \<noteq> FactDomain \<Longrightarrow> fact_index k - 1 = fact_index kind - 1 \<longleftrightarrow> k = kind"
  by (cases k; cases kind) simp_all

lemma inv_resolved:
  assumes "resolved V T kind m m1" "inv X T V D m" "kind \<noteq> FactDomain" "m_regs m 8 = Scalar w"
    and "m2 = set_reg 8 (Scalar (w OR imm64 (push_bit (fact_index kind - 1) 1))) m1"
  shows "inv X T V D m2 \<and> same T m m2 \<and> area kind m2 = fact_bytes (V kind)"
proof -
  have a: "area k m2 = (if k = kind then fact_bytes (V kind) else area k m)" for k
    using assms(1) by (auto simp: resolved_def assms(5))
  have "ready_ok V (w OR imm64 (push_bit (fact_index kind - 1) 1)) m2"
    unfolding ready_ok_def
  proof (intro allI impI)
    fix k assume k: "k \<noteq> FactDomain" "bit (w OR imm64 (push_bit (fact_index kind - 1) 1)) (fact_index k - 1)"
    then have "bit w (fact_index k - 1) \<or> k = kind"
      using bit_ready[OF fact_index_bound[OF assms(3)]] fact_index_inject[OF k(1) assms(3)] by (simp add: bit_or_iff)
    then show "area k m2 = fact_bytes (V k)" using assms(2,4) k(1) by (auto simp: a inv_def ready_ok_def)
  qed
  moreover have "frame_ok X T m2" using assms(1,2) by (auto simp: resolved_def inv_def frame_ok_def assms(5))
  moreover have "area FactDomain m2 = area FactDomain m" using assms(3) by (simp add: a)
  moreover have "m_regs m2 8 = Scalar (w OR imm64 (push_bit (fact_index kind - 1) 1))" by (simp add: assms(5))
  moreover have "same T m m2" using assms(1,3) by (simp add: resolved_def same_def assms(5))
  ultimately show ?thesis using assms(2) a by (auto simp: inv_def)
qed

abbreviation tests ::
  "bpf_maps \<Rightarrow> u8 list \<Rightarrow> trace_layout option \<Rightarrow> (fact_kind \<Rightarrow> u8 list option) \<Rightarrow> bool \<Rightarrow> nat \<Rightarrow> item list \<Rightarrow> bool"
where
  "tests maps X T V D \<equiv> goes maps (inv X T V D) (\<lambda>m m'. inv X T V D m' \<and> same T m m')"

lemma goes_tests_quiet: "goes maps (frame_ok X T) (quiet T) l is \<Longrightarrow> tests maps X T V D l is"
  unfolding goes_def by (meson inv_frame inv_quiet quiet_same)

lemma lazy_runs:
  assumes "kind \<noteq> FactDomain" "unat fid < 256"
    and look: "falls maps (frame_ok X T) (resolved V T kind) il"
    and bits: "\<And>K m. frame_ok X T m \<Longrightarrow> \<exists>m'. quiet T m m' \<and> run_items maps (ib @ K) m
       = run_items maps (find_label (if bit (area kind m ! (unat fid div 8)) (unat fid mod 8) then on_true else on_false) K) m'"
    and lab: "n \<notin> set (binds il)"
  shows "tests maps X T V D (if fact_bit (V kind) fid then on_true else on_false)
    (Jump (mk 0x45 READY 0 0 (push_bit (fact_index kind - 1) 1)) n # il
      @ Ins (mk 0x47 READY 0 0 (push_bit (fact_index kind - 1) 1)) # Bind n # ib)" (is "tests _ _ _ _ _ ?l _")
  unfolding goes_def
proof (intro allI impI)
  fix K m assume i: "inv X T V D m"
  then obtain w where w: "m_regs m 8 = Scalar w" "ready_ok V w m" by (auto simp: inv_def)
  let ?b = "push_bit (fact_index kind - 1) 1"
  let ?is = "Jump (mk 0x45 READY 0 0 ?b) n # il @ Ins (mk 0x47 READY 0 0 ?b) # Bind n # ib"
  have fin: "\<exists>m'. (inv X T V D m' \<and> same T m m') \<and> run_items maps (ib @ K) m1 = run_items maps (find_label ?l K) m'"
    if m1: "inv X T V D m1" "same T m m1" "area kind m1 = fact_bytes (V kind)" for m1
  proof -
    obtain m' where "quiet T m1 m'" "run_items maps (ib @ K) m1 = run_items maps (find_label ?l K) m'"
      using bits[OF inv_frame[OF m1(1)], of K] fact_bit_bytes[OF assms(2), of "V kind"] m1(3) by auto
    then show ?thesis using inv_quiet[OF _ m1(1)] same_trans[OF m1(2) quiet_same] by blast
  qed
  show "\<exists>m'. (inv X T V D m' \<and> same T m m') \<and> run_items maps (?is @ K) m = run_items maps (find_label ?l K) m'"
  proof (cases "bit w (fact_index kind - 1)")
    case True
    then have "run_items maps (?is @ K) m = run_items maps (ib @ K) m"
      using w(1) and_ready[OF fact_index_bound[OF assms(1)], of w] lab
      by (simp add: run_insn registers find_label_append)
    moreover have "area kind m = fact_bytes (V kind)" using True w(2) assms(1) by (simp add: ready_ok_def)
    ultimately show ?thesis using fin[OF i same_refl] by simp
  next
    case False
    let ?J = "Ins (mk 0x47 READY 0 0 ?b) # Bind n # ib @ K"
    obtain m1 where m1: "resolved V T kind m m1" "run_items maps (il @ ?J) m = run_items maps ?J m1"
      using fallsD[OF look inv_frame[OF i]] by blast
    let ?m2 = "set_reg 8 (Scalar (w OR imm64 ?b)) m1"
    have "m_regs m1 8 = Scalar w" using m1(1) w(1) by (simp add: resolved_def)
    then have "run_items maps ?J m1 = run_items maps (ib @ K) ?m2" by (simp add: run_insn registers)
    moreover have "run_items maps (?is @ K) m = run_items maps (il @ ?J) m"
      using w(1) and_ready[OF fact_index_bound[OF assms(1)], of w] False by (simp add: run_insn registers)
    ultimately have "run_items maps (?is @ K) m = run_items maps (ib @ K) ?m2" using m1(2) by simp
    with fin[of ?m2] inv_resolved[OF m1(1) i assms(1) w(1) refl] show ?thesis by simp
  qed
qed

lemma spec_fact_bit_lazy:
  assumes "input_ok ri" "X = input_bytes ri" "kind \<noteq> FactDomain" "unat fid < 256"
  shows "spec (emit_fact_bit_lazy kind fid on_true on_false fds) T n (\<lambda>is n'. scoped is n n' \<and>
    (\<forall>maps. maps_ok maps fds \<longrightarrow> tests maps X T (fact_value maps fds ri) D
       (if fact_bit (fact_value maps fds ri kind) fid then on_true else on_false) is))"
  unfolding emit_fact_bit_lazy_def Let_def
proof (intro spec_rules, rule spec_mono[OF spec_fact_lookup[OF assms(1,2)]], intro spec_rules, (simp add: scoped_def; fail),
    rule spec_mono[OF spec_fact_bit[OF assms(4), where X = X]], rule spec_Nil)
  fix il k ib k'
  let ?b = "push_bit (fact_index kind - 1) 1"
  let ?is = "[Jump (mk 0x45 READY 0 0 ?b) n] @ il @ [Ins (mk 0x47 READY 0 0 ?b)] @ [Bind n] @ ib @ []"
  assume l: "scoped il (Suc n) k \<and> (\<forall>maps. maps_ok maps fds \<longrightarrow>
      falls maps (frame_ok X T) (resolved (fact_value maps fds ri) T kind) il)"
    and b: "k' = k \<and> binds ib = [] \<and> (\<forall>maps K m. frame_ok X T m \<longrightarrow> (\<exists>m'. quiet T m m' \<and> run_items maps (ib @ K) m
       = run_items maps (find_label (if bit (area kind m ! (unat fid div 8)) (unat fid mod 8) then on_true else on_false) K) m'))"
  have n: "n \<notin> set (binds il)" using l by (auto simp: scoped_def)
  have "tests maps X T (fact_value maps fds ri) D (if fact_bit (fact_value maps fds ri kind) fid then on_true else on_false) ?is"
    if "maps_ok maps fds" for maps
    using lazy_runs[OF assms(3,4) _ _ n, of maps X T "fact_value maps fds ri" ib on_true on_false D] l b that by simp
  moreover have "labels_ok (n # binds il @ []) n k" using l by - (rule labels_rules | assumption | erule conjunct1)+
  then have "scoped ?is n k'" using b by (auto elim!: scoped_perm)
  ultimately show "scoped ?is n k' \<and> (\<forall>maps. maps_ok maps fds \<longrightarrow> tests maps X T (fact_value maps fds ri) D
       (if fact_bit (fact_value maps fds ri kind) fid then on_true else on_false) ?is)" by blast
qed

lemma spec_predicate:
  assumes i: "input_ok ri" "X = input_bytes ri" and l: "on_true < n"
    and v: "predicate_valid dc p" "dc \<le> 256" "is_domain_predicate p \<Longrightarrow> D"
  shows "spec (emit_predicate p on_true on_false fds) T n (\<lambda>is n'. scoped is n n' \<and>
    (\<forall>maps. maps_ok maps fds \<longrightarrow> tests maps X T (fact_value maps fds ri) D
       (if eval_predicate (fact_value maps fds ri) ri p then on_true else on_false) is))"
proof -
  note fields = input_fields[OF i(1)]
  have quiet: "spec e T n (\<lambda>is n'. scoped is n n' \<and> (\<forall>maps. maps_ok maps fds \<longrightarrow> tests maps X T (fact_value maps fds ri) D
       (if c then on_true else on_false) is))"
    if "spec e T n (\<lambda>is n'. scoped is n n' \<and> (\<forall>maps. goes maps (frame_ok X T) (quiet T) (if c then on_true else on_false) is))"
    for e c using that by (rule spec_mono) (blast intro: goes_tests_quiet)
  show ?thesis
  proof (cases p)
    case (KDomain fid)
    have D: D using v(3) KDomain by (simp add: is_domain_predicate_def)
    have f: "unat fid < 256" using v(1,2) KDomain by simp
    show ?thesis
      unfolding KDomain emit_predicate.simps eval_predicate.simps
    proof (rule spec_mono[OF spec_fact_bit[OF f, where X = X]])
      fix "is" k assume b: "k = n \<and> binds is = [] \<and> (\<forall>maps K m. frame_ok X T m \<longrightarrow> (\<exists>m'. quiet T m m' \<and> run_items maps (is @ K) m
        = run_items maps (find_label (if bit (area FactDomain m ! (unat fid div 8)) (unat fid mod 8) then on_true else on_false) K) m'))"
      have "tests maps X T V D (if fact_bit (V FactDomain) fid then on_true else on_false) is" for maps V
        unfolding goes_def
      proof (intro allI impI)
        fix K m assume m: "inv X T V D m"
        then have a: "area FactDomain m = fact_bytes (V FactDomain)" using D by (simp add: inv_def)
        have "\<exists>m'. quiet T m m' \<and> run_items maps (is @ K) m = run_items maps (find_label
            (if bit (area FactDomain m ! (unat fid div 8)) (unat fid mod 8) then on_true else on_false) K) m'"
          using b inv_frame[OF m] by blast
        then obtain m' where "quiet T m m'"
          "run_items maps (is @ K) m = run_items maps (find_label (if fact_bit (V FactDomain) fid then on_true else on_false) K) m'"
          unfolding a fact_bit_bytes[OF f] by blast
        then show "\<exists>m'. (inv X T V D m' \<and> same T m m') \<and> run_items maps (is @ K) m
            = run_items maps (find_label (if fact_bit (V FactDomain) fid then on_true else on_false) K) m'"
          using inv_quiet[OF _ m] quiet_same by blast
      qed
      then show "scoped is n k \<and> (\<forall>maps. maps_ok maps fds \<longrightarrow> tests maps X T (fact_value maps fds ri) D
          (if fact_bit (fact_value maps fds ri FactDomain) fid then on_true else on_false) is)"
        using b by (simp add: scoped_def)
    qed
  next
    case (KDestinationPort ranges)
    then show ?thesis
      using quiet[OF spec_port_ranges[OF i, of INPUT_DST_PORT]] l fields(2) i(2) by (simp add: INPUT_DST_PORT_def)
  next
    case (KSourcePort ranges)
    then show ?thesis
      using quiet[OF spec_port_ranges[OF i, of INPUT_SRC_PORT]] l fields(1) i(2) by (simp add: INPUT_SRC_PORT_def)
  next
    case (KProtocol bits)
    then show ?thesis
      using quiet[OF spec_mask_scalar[OF i, of INPUT_PROTO]] fields(3) i(2) by (simp add: INPUT_PROTO_def)
  next
    case (KIpVersion bits)
    then show ?thesis
      using quiet[OF spec_mask_scalar[OF i, of INPUT_VERSION]] fields(4) i(2) by (simp add: INPUT_VERSION_def)
  next
    case (KDscp vs)
    then show ?thesis using quiet[OF spec_dscp[OF i l]] fields(5) i(2) by simp
  next
    case (KProcessName names)
    then show ?thesis
      using quiet[OF spec_process_names[OF i l]] v(1) by (simp add: ROUTING_PROCESS_MAX_LEN_def)
  next
    case (KDestinationIp fid)
    show ?thesis
      unfolding KDestinationIp emit_predicate.simps eval_predicate.simps
      by (intro spec_fact_bit_lazy[OF i]) (use v(1) KDestinationIp in \<open>simp_all add: ROUTING_FACT_CAPACITY_def\<close>)
  next
    case (KSourceIp fid)
    show ?thesis
      unfolding KSourceIp emit_predicate.simps eval_predicate.simps
      by (intro spec_fact_bit_lazy[OF i]) (use v(1) KSourceIp in \<open>simp_all add: ROUTING_FACT_CAPACITY_def\<close>)
  next
    case (KMac fid)
    show ?thesis
      unfolding KMac emit_predicate.simps eval_predicate.simps
      by (intro spec_fact_bit_lazy[OF i]) (use v(1) KMac in \<open>simp_all add: ROUTING_FACT_CAPACITY_def\<close>)
  qed
qed

lemma spec_condition:
  assumes "input_ok ri" "X = input_bytes ri" "pass < n" "fail < n"
    and "predicate_valid dc (kc_predicate c)" "dc \<le> 256" "is_domain_predicate (kc_predicate c) \<Longrightarrow> D"
  shows "spec (emit_condition c pass fail fds) T n (\<lambda>is n'. scoped is n n' \<and>
    (\<forall>maps. maps_ok maps fds \<longrightarrow> tests maps X T (fact_value maps fds ri) D
       (if condition_holds (fact_value maps fds ri) ri c then pass else fail) is))"
proof (cases "kc_not c")
  case True
  have s: "(if \<not> b then pass else fail) = (if b then fail else pass)" for b by simp
  from True spec_predicate[OF assms(1,2,4-7), of pass] show ?thesis
    by (simp add: emit_condition_def condition_holds_def s)
next
  case False
  with spec_predicate[OF assms(1-3,5-7), of fail] show ?thesis
    by (simp add: emit_condition_def condition_holds_def)
qed

section \<open>Conditions of a rule\<close>

definition guards ::
  "bpf_maps \<Rightarrow> u8 list \<Rightarrow> trace_layout option \<Rightarrow> (fact_kind \<Rightarrow> u8 list option) \<Rightarrow> bool \<Rightarrow> bool \<Rightarrow> nat \<Rightarrow> item list \<Rightarrow> bool"
where
  "guards maps X T V D c l is \<longleftrightarrow>
     (\<forall>K m. inv X T V D m \<longrightarrow> (\<exists>m'. (inv X T V D m' \<and> same T m m') \<and>
        run_items maps (is @ K) m = run_items maps (if c then K else find_label l K) m'))"

lemma guards_append:
  assumes "guards maps X T V D c l is" "guards maps X T V D d l is'" "scoped is' n n'" "l < n"
  shows "guards maps X T V D (c \<and> d) l (is @ is')"
  unfolding guards_def
proof (intro allI impI)
  fix K m assume "inv X T V D m"
  with assms(1) obtain m1 where m1: "inv X T V D m1" "same T m m1"
    "run_items maps (is @ is' @ K) m = run_items maps (if c then is' @ K else find_label l (is' @ K)) m1"
    unfolding guards_def by blast
  from assms(2) m1(1) obtain m2 where m2: "inv X T V D m2" "same T m1 m2"
    "run_items maps (is' @ K) m1 = run_items maps (if d then K else find_label l K) m2"
    unfolding guards_def by blast
  have f: "find_label l (is' @ K) = find_label l K" using scoped_find[OF assms(3,4)] .
  show "\<exists>m'. (inv X T V D m' \<and> same T m m') \<and> run_items maps ((is @ is') @ K) m
      = run_items maps (if c \<and> d then K else find_label l K) m'"
  proof (cases c)
    case True
    with m1 m2 same_trans[OF m1(2) m2(2)] show ?thesis by (intro exI[of _ m2]) simp
  next
    case False
    with m1 f show ?thesis by (intro exI[of _ m1]) simp
  qed
qed

lemma falls_inv:
  assumes "falls maps (frame_ok X T) (quiet T) is" "inv X T V D m"
  shows "\<exists>m'. (inv X T V D m' \<and> same T m m') \<and> run_items maps (is @ K) m = run_items maps K m'"
  using fallsD[OF assms(1) inv_frame[OF assms(2)]] inv_quiet[OF _ assms(2)] quiet_same by blast

lemma falls_guards: "falls maps (frame_ok X T) (quiet T) is \<Longrightarrow> guards maps X T V D True l is"
  unfolding guards_def using falls_inv by auto

text \<open>One condition: to \<open>pass\<close>, which is bound behind it, or to \<open>fail\<close>.\<close>

lemma direct_runs:
  assumes "tests maps X T V D (if c then p else l) ic" "p \<noteq> l"
  shows "guards maps X T V D c l (ic @ [Bind p])"
  unfolding guards_def
proof (intro allI impI)
  fix K m assume "inv X T V D m"
  with assms(1) obtain m' where "inv X T V D m' \<and> same T m m'"
    "run_items maps (ic @ Bind p # K) m = run_items maps (find_label (if c then p else l) (Bind p # K)) m'"
    unfolding goes_def by blast
  then show "\<exists>m'. (inv X T V D m' \<and> same T m m') \<and> run_items maps ((ic @ [Bind p]) @ K) m
      = run_items maps (if c then K else find_label l K) m'"
    using assms(2) by (intro exI[of _ m']) auto
qed

lemma traced_runs:
  assumes "tests maps X T V D (if c then p else q) ic" "p \<noteq> q" "p \<noteq> l" "p \<notin> set (binds it)"
    and "falls maps (frame_ok X T) (quiet T) it"
  shows "guards maps X T V D c l (ic @ Bind q # it @ Jump (mk 0x05 0 0 0 0) l # [Bind p])"
  unfolding guards_def
proof (intro allI impI)
  fix K m assume "inv X T V D m"
  let ?J = "Bind q # it @ Jump (mk 0x05 0 0 0 0) l # Bind p # K"
  from assms(1) \<open>inv X T V D m\<close> obtain m1 where m1: "inv X T V D m1" "same T m m1"
    "run_items maps (ic @ ?J) m = run_items maps (find_label (if c then p else q) ?J) m1"
    unfolding goes_def by blast
  show "\<exists>m'. (inv X T V D m' \<and> same T m m') \<and> run_items maps ((ic @ Bind q # it @ Jump (mk 0x05 0 0 0 0) l # [Bind p]) @ K) m
      = run_items maps (if c then K else find_label l K) m'"
  proof (cases c)
    case True
    have "find_label p ?J = K" using assms(2,4) by (simp add: find_label_append)
    with True m1 show ?thesis by (intro exI[of _ m1]) simp
  next
    case False
    from falls_inv[OF assms(5) m1(1), of "Jump (mk 0x05 0 0 0 0) l # Bind p # K"] obtain m2 where
      m2: "inv X T V D m2" "same T m1 m2" "run_items maps (it @ Jump (mk 0x05 0 0 0 0) l # Bind p # K) m1
         = run_items maps (Jump (mk 0x05 0 0 0 0) l # Bind p # K) m2" by blast
    with False m1 assms(2,3) same_trans[OF m1(2) m2(2)] show ?thesis
      by (intro exI[of _ m2]) (simp add: run_insn)
  qed
qed

lemma spec_one_condition:
  assumes i: "input_ok ri" "X = input_bytes ri" and l: "fail < n"
    and v: "predicate_valid dc (kc_predicate c)" "dc \<le> 256" "is_domain_predicate (kc_predicate c) \<Longrightarrow> D"
  shows "spec (with_label (\<lambda>pass. seq
       [(if trace
         then with_label (\<lambda>missed. seq
           [emit_condition c pass missed fds, bind_label missed, emit_trace_outcome slot r, ja fail])
         else emit_condition c pass fail fds),
        bind_label pass])) T n (\<lambda>is n'. scoped is n n' \<and>
    (\<forall>maps. maps_ok maps fds \<longrightarrow> guards maps X T (fact_value maps fds ri) D (condition_holds (fact_value maps fds ri) ri c) fail is))"
proof (cases trace)
  case False
  show ?thesis
    unfolding if_not_P[OF False]
  proof (intro spec_rules, rule spec_mono[OF spec_condition[OF i _ _ v]], use l in simp, use l in simp, assumption, intro spec_rules)
    fix ic k
    let ?V = "\<lambda>maps. fact_value maps fds ri"
    assume c: "scoped ic (Suc n) k \<and> (\<forall>maps. maps_ok maps fds \<longrightarrow>
        tests maps X T (?V maps) D (if condition_holds (?V maps) ri c then n else fail) ic)"
    show "n < k" using c[THEN conjunct1] by (simp add: scoped_def)
    from c have "scoped ic (Suc n) k" by blast
    then have "labels_ok (n # binds ic @ []) n k" by - (rule labels_rules | assumption)+
    then have "scoped (ic @ [Bind n] @ []) n k" by (rule scoped_perm) simp
    moreover have "guards maps X T (?V maps) D (condition_holds (?V maps) ri c) fail (ic @ [Bind n] @ [])"
      if "maps_ok maps fds" for maps
    proof -
      from c that have "tests maps X T (?V maps) D (if condition_holds (?V maps) ri c then n else fail) ic" by blast
      from direct_runs[OF this] l show ?thesis unfolding append_Nil2 by blast
    qed
    ultimately show "scoped (ic @ [Bind n] @ []) n k \<and> (\<forall>maps. maps_ok maps fds \<longrightarrow>
        guards maps X T (?V maps) D (condition_holds (?V maps) ri c) fail (ic @ [Bind n] @ []))" by blast
  qed
next
  case True
  show ?thesis
    unfolding if_P[OF True]
  proof (intro spec_rules, rule spec_mono[OF spec_condition[OF i _ _ v]], use l in simp, use l in simp, assumption, intro spec_rules,
      (simp add: scoped_def; fail), rule spec_mono[OF neutralD[OF neutral_trace_outcome[where X = X]]], intro spec_rules)
    fix ic k it k'
    let ?V = "\<lambda>maps. fact_value maps fds ri"
    let ?is = "(ic @ [Bind (Suc n)] @ it @ [Jump (mk 0x05 0 0 0 0) fail] @ []) @ [Bind n] @ []"
    assume c: "scoped ic (Suc (Suc n)) k \<and> (\<forall>maps. maps_ok maps fds \<longrightarrow>
        tests maps X T (?V maps) D (if condition_holds (?V maps) ri c then n else Suc n) ic)"
      and t: "scoped it k k' \<and> (\<forall>maps. falls maps (frame_ok X T) (quiet T) it)"
    show "n < k'" using c[THEN conjunct1] t[THEN conjunct1] by (simp add: scoped_def)
    from c t have s: "scoped ic (Suc (Suc n)) k" "scoped it k k'" by blast+
    then have "labels_ok (n # Suc n # binds ic @ binds it @ []) n k'" by - (rule labels_rules | assumption)+
    then have "scoped ?is n k'" by (rule scoped_perm) simp
    moreover have "guards maps X T (?V maps) D (condition_holds (?V maps) ri c) fail ?is" if "maps_ok maps fds" for maps
    proof -
      from c that have c': "tests maps X T (?V maps) D (if condition_holds (?V maps) ri c then n else Suc n) ic" by blast
      from t have t': "falls maps (frame_ok X T) (quiet T) it" by blast
      have "n \<noteq> Suc n" "n \<noteq> fail" "n \<notin> set (binds it)" using s l by (auto simp: scoped_def)
      from traced_runs[OF c' this t'] show ?thesis by simp
    qed
    ultimately show "scoped ?is n k' \<and> (\<forall>maps. maps_ok maps fds \<longrightarrow>
        guards maps X T (?V maps) D (condition_holds (?V maps) ri c) fail ?is)" by blast
  qed
qed

lemma spec_label_append:
  assumes "spec (with_label (\<lambda>l. seq (es l))) T n (\<lambda>is k. spec (seq fs) T k (\<lambda>is' k'. Q (is @ is') k'))"
  shows "spec (with_label (\<lambda>l. seq (es l @ fs))) T n Q"
  by (rule spec_then[OF assms]) (simp add: with_label_def seq_append)

lemma spec_conditions:
  assumes i: "input_ok ri" "X = input_bytes ri"
  shows "fail < n \<Longrightarrow> dc \<le> 256 \<Longrightarrow>
    \<forall>(_, c) \<in> set cs. predicate_valid dc (kc_predicate c) \<and> (is_domain_predicate (kc_predicate c) \<longrightarrow> D) \<Longrightarrow>
    spec (emit_conditions plan fds fail slot rank cs) T n (\<lambda>is n'. scoped is n n' \<and>
      (\<forall>maps. maps_ok maps fds \<longrightarrow> guards maps X T (fact_value maps fds ri) D
         (\<forall>(_, c) \<in> set cs. condition_holds (fact_value maps fds ri) ri c) fail is))"
proof (induction cs arbitrary: rank n)
  case Nil
  have "guards maps X T V D True fail []" for maps V using falls_guards[OF falls_Nil] by blast
  then show ?case unfolding emit_conditions.simps by (intro spec_rules) (simp add: scoped_def)
next
  case (Cons oc cs)
  obtain ord c where oc: "oc = (ord, c)" by (cases oc)
  let ?V = "\<lambda>maps. fact_value maps fds ri"
  have v: "predicate_valid dc (kc_predicate c)" "is_domain_predicate (kc_predicate c) \<Longrightarrow> D" using Cons.prems(3) oc by auto
  note one = spec_one_condition[OF i Cons.prems(1) v(1) Cons.prems(2) v(2), of "rp_trace_enabled plan" fds
      "slot + 1 + rank" ROUTE_TRACE_NOT_MATCHED T]
  show ?case
    unfolding oc emit_conditions.simps
  proof (rule spec_label_append[where fs = "[emit_trace_outcome (slot + 1 + rank) ROUTE_TRACE_MATCHED,
        emit_conditions plan fds fail slot (rank + 1) cs]" and es = "\<lambda>l. [_ l, _ l]", unfolded append_Cons append_Nil],
      rule spec_mono[OF one], assumption)
    fix ic k assume c: "scoped ic n k \<and> (\<forall>maps. maps_ok maps fds \<longrightarrow>
        guards maps X T (?V maps) D (condition_holds (?V maps) ri c) fail ic)"
    have k: "fail < k" using c[THEN conjunct1] Cons.prems(1) by (simp add: scoped_def)
    let ?R = "\<lambda>is n'. scoped is n n' \<and> (\<forall>maps. maps_ok maps fds \<longrightarrow> guards maps X T (?V maps) D
         (\<forall>(_, c) \<in> set ((ord, c) # cs). condition_holds (?V maps) ri c) fail is)"
    show "spec (seq [emit_trace_outcome (slot + 1 + rank) ROUTE_TRACE_MATCHED,
        emit_conditions plan fds fail slot (rank + 1) cs]) T k (\<lambda>is' k'. ?R (ic @ is') k')"
    proof (rule spec_Cons, rule spec_mono[OF neutralD[OF neutral_trace_outcome[where X = X]]])
      fix it k1 assume t: "scoped it k k1 \<and> (\<forall>maps. falls maps (frame_ok X T) (quiet T) it)"
      have k1: "fail < k1" using t[THEN conjunct1] k by (simp add: scoped_def)
      have cs: "\<forall>(_, c) \<in> set cs. predicate_valid dc (kc_predicate c) \<and> (is_domain_predicate (kc_predicate c) \<longrightarrow> D)"
        using Cons.prems(3) by auto
      show "spec (seq [emit_conditions plan fds fail slot (rank + 1) cs]) T k1 (\<lambda>is' k'. ?R (ic @ it @ is') k')"
      proof (rule spec_Cons, rule spec_mono[OF Cons.IH[OF k1 Cons.prems(2) cs]], rule spec_Nil)
        fix ir k2 assume r: "scoped ir k1 k2 \<and> (\<forall>maps. maps_ok maps fds \<longrightarrow> guards maps X T (?V maps) D
            (\<forall>(_, c) \<in> set cs. condition_holds (?V maps) ri c) fail ir)"
        have s: "scoped ic n k" "scoped it k k1" "scoped ir k1 k2" using c t r by blast+
        have "guards maps X T (?V maps) D (\<forall>(_, c) \<in> set ((ord, c) # cs). condition_holds (?V maps) ri c) fail (ic @ it @ ir)"
          if "maps_ok maps fds" for maps
        proof -
          from t have "falls maps (frame_ok X T) (quiet T) it" by blast
          moreover from r that have "guards maps X T (?V maps) D (\<forall>(_, c) \<in> set cs. condition_holds (?V maps) ri c) fail ir"
            by blast
          ultimately have "guards maps X T (?V maps) D (True \<and> (\<forall>(_, c) \<in> set cs. condition_holds (?V maps) ri c)) fail (it @ ir)"
            by (intro guards_append[OF falls_guards _ s(3) k1])
          moreover from c that have "guards maps X T (?V maps) D (condition_holds (?V maps) ri c) fail ic" by blast
          ultimately have "guards maps X T (?V maps) D (condition_holds (?V maps) ri c \<and>
              (True \<and> (\<forall>(_, c) \<in> set cs. condition_holds (?V maps) ri c))) fail (ic @ it @ ir)"
            using guards_append[OF _ _ scoped_append[OF s(2,3)] k] by blast
          then show ?thesis by simp
        qed
        moreover have "scoped (ic @ it @ ir) n k2" using s by (blast intro: scoped_append)
        ultimately show "?R (ic @ it @ ir @ []) k2" unfolding append_Nil2 by blast
      qed
    qed
  qed
qed

end
