(* ===== verification/Codegen_Program.thy ===== *)
theory Codegen_Program
  imports Codegen_Correct
begin

text \<open>
  The whole policy: actions, rules and the prologue. \<open>codegen_correct\<close> shows that the bytecode of an
  accepted plan, run on an input, returns 0 with the decision of \<open>plan_route\<close> in the output, within
  one step for each instruction; \<open>codegen_null\<close> that a null argument is refused.
\<close>

section \<open>Actions\<close>

lemma read_decision_upd:
  assumes "length out = 272"
  shows "read_decision (upd_bytes out 0 (le_bytes 4 (ucast v))) = (read_decision out)\<lparr>d_outbound := v\<rparr>"
    and "read_decision (upd_bytes out 4 (le_bytes 4 (ucast v))) = (read_decision out)\<lparr>d_mark := v\<rparr>"
    and "read_decision (upd_bytes out 8 (le_bytes 4 (ucast v))) = (read_decision out)\<lparr>d_must := v\<rparr>"
    and "read_decision (upd_bytes out 12 (le_bytes 4 (ucast v))) = (read_decision out)\<lparr>d_domain_final := v\<rparr>"
    and "read_decision (upd_bytes out 16 (le_bytes 4 (ucast v))) = (read_decision out)\<lparr>d_rule_id := v\<rparr>"
    and "read_decision (upd_bytes out 20 (le_bytes 4 (ucast v))) = (read_decision out)\<lparr>d_direct_mark_index := v\<rparr>"
proof -
  have "as_u32 (le_word (le_bytes 4 (ucast v))) = v" using le_word_le32[of v] by (simp add: le32_def)
  then show "read_decision (upd_bytes out 0 (le_bytes 4 (ucast v))) = (read_decision out)\<lparr>d_outbound := v\<rparr>"
    "read_decision (upd_bytes out 4 (le_bytes 4 (ucast v))) = (read_decision out)\<lparr>d_mark := v\<rparr>"
    "read_decision (upd_bytes out 8 (le_bytes 4 (ucast v))) = (read_decision out)\<lparr>d_must := v\<rparr>"
    "read_decision (upd_bytes out 12 (le_bytes 4 (ucast v))) = (read_decision out)\<lparr>d_domain_final := v\<rparr>"
    "read_decision (upd_bytes out 16 (le_bytes 4 (ucast v))) = (read_decision out)\<lparr>d_rule_id := v\<rparr>"
    "read_decision (upd_bytes out 20 (le_bytes 4 (ucast v))) = (read_decision out)\<lparr>d_direct_mark_index := v\<rparr>"
    using assms by (simp_all add: read_decision_def read32_fld fld_def segment_upd_other segment_upd_same')
qed

text \<open>\<open>sets f\<close>: the code falls through, having changed the decision by \<open>f\<close>.\<close>

definition sets :: "trace_layout option \<Rightarrow> (routing_decision \<Rightarrow> routing_decision) \<Rightarrow> machine \<Rightarrow> machine \<Rightarrow> bool" where
  "sets T f m m' \<longleftrightarrow>
     m_input m' = m_input m \<and> m_stack m' = m_stack m \<and> (\<forall>r \<ge> 6. m_regs m' r = m_regs m r)
     \<and> length (m_output m') = length (m_output m) \<and> read_decision (m_output m') = f (read_decision (m_output m))
     \<and> (T = None \<longrightarrow> drop 24 (m_output m') = drop 24 (m_output m))"

definition setter :: "u8 list \<Rightarrow> trace_layout option \<Rightarrow> (routing_decision \<Rightarrow> routing_decision) \<Rightarrow> emitter \<Rightarrow> bool" where
  "setter X T f e \<longleftrightarrow>
     (\<forall>n. spec e T n (\<lambda>is n'. scoped is n n' \<and> (\<forall>maps. falls maps (frame_ok X T) (sets T f) is)))"

lemma frame_ok_sets: "sets T f m m' \<Longrightarrow> frame_ok X T m \<Longrightarrow> frame_ok X T m'"
  by (auto simp: sets_def frame_ok_def)

lemma sets_trans: "sets T f m m1 \<Longrightarrow> sets T g m1 m2 \<Longrightarrow> sets T (g \<circ> f) m m2"
  by (auto simp: sets_def)

lemma sets_id: "sets T id m m"
  by (simp add: sets_def)

lemma setter_Nil: "setter X T id (seq [])"
  unfolding setter_def by (intro allI spec_rules) (use sets_id in \<open>fastforce simp: scoped_def falls_def\<close>)

lemma setter_Cons:
  assumes "setter X T f e" "setter X T g (seq es)"
  shows "setter X T (g \<circ> f) (seq (e # es))"
  unfolding setter_def
proof (intro allI, rule spec_Cons, rule spec_mono[OF assms(1)[unfolded setter_def, rule_format]],
    rule spec_mono[OF assms(2)[unfolded setter_def, rule_format]])
  fix n "is" k is' k'
  assume i: "scoped is n k \<and> (\<forall>maps. falls maps (frame_ok X T) (sets T f) is)"
    and i': "scoped is' k k' \<and> (\<forall>maps. falls maps (frame_ok X T) (sets T g) is')"
  have "falls maps (frame_ok X T) (sets T (g \<circ> f)) (is @ is')" for maps
    by (rule falls_append[where B = "frame_ok X T" and R = "sets T f" and S = "sets T g"])
      (use i i' in \<open>auto intro: frame_ok_sets sets_trans\<close>)
  then show "scoped (is @ is') n k' \<and> (\<forall>maps. falls maps (frame_ok X T) (sets T (g \<circ> f)) (is @ is'))"
    using i i' by (auto intro: scoped_append)
qed

definition store :: "int \<Rightarrow> u32 \<Rightarrow> routing_decision \<Rightarrow> routing_decision" where
  "store off v d =
     (if off = OUTBOUND then d\<lparr>d_outbound := v\<rparr> else if off = MARK then d\<lparr>d_mark := v\<rparr>
      else if off = MUST then d\<lparr>d_must := v\<rparr> else if off = DOMAIN_FINAL then d\<lparr>d_domain_final := v\<rparr>
      else if off = RULE_ID then d\<lparr>d_rule_id := v\<rparr> else d\<lparr>d_direct_mark_index := v\<rparr>)"

lemma falls_store:
  assumes "off \<in> {OUTBOUND, MARK, MUST, DOMAIN_FINAL, RULE_ID, DIRECT_MARK_INDEX}"
  shows "falls maps (frame_ok X T) (sets T (store off v)) [Ins (mk 0x62 R7 0 off v)]"
  unfolding falls_def
proof (intro allI impI)
  fix K m assume f: "frame_ok X T m"
  have o: "0 \<le> off" "off \<le> 20" using assms by (auto simp: rust_consts)
  let ?m = "out_upd (nat off) (le_bytes 4 (ucast v)) m"
  have "sets T (store off v) m ?m"
    using assms f read_decision_upd[of "m_output m" v]
    by (auto simp: sets_def store_def frame_ok_def rust_consts drop_upd_bytes)
  then show "\<exists>m'. sets T (store off v) m m' \<and> run_items maps ([Ins (mk 0x62 R7 0 off v)] @ K) m = run_items maps K m'"
    using f o by (intro exI[of _ ?m]) (simp add: run_insn registers frame_ok_def)
qed

lemma setter_store:
  "off \<in> {OUTBOUND, MARK, MUST, DOMAIN_FINAL, RULE_ID, DIRECT_MARK_INDEX} \<Longrightarrow> setter X T (store off v) (st_imm R7 off v)"
  unfolding setter_def by (intro allI spec_rules) (simp add: scoped_def falls_store)

lemma setter_opt:
  assumes "off \<in> {OUTBOUND, MARK, MUST, DOMAIN_FINAL, RULE_ID, DIRECT_MARK_INDEX}"
  shows "setter X T (if c then store off v else id) (seq (if c then [st_imm R7 off v] else []))"
  using setter_Nil setter_Cons[OF setter_store[OF assms] setter_Nil, of X T v] by simp

lemma setter_if: "setter X T f e \<Longrightarrow> setter X T (if c then f else id) (if c then e else seq [])"
  using setter_Nil by simp

lemma setter_finality:
  assumes "input_ok ri" "X = input_bytes ri"
  shows "setter X T (if ri_flags ri AND ROUTING_INPUT_ALLOW_DIRECT_FINALITY \<noteq> 0 then store DOMAIN_FINAL 1 else id)
    (with_label (\<lambda>not_final. seq [ldx_w R0 R6 INPUT_FLAGS, and_imm R0 ROUTING_INPUT_ALLOW_DIRECT_FINALITY,
       jump BPF_JEQ R0 0 not_final, st_imm R7 DOMAIN_FINAL 1, bind_label not_final]))"
  unfolding setter_def
proof (intro allI spec_rules)
  fix n
  let ?is = "[Ins (mk 0x61 R0 R6 INPUT_FLAGS 0)] @ [Ins (mk 0x57 R0 0 0 ROUTING_INPUT_ALLOW_DIRECT_FINALITY)] @
       [Jump (mk 0x15 R0 0 0 0) n] @ [Ins (mk 0x62 R7 0 DOMAIN_FINAL 1)] @ [Bind n] @ []"
  let ?f = "if ri_flags ri AND ROUTING_INPUT_ALLOW_DIRECT_FINALITY \<noteq> 0 then store DOMAIN_FINAL 1 else id"
  show "n < Suc n" by simp
  have "falls maps (frame_ok X T) (sets T ?f) ?is" for maps
    unfolding falls_def
  proof (intro allI impI)
    fix K m assume f: "frame_ok X T m"
    have fl: "le_word (segment 124 4 X) = ucast (ri_flags ri)"
      using assms input_fields(7)[OF assms(1)] input_length[OF assms(1)] by (simp add: le_word_field)
    let ?m = "set_reg 0 (Scalar (ucast (ri_flags ri) AND imm64 ROUTING_INPUT_ALLOW_DIRECT_FINALITY))
        (set_reg 0 (Scalar (ucast (ri_flags ri))) m)"
    have z: "(ucast (ri_flags ri) AND imm64 ROUTING_INPUT_ALLOW_DIRECT_FINALITY = 0)
        = (ri_flags ri AND ROUTING_INPUT_ALLOW_DIRECT_FINALITY = 0)" by (simp add: ucast_and_imm64)
    have "sets T id m ?m" by (simp add: sets_def)
    moreover have "sets T (store DOMAIN_FINAL 1) m (out_upd 12 (le_bytes 4 1) ?m)"
      using f read_decision_upd(4)[of "m_output m" 1]
      by (auto simp: sets_def store_def frame_ok_def rust_consts drop_upd_bytes)
    moreover have "run_items maps (?is @ K) m = run_items maps K
        (if ri_flags ri AND ROUTING_INPUT_ALLOW_DIRECT_FINALITY = 0 then ?m else out_upd 12 (le_bytes 4 1) ?m)"
      using f fl z by (simp add: run_insn registers frame_ok_def rust_consts)
    ultimately show "\<exists>m'. sets T ?f m m' \<and> run_items maps (?is @ K) m = run_items maps K m'"
      by (cases "ri_flags ri AND ROUTING_INPUT_ALLOW_DIRECT_FINALITY = 0") auto
  qed
  then show "scoped ?is n (Suc n) \<and> (\<forall>maps. falls maps (frame_ok X T) (sets T ?f) ?is)"
    by (simp add: scoped_def)
qed

definition base_decision :: "routing_push_plan \<Rightarrow> bool \<Rightarrow> routing_decision" where
  "base_decision plan final =
     \<lparr>d_outbound = as_u32 (ka_outbound (rp_fallback plan)), d_mark = 0, d_must = 0,
      d_domain_final = (if final then 1 else 0), d_rule_id = - 1, d_direct_mark_index = - 1\<rparr>"

lemma spec_action:
  assumes "input_ok ri" "X = input_bytes ri" "rid = None \<Longrightarrow> action = rp_fallback plan"
  shows "spec (emit_action action rid refine) T n (\<lambda>is n'. scoped is n n' \<and> (\<forall>maps. falls maps
    (\<lambda>m. frame_ok X T m \<and> read_decision (m_output m) = base_decision plan final)
    (sets T (\<lambda>_. action_decision action rid (final \<or> (refine \<and> direct_finality ri action)))) is))"
proof -
  let ?c = "refine \<and> ka_outbound action = outbound_u8 Direct \<and> \<not> ka_must action"
  let ?f = "(((((id \<circ> (if rid \<noteq> None \<or> ka_direct_mark_index action \<noteq> None
       then store DIRECT_MARK_INDEX (case ka_direct_mark_index action of None \<Rightarrow> - 1 | Some i \<Rightarrow> as_u32 i) else id))
     \<circ> (if rid \<noteq> None then store RULE_ID (the rid) else id))
     \<circ> (if rid \<noteq> None \<or> ka_must action then store MUST (if ka_must action then 1 else 0) else id))
     \<circ> (if rid \<noteq> None \<or> ka_mark action \<noteq> 0 then store MARK (ka_mark action) else id))
     \<circ> (if rid \<noteq> None then store OUTBOUND (as_u32 (ka_outbound action)) else id))
     \<circ> (if ?c then if ri_flags ri AND ROUTING_INPUT_ALLOW_DIRECT_FINALITY \<noteq> 0 then store DOMAIN_FINAL 1 else id else id)"
  have r: "(case rid of Some i \<Rightarrow> [st_imm R7 RULE_ID i] | None \<Rightarrow> []) = (if rid \<noteq> None then [st_imm R7 RULE_ID (the rid)] else [])"
    by (cases rid) auto
  have f: "setter X T ?f (emit_action action rid refine)"
    unfolding emit_action_def r
    by (rule setter_Cons, rule setter_if[OF setter_finality[OF assms(1,2)]],
        (rule setter_Cons, rule setter_opt, simp)+, rule setter_Nil)
  have d: "?f (base_decision plan final) = action_decision action rid (final \<or> (refine \<and> direct_finality ri action))"
    using assms(3)
    by (cases rid; cases "ka_direct_mark_index action"; cases refine)
      (simp_all add: base_decision_def action_decision_def direct_finality_def store_def rust_consts)
  show ?thesis
  proof (rule spec_mono[OF f[unfolded setter_def, rule_format]], goal_cases)
    case (1 "is" k)
    have "sets T (\<lambda>_. ?f (base_decision plan final)) m m'"
      if "sets T ?f m m'" "read_decision (m_output m) = base_decision plan final" for m m'
      using that by (simp add: sets_def)
    with 1 show ?case unfolding falls_def d[symmetric] by blast
  qed
qed

section \<open>Rules\<close>

text \<open>\<open>finishes\<close>: the code returns 0 with the given decision.\<close>

definition ended :: "trace_layout option \<Rightarrow> routing_decision \<Rightarrow> machine \<Rightarrow> machine \<Rightarrow> bool" where
  "ended T d m m' \<longleftrightarrow>
     m_input m' = m_input m \<and> length (m_output m') = length (m_output m) \<and> read_decision (m_output m') = d
     \<and> (T = None \<longrightarrow> drop 24 (m_output m') = drop 24 (m_output m))"

definition finishes :: "bpf_maps \<Rightarrow> (machine \<Rightarrow> bool) \<Rightarrow> trace_layout option \<Rightarrow> routing_decision \<Rightarrow> item list \<Rightarrow> bool" where
  "finishes maps A T d is \<longleftrightarrow> (\<forall>K m. A m \<longrightarrow> (\<exists>m'. ended T d m m' \<and> run_items maps (is @ K) m = Some (0, m')))"

definition entry ::
  "u8 list \<Rightarrow> trace_layout option \<Rightarrow> (fact_kind \<Rightarrow> u8 list option) \<Rightarrow> routing_push_plan \<Rightarrow> bool \<Rightarrow> machine \<Rightarrow> bool"
where
  "entry X T V plan final m \<longleftrightarrow>
     inv X T V (rp_has_domain_rules plan) m \<and> read_decision (m_output m) = base_decision plan final"

lemma entry_same: "inv X T V (rp_has_domain_rules plan) m' \<Longrightarrow> same T m m' \<Longrightarrow> entry X T V plan final m \<Longrightarrow> entry X T V plan final m'"
  by (simp add: entry_def same_def)

lemma ended_same: "same T m m1 \<Longrightarrow> m_input m1 = m_input m \<Longrightarrow> length (m_output m1) = length (m_output m) \<Longrightarrow>
    ended T d m1 m2 \<Longrightarrow> ended T d m m2"
  by (simp add: same_def ended_def)

lemma entry_frame: "entry X T V plan final m \<Longrightarrow> frame_ok X T m"
  by (simp add: entry_def inv_def)

lemma finishes_falls:
  assumes "falls maps A R is" "finishes maps B T d is'"
    and "\<And>m m'. A m \<Longrightarrow> R m m' \<Longrightarrow> B m'" "\<And>m m1 m2. A m \<Longrightarrow> R m m1 \<Longrightarrow> B m1 \<Longrightarrow> ended T d m1 m2 \<Longrightarrow> ended T d m m2"
  shows "finishes maps A T d (is @ is')"
  unfolding finishes_def
proof (intro allI impI)
  fix K m assume a: "A m"
  with assms(1) obtain m1 where m1: "R m m1" "run_items maps (is @ is' @ K) m = run_items maps (is' @ K) m1"
    unfolding falls_def by blast
  from assms(2,3) a m1(1) obtain m2 where "ended T d m1 m2" "run_items maps (is' @ K) m1 = Some (0, m2)"
    unfolding finishes_def by blast
  with m1 assms(3)[OF a m1(1)] assms(4)[OF a m1(1)] show "\<exists>m'. ended T d m m' \<and> run_items maps ((is @ is') @ K) m = Some (0, m')"
    by auto
qed

lemma finishes_trace:
  assumes "falls maps (frame_ok X T) (quiet T) is" "finishes maps (entry X T V plan final) T d is'"
  shows "finishes maps (entry X T V plan final) T d (is @ is')"
proof (rule finishes_falls[OF _ assms(2)])
  show "falls maps (entry X T V plan final) (quiet T) is"
    using assms(1) entry_frame unfolding falls_def by blast
  show "entry X T V plan final m'" if "entry X T V plan final m" "quiet T m m'" for m m'
    using that inv_quiet[of T m m'] by (auto simp: entry_def quiet_def)
  show "ended T d m m2" if "quiet T m m1" "ended T d m1 m2" for m m1 m2
    using that by (auto simp: ended_def quiet_def)
qed

lemma finishes_more: "finishes maps A T d is \<Longrightarrow> finishes maps A T d (is @ is')"
  unfolding finishes_def by simp

text \<open>An action and the return behind it.\<close>

lemma spec_return:
  "spec emit_return T n (\<lambda>is n'. scoped is n n' \<and> (\<forall>maps d. finishes maps
     (\<lambda>m. frame_ok X T m \<and> read_decision (m_output m) = d) T d is))"
  unfolding emit_return_def
proof (rule spec_Cons, rule spec_mono[OF neutralD[OF neutral_trace_or[where X = X]]], goal_cases)
  case (3 "is" k)
  have "finishes maps (\<lambda>m. frame_ok X T m \<and> read_decision (m_output m) = d) T d [Ins (mk 0xb7 R0 0 0 0), Ins (mk 0x95 0 0 0 0)]" for maps d
    unfolding finishes_def by (auto simp: run_insn registers ended_def)
  then have "finishes maps (\<lambda>m. frame_ok X T m \<and> read_decision (m_output m) = d) T d
      (is @ [Ins (mk 0xb7 R0 0 0 0), Ins (mk 0x95 0 0 0 0)])" for maps d
  proof (rule finishes_falls[rotated])
    show "falls maps (\<lambda>m. frame_ok X T m \<and> read_decision (m_output m) = d) (quiet T) is"
      using 3 unfolding falls_def by blast
    show "frame_ok X T m' \<and> read_decision (m_output m') = d" if "frame_ok X T m \<and> read_decision (m_output m) = d" "quiet T m m'" for m m'
      using that frame_ok_quiet by (auto simp: quiet_def)
    show "ended T d m m2" if "quiet T m m1" "ended T d m1 m2" for m m1 m2
      using that by (auto simp: ended_def quiet_def)
  qed
  with 3 show ?case by (intro spec_rules) (simp add: scoped_def)
qed (simp_all add: rust_consts)

lemma spec_decide:
  assumes "input_ok ri" "X = input_bytes ri" "rid = None \<Longrightarrow> action = rp_fallback plan"
  shows "spec (seq [emit_trace_outcome slot r, emit_action action rid refine, emit_return]) T n (\<lambda>is n'. scoped is n n' \<and>
    (\<forall>maps V. finishes maps (entry X T V plan final) T
       (action_decision action rid (final \<or> (refine \<and> direct_finality ri action))) is))"
proof (rule spec_Cons, rule spec_mono[OF neutralD[OF neutral_trace_outcome[where X = X]]],
    rule spec_Cons, rule spec_mono[OF spec_action[OF assms, where final = final]], assumption,
    rule spec_Cons, rule spec_mono[OF spec_return[where X = X]], rule spec_Nil, goal_cases)
  case (1 it k ia k1 ir k2)
  let ?d = "action_decision action rid (final \<or> (refine \<and> direct_finality ri action))"
  let ?A = "\<lambda>m. frame_ok X T m \<and> read_decision (m_output m) = base_decision plan final"
  have "finishes maps ?A T ?d (ia @ ir)" for maps
  proof (rule finishes_falls[where R = "sets T (\<lambda>_. ?d)"])
    show "falls maps ?A (sets T (\<lambda>_. ?d)) ia" "finishes maps (\<lambda>m. frame_ok X T m \<and> read_decision (m_output m) = ?d) T ?d ir"
      using 1 by blast+
    show "frame_ok X T m' \<and> read_decision (m_output m') = ?d" if "?A m" "sets T (\<lambda>_. ?d) m m'" for m m'
      using that frame_ok_sets[of T _ m m' X] by (auto simp: sets_def)
    show "ended T ?d m m2" if "sets T (\<lambda>_. ?d) m m1" "ended T ?d m1 m2" for m m1 m2
      using that by (auto simp: ended_def sets_def)
  qed
  then have "finishes maps (entry X T V plan final) T ?d (ia @ ir)" for maps V
    unfolding finishes_def entry_def inv_def by blast
  then have "finishes maps (entry X T V plan final) T ?d (it @ ia @ ir)" for maps V
    using finishes_trace 1 by blast
  moreover have "scoped (it @ ia @ ir) n k2" using 1 by (blast intro: scoped_append)
  ultimately show ?case by simp
qed

text \<open>The decision of the code from a rule on; \<open>dp\<close> is the domain prefix of the emitter.\<close>

definition rule_prefix :: "bool \<Rightarrow> kernel_rule \<Rightarrow> bool" where
  "rule_prefix dp rule \<longleftrightarrow> dp \<or> list_ex (\<lambda>(_, c). is_domain_predicate (kc_predicate c)) (runtime_conditions rule)"

fun route_from ::
  "routing_push_plan \<Rightarrow> (fact_kind \<Rightarrow> u8 list option) \<Rightarrow> routing_input \<Rightarrow> bool \<Rightarrow> bool \<Rightarrow> kernel_rule list \<Rightarrow> routing_decision"
where
  "route_from plan V ri final dp [] = action_decision (rp_fallback plan) None
     (final \<or> ((domain_reroute plan \<and> \<not> dp) \<and> direct_finality ri (rp_fallback plan)))"
| "route_from plan V ri final dp (rule # rules) =
     (if folded_false rule then route_from plan V ri final dp rules
      else if \<forall>(_, c) \<in> set (runtime_conditions rule). condition_holds V ri c
      then action_decision (kr_action rule) (Some (kr_id rule))
        (final \<or> ((domain_reroute plan \<and> \<not> rule_prefix dp rule) \<and> direct_finality ri (kr_action rule)))
      else route_from plan V ri final (rule_prefix dp rule) rules)"

lemma finishes_rule:
  assumes g: "guards maps X T V (rp_has_domain_rules plan) c l ic"
    and d: "finishes maps (entry X T V plan final) T d ia"
    and e: "\<not> c \<Longrightarrow> finishes maps (entry X T V plan final) T d' ie"
    and l: "l \<notin> set (binds ia)"
  shows "finishes maps (entry X T V plan final) T (if c then d else d') (ic @ ia @ Bind l # ie)"
  unfolding finishes_def
proof (intro allI impI)
  fix K m assume a: "entry X T V plan final m"
  then have i: "inv X T V (rp_has_domain_rules plan) m" by (simp add: entry_def)
  from g[unfolded guards_def] i obtain m1 where m1: "inv X T V (rp_has_domain_rules plan) m1" "same T m m1"
    "run_items maps (ic @ ia @ Bind l # ie @ K) m
     = run_items maps (if c then ia @ Bind l # ie @ K else find_label l (ia @ Bind l # ie @ K)) m1" by blast
  have a1: "entry X T V plan final m1" using entry_same[OF m1(1,2) a] .
  have s: "m_input m1 = m_input m" "length (m_output m1) = length (m_output m)"
    using i m1(1) by (simp_all add: inv_def frame_ok_def)
  show "\<exists>m'. ended T (if c then d else d') m m' \<and> run_items maps ((ic @ ia @ Bind l # ie) @ K) m = Some (0, m')"
  proof (cases c)
    case True
    from d a1 obtain m2 where "ended T d m1 m2" "run_items maps (ia @ Bind l # ie @ K) m1 = Some (0, m2)"
      unfolding finishes_def by blast
    with True m1 ended_same[OF m1(2) s] show ?thesis by auto
  next
    case False
    from e[OF False] a1 obtain m2 where "ended T d' m1 m2" "run_items maps (ie @ K) m1 = Some (0, m2)"
      unfolding finishes_def by blast
    with False m1 ended_same[OF m1(2) s] l show ?thesis by (auto simp: find_label_append)
  qed
qed

lemma finishes_guarded:
  assumes g: "guards maps X T V (rp_has_domain_rules plan) True l ic"
    and d: "finishes maps (entry X T V plan final) T d ia"
  shows "finishes maps (entry X T V plan final) T d (ic @ ia)"
  unfolding finishes_def
proof (intro allI impI)
  fix K m assume a: "entry X T V plan final m"
  then have i: "inv X T V (rp_has_domain_rules plan) m" by (simp add: entry_def)
  from g[unfolded guards_def] i obtain m1 where m1: "inv X T V (rp_has_domain_rules plan) m1" "same T m m1"
    "run_items maps (ic @ ia @ K) m = run_items maps (ia @ K) m1" by auto
  have s: "m_input m1 = m_input m" "length (m_output m1) = length (m_output m)"
    using i m1(1) by (simp_all add: inv_def frame_ok_def)
  from d entry_same[OF m1(1,2) a] obtain m2 where "ended T d m1 m2" "run_items maps (ia @ K) m1 = Some (0, m2)"
    unfolding finishes_def by blast
  with m1 ended_same[OF m1(2) s] show "\<exists>m'. ended T d m m' \<and> run_items maps ((ic @ ia) @ K) m = Some (0, m')" by auto
qed

text \<open>What the emitter assumes of the rules of a plan.\<close>

definition rule_valid :: "routing_push_plan \<Rightarrow> kernel_rule \<Rightarrow> bool" where
  "rule_valid plan rule \<longleftrightarrow>
     list_all (\<lambda>c. predicate_valid (rp_domain_predicate_count plan) (kc_predicate c)) (kr_conditions rule)"

lemma image_filter_snd: "snd ` {x \<in> A. P (snd x)} = {c \<in> snd ` A. P c}"
  by auto

lemma runtime_set:
  "snd ` set (runtime_conditions rule) = {c \<in> set (kr_conditions rule). \<not> predicate_is_empty (kc_predicate c)}"
proof -
  let ?E = "enumerate 0 (kr_conditions rule)"
  have k: "set (kr_conditions rule) = snd ` set ?E"
    by (subst map_snd_enumerate[of 0, symmetric]) (rule list.set_map)
  have r: "set (runtime_conditions rule) = {x \<in> set ?E. \<not> predicate_is_empty (kc_predicate (snd x))}"
    unfolding runtime_conditions_def Let_def case_prod_beta set_append set_filter by blast
  show ?thesis unfolding k r by (rule image_filter_snd)
qed

lemma runtime_all: "(\<forall>(_, c) \<in> set (runtime_conditions rule). P c)
    \<longleftrightarrow> (\<forall>c \<in> set (kr_conditions rule). \<not> predicate_is_empty (kc_predicate c) \<longrightarrow> P c)"
proof -
  have "(\<forall>(_, c) \<in> set (runtime_conditions rule). P c) \<longleftrightarrow> (\<forall>c \<in> snd ` set (runtime_conditions rule). P c)"
    by (auto simp: case_prod_beta)
  then show ?thesis unfolding runtime_set by auto
qed

lemma runtime_valid:
  assumes "rule_valid plan rule" "rp_has_domain_rules plan = (rp_domain_predicate_count plan \<noteq> 0)"
  shows "\<forall>(_, c) \<in> set (runtime_conditions rule). predicate_valid (rp_domain_predicate_count plan) (kc_predicate c)
    \<and> (is_domain_predicate (kc_predicate c) \<longrightarrow> rp_has_domain_rules plan)"
proof -
  have "rp_has_domain_rules plan"
    if "predicate_valid (rp_domain_predicate_count plan) p" "is_domain_predicate p" for p
    using that assms(2) by (cases p) (auto simp: is_domain_predicate_def)
  then show ?thesis using assms(1) unfolding runtime_all rule_valid_def list_all_iff by blast
qed

lemma spec_rules_code:
  assumes i: "input_ok ri" "X = input_bytes ri"
    and p: "rp_domain_predicate_count plan \<le> 256" "rp_has_domain_rules plan = (rp_domain_predicate_count plan \<noteq> 0)"
  shows "list_all (rule_valid plan) rules \<Longrightarrow> spec (emit_rules plan fds slot dp rules) T n (\<lambda>is n'. scoped is n n' \<and>
    (\<forall>maps. maps_ok maps fds \<longrightarrow> finishes maps (entry X T (fact_value maps fds ri) plan final) T
       (route_from plan (fact_value maps fds ri) ri final dp rules) is))"
proof (induction rules arbitrary: slot dp n)
  case Nil
  show ?case
    unfolding emit_rules.simps route_from.simps
    by (rule spec_Cons, rule spec_source, rule spec_mono[OF spec_decide[OF i, where final = final]]) auto
next
  case (Cons rule rules)
  let ?V = "\<lambda>maps. fact_value maps fds ri"
  let ?cs = "runtime_conditions rule" and ?dp = "rule_prefix dp rule"
  have rules: "list_all (rule_valid plan) rules" and rule: "rule_valid plan rule" using Cons.prems by simp_all
  note valid = runtime_valid[OF rule p(2)]
  show ?case
  proof (cases "folded_false rule")
    case True
    then show ?thesis using Cons.IH[OF rules] by (simp add: Let_def)
  next
    case live: False
    let ?c = "\<lambda>maps. \<forall>(_, c) \<in> set ?cs. condition_holds (?V maps) ri c"
    let ?d = "action_decision (kr_action rule) (Some (kr_id rule))
        (final \<or> ((domain_reroute plan \<and> \<not> ?dp) \<and> direct_finality ri (kr_action rule)))"
    let ?E = "\<lambda>maps. finishes maps (entry X T (?V maps) plan final) T"
    let ?e = "\<lambda>maps. route_from plan (?V maps) ri final ?dp rules"
    have r: "route_from plan (?V maps) ri final dp (rule # rules) = (if ?c maps then ?d else ?e maps)" for maps
      using live by simp
    have conds: "spec (emit_conditions plan fds n slot 0 ?cs) T (Suc n) (\<lambda>is n'. scoped is (Suc n) n' \<and>
      (\<forall>maps. maps_ok maps fds \<longrightarrow> guards maps X T (?V maps) (rp_has_domain_rules plan) (?c maps) n is))"
      by (rule spec_conditions[OF i _ p(1) valid]) simp
    have act: "spec (seq [emit_trace_outcome slot ROUTE_TRACE_MATCHED,
        emit_action (kr_action rule) (Some (kr_id rule)) (domain_reroute plan \<and> \<not> ?dp), emit_return]) T k
        (\<lambda>is n'. scoped is k n' \<and> (\<forall>maps V. finishes maps (entry X T V plan final) T ?d is))" for k
      by (rule spec_decide[OF i]) simp
    have tail: "spec (seq [if ?cs = [] then seq [] else seq [bind_label n, emit_trace_outcome slot ROUTE_TRACE_NOT_MATCHED,
        emit_rules plan fds (slot + 1 + length (kr_conditions rule)) ?dp rules]]) T k
      (\<lambda>is k'. k \<le> k' \<and> (?cs = [] \<and> is = [] \<or> (\<exists>ie. is = Bind n # ie \<and> scoped ie k k' \<and> (\<forall>maps. maps_ok maps fds \<longrightarrow> ?E maps (?e maps) ie))))"
      if "n < k" for k
    proof (cases "?cs = []")
      case True
      then show ?thesis by simp (intro spec_rules, simp)
    next
      case False
      show ?thesis
        unfolding if_not_P[OF False]
      proof (rule spec_Cons, rule spec_Cons, rule spec_bind[OF that], rule spec_Cons,
          rule spec_mono[OF neutralD[OF neutral_trace_outcome[where X = X]]],
          rule spec_Cons, rule spec_mono[OF Cons.IH[OF rules]], rule spec_Nil, rule spec_Nil, goal_cases)
        case (1 it k1 ir k2)
        then have "?E maps (?e maps) (it @ ir)" if "maps_ok maps fds" for maps using that finishes_trace by blast
        moreover have "scoped (it @ ir) k k2" using 1 by (blast intro: scoped_append)
        ultimately show ?case by (simp add: scoped_def)
      qed
    qed
    have split: "seq [a, b, c, d, e] = (\<lambda>x. case a x of Inl err \<Rightarrow> Inl err | Inr y \<Rightarrow>
        (case seq [b, c, d] y of Inl err \<Rightarrow> Inl err | Inr z \<Rightarrow> seq [e] z))" for a b c d e :: emitter
      by (rule ext) (simp split: sum.split)
    show ?thesis
      unfolding emit_rules.simps Let_def if_not_P[OF live] rule_prefix_def[symmetric] r
    proof (rule spec_Cons, rule spec_source, rule spec_Cons, rule spec_with_label, rule spec_then[OF _ fun_cong[OF split]],
        rule spec_mono[OF conds], rule spec_then[OF _ refl], rule spec_mono[OF act], rule spec_mono[OF tail])
      fix ic k ia k1 ie k2
      assume c: "scoped ic (Suc n) k \<and> (\<forall>maps. maps_ok maps fds \<longrightarrow> guards maps X T (?V maps) (rp_has_domain_rules plan) (?c maps) n ic)"
        and d: "scoped ia k k1 \<and> (\<forall>maps V. finishes maps (entry X T V plan final) T ?d ia)"
      show "n < k1" using c d by (simp add: scoped_def)
    next
      fix ic k ia k1 "is" k2
      assume c: "scoped ic (Suc n) k \<and> (\<forall>maps. maps_ok maps fds \<longrightarrow> guards maps X T (?V maps) (rp_has_domain_rules plan) (?c maps) n ic)"
        and d: "scoped ia k k1 \<and> (\<forall>maps V. finishes maps (entry X T V plan final) T ?d ia)"
        and e: "k1 \<le> k2 \<and> (?cs = [] \<and> is = [] \<or> (\<exists>ie. is = Bind n # ie \<and> scoped ie k1 k2 \<and> (\<forall>maps. maps_ok maps fds \<longrightarrow> ?E maps (?e maps) ie)))"
      have n: "n \<notin> set (binds ia)" using c d by (auto simp: scoped_def)
      from e consider (always) "?cs = []" "is = []" | (tests) ie where "is = Bind n # ie" "scoped ie k1 k2"
        "\<forall>maps. maps_ok maps fds \<longrightarrow> ?E maps (?e maps) ie" by blast
      then have "scoped (ic @ ia @ is) n k2 \<and>
          (\<forall>maps. maps_ok maps fds \<longrightarrow> ?E maps (if ?c maps then ?d else ?e maps) (ic @ ia @ is))"
      proof cases
        case always
        have "?E maps ?d (ic @ ia)" if "maps_ok maps fds" for maps
          using finishes_guarded[of maps X T "?V maps" plan n ic final ?d ia] c d that always by simp
        moreover have "scoped (ic @ ia) n k2" using c d e always by (fastforce simp: scoped_def)
        ultimately show ?thesis using always by simp
      next
        case tests
        have "?E maps (if ?c maps then ?d else ?e maps) (ic @ ia @ Bind n # ie)" if "maps_ok maps fds" for maps
          by (rule finishes_rule[OF _ _ _ n]) (use c d tests that in blast)+
        moreover have "scoped (ic @ ia @ Bind n # ie) n k2"
        proof (rule scoped_perm)
          show "labels_ok (n # binds ic @ binds ia @ binds ie @ []) n k2"
            using c d tests by (intro labels_rules) (auto intro: labels_rules)
        qed simp
        ultimately show ?thesis using tests by simp
      qed
      then show "spec (seq []) T k2 (\<lambda>is' k'. scoped ([] @ (ic @ ia @ is) @ is') n k' \<and>
          (\<forall>maps. maps_ok maps fds \<longrightarrow> ?E maps (if ?c maps then ?d else ?e maps) ([] @ (ic @ ia @ is) @ is')))"
        by (intro spec_rules) simp
    qed
  qed
qed

section \<open>The reference\<close>

lemma empty_predicate: "predicate_is_empty p \<Longrightarrow> \<not> eval_predicate V ri p"
  by (cases p) auto

lemma runtime_matches:
  assumes "\<not> folded_false rule"
  shows "(\<forall>(_, c) \<in> set (runtime_conditions rule). condition_holds V ri c) \<longleftrightarrow> rule_matches V ri rule"
proof -
  have "condition_holds V ri c" if "c \<in> set (kr_conditions rule)" "predicate_is_empty (kc_predicate c)" for c
    using that assms empty_predicate[of "kc_predicate c" V ri] by (auto simp: folded_false_def list_ex_iff condition_holds_def)
  then show ?thesis
    using assms unfolding runtime_all rule_matches_def list_all_iff folded_false_def by blast
qed

lemma folded_matches: "folded_false rule \<Longrightarrow> \<not> rule_matches V ri rule"
  using empty_predicate[of _ V ri]
  by (auto simp: folded_false_def rule_matches_def list_ex_iff list_all_iff condition_holds_def)

lemma rule_prefix_tests: "\<not> folded_false rule \<Longrightarrow> rule_prefix dp rule \<longleftrightarrow> dp \<or> tests_domain rule"
proof -
  have "(\<exists>(_, c) \<in> set (runtime_conditions rule). is_domain_predicate (kc_predicate c))
      \<longleftrightarrow> (\<exists>c \<in> set (kr_conditions rule). is_domain_predicate (kc_predicate c))"
  proof -
    have "\<not> predicate_is_empty p" if "is_domain_predicate p" for p
      using that by (cases p) (simp_all add: is_domain_predicate_def)
    moreover have "(\<exists>(_, c) \<in> set (runtime_conditions rule). is_domain_predicate (kc_predicate c))
        \<longleftrightarrow> \<not> (\<forall>(_, c) \<in> set (runtime_conditions rule). \<not> is_domain_predicate (kc_predicate c))" by auto
    ultimately show ?thesis unfolding runtime_all by blast
  qed
  then show "\<not> folded_false rule \<Longrightarrow> rule_prefix dp rule \<longleftrightarrow> dp \<or> tests_domain rule"
    unfolding rule_prefix_def tests_domain_def list_ex_iff by blast
qed

lemma route_from_step:
  "route_from plan V ri final dp (rule # rules) =
     (if rule_matches V ri rule
      then action_decision (kr_action rule) (Some (kr_id rule))
        (final \<or> ((domain_reroute plan \<and> \<not> (dp \<or> tests_domain rule)) \<and> direct_finality ri (kr_action rule)))
      else route_from plan V ri final (dp \<or> tests_domain rule) rules)"
proof (cases "folded_false rule")
  case True
  then show ?thesis using folded_matches[OF True, of V ri] by (simp add: tests_domain_def)
next
  case False
  then show ?thesis
    unfolding route_from.simps runtime_matches[OF False] rule_prefix_tests[OF False] by simp
qed

lemma route_from_first:
  "route_from plan V ri final dp rules =
     (let missed = takeWhile (\<lambda>rule. \<not> rule_matches V ri rule) rules;
          (action, rule_id, tested) =
            (case dropWhile (\<lambda>rule. \<not> rule_matches V ri rule) rules of
               [] \<Rightarrow> (rp_fallback plan, None, missed)
             | rule # _ \<Rightarrow> (kr_action rule, Some (kr_id rule), missed @ [rule]))
      in action_decision action rule_id
           (final \<or> ((domain_reroute plan \<and> \<not> (dp \<or> list_ex tests_domain tested)) \<and> direct_finality ri action)))"
proof (induction rules arbitrary: dp)
  case (Cons rule rules)
  show ?case
    unfolding route_from_step Cons.IH Let_def
    by (cases "rule_matches V ri rule") (simp_all del: dropWhile_eq_Nil_conv split: list.split)
qed simp

lemma route_from_plan:
  assumes "domain_reroute plan \<Longrightarrow> rp_has_domain_rules plan"
  shows "route_from plan V ri (\<not> domain_reroute plan \<or> rp_has_domain_rules plan \<and> V FactDomain \<noteq> None) False (rp_rules plan)
    = plan_route plan V ri"
  unfolding route_from_first plan_route_def Let_def using assms
  by (cases "domain_reroute plan") (simp_all split: list.split)

section \<open>Prologue\<close>

text \<open>\<open>filled\<close>: only the stack and the caller-saved registers change.\<close>

definition filled :: "machine \<Rightarrow> machine \<Rightarrow> bool" where
  "filled m m' \<longleftrightarrow>
     m_input m' = m_input m \<and> m_output m' = m_output m \<and> length (m_stack m') = length (m_stack m)
     \<and> (\<forall>r \<ge> 6. m_regs m' r = m_regs m r)"

definition filler :: "u8 list \<Rightarrow> emitter \<Rightarrow> bool" where
  "filler X e \<longleftrightarrow>
     (\<forall>T n. spec e T n (\<lambda>is n'. n' = n \<and> binds is = [] \<and> (\<forall>maps. falls maps (frame_ok X None) filled is)))"

lemma filler_seq: "list_all (filler X) es \<Longrightarrow> filler X (seq es)"
proof (induction es)
  case Nil
  show ?case
    unfolding filler_def by (intro allI spec_rules) (fastforce simp: falls_def filled_def)
next
  case (Cons e es)
  then have e: "filler X e" and es: "filler X (seq es)" by simp_all
  show ?case
    unfolding filler_def
  proof (intro allI, rule spec_Cons, rule spec_mono[OF e[unfolded filler_def, rule_format]],
      rule spec_mono[OF es[unfolded filler_def, rule_format]], goal_cases)
    case (1 T n "is" k is' k')
    have "falls maps (frame_ok X None) filled (is @ is')" for maps
      by (rule falls_append[where B = "frame_ok X None" and R = filled and S = filled])
        (use 1 in \<open>auto simp: filled_def frame_ok_def\<close>)
    with 1 show ?case by simp
  qed
qed

lemma filler_word:
  assumes "kind \<noteq> FactDomain" "w < 4"
  shows "filler X (seq [ldx_w R1 R7 MARK, stx_dw R10 R1 (fact_area kind + int w * 8)])"
  unfolding filler_def
proof (intro allI spec_rules conjI)
  fix maps :: bpf_maps
  let ?p = "area_pos kind + w * 8"
  have b: "384 \<le> area_pos kind" "area_pos kind \<le> 480" using area_pos_bounds .
  have p: "nat (512 + (fact_area kind + int w * 8)) = ?p" by (simp add: fact_area_pos)
  show "falls maps (frame_ok X None) filled
      ([Ins (mk 0x61 R1 R7 MARK 0)] @ [Ins (mk 0x7b R10 R1 (fact_area kind + int w * 8) 0)] @ [])"
    unfolding falls_def
  proof (intro allI impI)
    fix K m assume f: "frame_ok X None m"
    let ?w = "le_word (segment 4 4 (m_output m))"
    let ?m = "st_upd ?p (le_bytes 8 ?w) (set_reg 1 (Scalar ?w) m)"
    have "filled m ?m" using f b assms(2) by (simp add: filled_def frame_ok_def)
    moreover have "run_items maps (([Ins (mk 0x61 R1 R7 MARK 0)] @ [Ins (mk 0x7b R10 R1 (fact_area kind + int w * 8) 0)] @ []) @ K) m
        = run_items maps K ?m"
      using f b assms(2) p by (simp add: run_insn registers frame_ok_def rust_consts fact_area_pos)
    ultimately show "\<exists>m'. filled m m' \<and> run_items maps (([Ins (mk 0x61 R1 R7 MARK 0)] @
        [Ins (mk 0x7b R10 R1 (fact_area kind + int w * 8) 0)] @ []) @ K) m = run_items maps K m'" by blast
  qed
qed simp_all

lemma filler_areas:
  "filler X (seq (map (\<lambda>kind. seq (map (\<lambda>w. seq [ldx_w R1 R7 MARK, stx_dw R10 R1 (fact_area kind + int w * 8)])
     [0..<nat (FACT_BYTES div 8)])) [FactDestination, FactSource, FactMac]))"
proof -
  have "filler X (seq (map (\<lambda>w. seq [ldx_w R1 R7 MARK, stx_dw R10 R1 (fact_area kind + int w * 8)])
     [0..<nat (FACT_BYTES div 8)]))" if "kind \<noteq> FactDomain" for kind
    by (rule filler_seq) (use filler_word[OF that] in \<open>simp add: list_all_iff FACT_BYTES_def\<close>)
  then show ?thesis by (intro filler_seq) simp
qed

text \<open>The trace is set up: from here on the flag register holds a number.\<close>

definition set_up :: "u8 list \<Rightarrow> trace_layout option \<Rightarrow> machine \<Rightarrow> machine \<Rightarrow> bool" where
  "set_up X T m m' \<longleftrightarrow>
     frame_ok X T m' \<and> m_regs m' 8 = m_regs m 8 \<and> read_decision (m_output m') = read_decision (m_output m)
     \<and> (T = None \<longrightarrow> m_output m' = m_output m)"

lemma spec_trace_init:
  "spec emit_trace_init T n (\<lambda>is n'. scoped is n n' \<and> (\<forall>maps. falls maps (frame_ok X None) (set_up X T) is))"
  unfolding emit_trace_init_def[abs_def]
proof (rule spec_trace_if)
  assume "T = None"
  then show "scoped [] n n \<and> (\<forall>maps. falls maps (frame_ok X None) (set_up X T) [])"
    by (fastforce simp: scoped_def falls_def set_up_def)
next
  assume t: "T \<noteq> None"
  let ?es = "[st_imm R7 TRACE_FLAGS (ROUTE_TRACE_VERSION OR ROUTE_TRACE_ENABLED), st_imm R7 TRACE_FACT_STATE 0,
     seq (map (\<lambda>w. st_imm R7 (TRACE_OUTCOMES + int (w * 4)) 0) [0..<ROUTE_TRACE_WORDS]),
     seq (map (\<lambda>w. st_imm R7 (TRACE_DOMAIN + int w * 4) 0) [0..<nat (FACT_BYTES div 4)]),
     seq (map (\<lambda>w. seq [ldx_w R1 R6 (int (w * 4)), stx_w R7 R1 (TRACE_INPUT + int (w * 4))]) [0..<32])]"
  have "list_all (neutral X T) ?es"
    using neutral_store[OF t] neutral_copy_input[OF t]
    by (auto simp: rust_consts list_all_iff intro!: neutral_seq)
  note guard = spec_guard[OF t neutral_seq[OF this], of n, unfolded append_Cons append_Nil]
  show "spec (with_label (\<lambda>disabled. seq [ldx_w R9 R7 TRACE_FLAGS, and_imm R9 ROUTE_TRACE_ENABLED,
      jump BPF_JEQ R9 0 disabled, st_imm R7 TRACE_FLAGS (ROUTE_TRACE_VERSION OR ROUTE_TRACE_ENABLED), st_imm R7 TRACE_FACT_STATE 0,
      seq (map (\<lambda>w. st_imm R7 (TRACE_OUTCOMES + int (w * 4)) 0) [0..<ROUTE_TRACE_WORDS]),
      seq (map (\<lambda>w. st_imm R7 (TRACE_DOMAIN + int w * 4) 0) [0..<nat (FACT_BYTES div 4)]),
      seq (map (\<lambda>w. seq [ldx_w R1 R6 (int (w * 4)), stx_w R7 R1 (TRACE_INPUT + int (w * 4))]) [0..<32]),
      bind_label disabled])) T n (\<lambda>is n'. scoped is n n' \<and> (\<forall>maps. falls maps (frame_ok X None) (set_up X T) is))"
  proof (rule spec_with_label, rule spec_Cons, rule spec_ldx_w, rule spec_Cons, rule spec_and_imm, rule spec_mono[OF guard])
    fix "is" k assume g: "scoped is n k \<and> (\<forall>maps. falls maps (frame_ok X T) (quiet T) is)"
    let ?is = "[Ins (mk 0x61 R9 R7 TRACE_FLAGS 0)] @ [Ins (mk 0x57 R9 0 0 ROUTE_TRACE_ENABLED)]"
    have "falls maps (frame_ok X None) (\<lambda>m m'. frame_ok X T m' \<and> m_regs m' 8 = m_regs m 8 \<and> m_output m' = m_output m) ?is" for maps
      unfolding falls_def
    proof (intro allI impI)
      fix K m assume f: "frame_ok X None m"
      let ?w = "le_word (segment 24 4 (m_output m))"
      let ?m = "set_reg 9 (Scalar (?w AND imm64 1)) (set_reg 9 (Scalar ?w) m)"
      have "run_items maps (?is @ K) m = run_items maps K ?m"
        using f by (simp add: run_insn registers frame_ok_def rust_consts)
      moreover have "frame_ok X T ?m \<and> m_regs ?m 8 = m_regs m 8 \<and> m_output ?m = m_output m"
        using f by (simp add: frame_ok_def)
      ultimately show "\<exists>m'. (frame_ok X T m' \<and> m_regs m' 8 = m_regs m 8 \<and> m_output m' = m_output m) \<and>
          run_items maps (?is @ K) m = run_items maps K m'" by blast
    qed
    moreover have "falls maps (frame_ok X T) (quiet T) is" for maps using g by blast
    ultimately have "falls maps (frame_ok X None) (set_up X T) (?is @ is)" for maps
      by (rule falls_append) (auto simp: set_up_def quiet_def frame_ok_def)
    moreover have "scoped (?is @ is) n k" using g by (simp add: scoped_def)
    ultimately show "scoped ([Ins (mk 0x61 R9 R7 TRACE_FLAGS 0)] @ [Ins (mk 0x57 R9 0 0 ROUTE_TRACE_ENABLED)] @ is) n k \<and>
      (\<forall>maps. falls maps (frame_ok X None) (set_up X T) ([Ins (mk 0x61 R9 R7 TRACE_FLAGS 0)] @ [Ins (mk 0x57 R9 0 0 ROUTE_TRACE_ENABLED)] @ is))"
      by simp
  qed
qed

text \<open>The two null checks, and the decision before any rule.\<close>

definition called :: "u8 list \<Rightarrow> machine \<Rightarrow> bool" where
  "called X m \<longleftrightarrow>
     m_input m = X \<and> length X = 128 \<and> length (m_stack m) = 512 \<and> length (m_output m) = 272
     \<and> m_regs m 1 = Pointer InputR 0 \<and> m_regs m 2 = Pointer OutputR 0 \<and> m_regs m 10 = Pointer StackR 512"

lemma falls_stores:
  "list_all (\<lambda>(off, v). off \<in> {OUTBOUND, MARK, MUST, DOMAIN_FINAL, RULE_ID, DIRECT_MARK_INDEX}) xs \<Longrightarrow>
   falls maps (frame_ok X T) (sets T (fold (\<lambda>(off, v). store off v) xs)) (map (\<lambda>(off, v). Ins (mk 0x62 R7 0 off v)) xs)"
proof (induction xs)
  case Nil
  show ?case using sets_id unfolding falls_def by (fastforce simp: id_def)
next
  case (Cons x xs)
  obtain off v where x: "x = (off, v)" by (cases x)
  have "falls maps (frame_ok X T) (sets T (fold (\<lambda>(off, v). store off v) xs \<circ> store off v))
      ([Ins (mk 0x62 R7 0 off v)] @ map (\<lambda>(off, v). Ins (mk 0x62 R7 0 off v)) xs)"
    by (rule falls_append[OF falls_store Cons.IH]) (use Cons.prems x in \<open>auto intro: frame_ok_sets sets_trans\<close>)
  then show ?case unfolding x by (simp add: comp_def)
qed

definition base_stores :: "routing_push_plan \<Rightarrow> (int \<times> u32) list" where
  "base_stores plan =
     [(DIRECT_MARK_INDEX, - 1), (OUTBOUND, as_u32 (ka_outbound (rp_fallback plan))), (MARK, 0), (MUST, 0),
      (DOMAIN_FINAL, if \<not> rp_has_domain_rules plan \<or> \<not> domain_reroute plan then 1 else 0), (RULE_ID, - 1)]"

definition head_items :: "routing_push_plan \<Rightarrow> nat \<Rightarrow> item list" where
  "head_items plan n =
     [Jump (mk 0x55 R1 0 0 0) n, Ins (mk 0xb7 R0 0 0 (- 14)), Ins (mk 0x95 0 0 0 0), Bind n,
      Jump (mk 0x55 R2 0 0 0) (Suc n), Ins (mk 0xb7 R0 0 0 (- 14)), Ins (mk 0x95 0 0 0 0), Bind (Suc n),
      Ins (mk 0xbf R6 R1 0 0), Ins (mk 0xbf R7 R2 0 0)]
     @ map (\<lambda>(off, v). Ins (mk 0x62 R7 0 off v)) (base_stores plan) @ [Ins (mk 0x61 READY R7 MARK 0)]"

definition based :: "u8 list \<Rightarrow> routing_push_plan \<Rightarrow> machine \<Rightarrow> machine \<Rightarrow> bool" where
  "based X plan m m' \<longleftrightarrow>
     frame_ok X None m' \<and> m_regs m' 8 = Scalar 0 \<and> drop 24 (m_output m') = drop 24 (m_output m)
     \<and> read_decision (m_output m') = base_decision plan (\<not> rp_has_domain_rules plan \<or> \<not> domain_reroute plan)"

lemma fold_base_stores:
  "fold (\<lambda>(off, v). store off v) (base_stores plan) d
   = base_decision plan (\<not> rp_has_domain_rules plan \<or> \<not> domain_reroute plan)"
  by (cases d) (simp add: base_stores_def base_decision_def store_def rust_consts)

lemma head_runs: "falls maps (called X) (based X plan) (head_items plan n)"
  unfolding falls_def
proof (intro allI impI)
  fix K m assume c: "called X m"
  let ?d = "base_decision plan (\<not> rp_has_domain_rules plan \<or> \<not> domain_reroute plan)"
  let ?m = "set_reg 7 (Pointer OutputR 0) (set_reg 6 (Pointer InputR 0) m)"
  let ?S = "map (\<lambda>(off, v). Ins (mk 0x62 R7 0 off v)) (base_stores plan)"
  let ?L = "Ins (mk 0x61 READY R7 MARK 0)"
  have f: "frame_ok X None ?m" using c by (simp add: called_def frame_ok_def)
  have r: "run_items maps (head_items plan n @ K) m = run_items maps (?S @ ?L # K) ?m"
    using c by (simp add: head_items_def called_def run_insn registers)
  have "list_all (\<lambda>(off, v). off \<in> {OUTBOUND, MARK, MUST, DOMAIN_FINAL, RULE_ID, DIRECT_MARK_INDEX}) (base_stores plan)"
    by (simp add: base_stores_def)
  from fallsD[OF falls_stores[OF this] f, of maps "?L # K"] obtain m1 where
    m1: "sets None (fold (\<lambda>(off, v). store off v) (base_stores plan)) ?m m1"
      "run_items maps (?S @ ?L # K) ?m = run_items maps (?L # K) m1" by blast
  have f1: "frame_ok X None m1" using frame_ok_sets[OF m1(1) f] .
  have d: "read_decision (m_output m1) = ?d" using m1(1) unfolding sets_def fold_base_stores by simp
  then have "fld 4 (m_output m1) = 0"
    by (metis base_decision_def read_decision_def read32_fld routing_decision.select_convs(2))
  then have z: "le_word (segment 4 4 (m_output m1)) = 0"
    using le_word_fld[of 4 "m_output m1"] f1 by (simp add: frame_ok_def)
  let ?m' = "set_reg 8 (Scalar 0) m1"
  have "run_items maps (?L # K) m1 = run_items maps K ?m'"
    using f1 z by (simp add: run_insn registers frame_ok_def rust_consts READY_def)
  moreover have "based X plan m ?m'"
    using f1 d m1(1) by (auto simp: based_def frame_ok_def sets_def)
  ultimately show "\<exists>m'. based X plan m m' \<and> run_items maps (head_items plan n @ K) m = run_items maps K m'"
    using r m1(2) by auto
qed

definition head :: "routing_push_plan \<Rightarrow> emitter list" where
  "head plan =
     [source 0 ''routing function prologue'',
      seq (map (\<lambda>register. with_label (\<lambda>nonnull. seq
             [jump BPF_JNE register 0 nonnull, mov_imm R0 (- 14), exit_insn, bind_label nonnull])) [R1, R2]),
      mov_reg R6 R1, mov_reg R7 R2,
      st_imm R7 DIRECT_MARK_INDEX (- 1),
      st_imm R7 OUTBOUND (as_u32 (ka_outbound (rp_fallback plan))),
      st_imm R7 MARK 0, st_imm R7 MUST 0,
      st_imm R7 DOMAIN_FINAL (if \<not> rp_has_domain_rules plan \<or> \<not> domain_reroute plan then 1 else 0),
      st_imm R7 RULE_ID (- 1),
      ldx_w READY R7 MARK]"

lemma emit_prologue_split:
  "emit_prologue plan fds = seq (head plan @
     [seq (map (\<lambda>kind. seq (map (\<lambda>w. seq [ldx_w R1 R7 MARK, stx_dw R10 R1 (fact_area kind + int w * 8)])
        [0..<nat (FACT_BYTES div 8)])) [FactDestination, FactSource, FactMac]),
      emit_trace_init,
      (if rp_has_domain_rules plan then emit_fact_lookup FactDomain fds else seq [])])"
  unfolding emit_prologue_def head_def append_Cons append_Nil ..

lemma spec_head: "spec (seq (head plan)) T n (\<lambda>is k. is = head_items plan n \<and> k = Suc (Suc n))"
  unfolding head_def list.map head_items_def base_stores_def by (intro spec_rules) simp_all

lemma binds_stores: "binds (map (\<lambda>(off, v). Ins (mk 0x62 R7 0 off v)) xs) = []"
  by (induction xs) auto

lemma falls_pre: "falls maps A R is \<Longrightarrow> falls maps (\<lambda>m. A m \<and> B m) (\<lambda>m m'. R m m' \<and> B m) is"
  unfolding falls_def by blast

lemma spec_prologue:
  assumes i: "input_ok ri" "X = input_bytes ri"
    and r: "domain_reroute plan \<Longrightarrow> rp_has_domain_rules plan"
  shows "spec (emit_prologue plan fds) T n (\<lambda>is n'. scoped is n n' \<and> (\<exists>is'. is = head_items plan n @ is') \<and>
    (maps_ok maps fds \<longrightarrow> falls maps (called X) (\<lambda>m m'. entry X T (fact_value maps fds ri) plan
        (\<not> domain_reroute plan \<or> rp_has_domain_rules plan \<and> fact_value maps fds ri FactDomain \<noteq> None) m'
      \<and> (T = None \<longrightarrow> drop 24 (m_output m') = drop 24 (m_output m))) is))"
proof -
  let ?V = "fact_value maps fds ri"
  let ?f = "\<not> domain_reroute plan \<or> rp_has_domain_rules plan \<and> ?V FactDomain \<noteq> None"
  let ?R = "\<lambda>m m'. entry X T ?V plan ?f m' \<and> (T = None \<longrightarrow> drop 24 (m_output m') = drop 24 (m_output m))"
  let ?A = "\<lambda>m. frame_ok X T m \<and> m_regs m 8 = Scalar 0
    \<and> read_decision (m_output m) = base_decision plan (\<not> rp_has_domain_rules plan \<or> \<not> domain_reroute plan)"
  let ?B = "\<lambda>m. frame_ok X None m \<and> m_regs m 8 = Scalar 0
    \<and> read_decision (m_output m) = base_decision plan (\<not> rp_has_domain_rules plan \<or> \<not> domain_reroute plan)"
  let ?lookup = "if rp_has_domain_rules plan then emit_fact_lookup FactDomain fds else seq []"
  have lookup: "spec ?lookup T k (\<lambda>is k'. scoped is k k' \<and> (maps_ok maps fds \<longrightarrow> falls maps ?A ?R is))" for k
  proof (cases "rp_has_domain_rules plan")
    case True
    have "?R m m'" if "?A m" "resolved ?V T FactDomain m m'" for m m'
      using that True by (auto simp: entry_def inv_def ready_ok_def resolved_def frame_ok_def base_decision_def)
    then show ?thesis
      unfolding if_P[OF True]
      by (intro spec_mono[OF spec_fact_lookup[OF i]]) (unfold falls_def; blast)
  next
    case False
    then have "\<not> domain_reroute plan" using r by blast
    then have "?R m m" if "?A m" for m
      using that False by (auto simp: entry_def inv_def ready_ok_def)
    then have "falls maps ?A ?R []" unfolding falls_def by (metis append_Nil)
    then show ?thesis
      unfolding if_not_P[OF False] by (intro spec_rules) (simp add: scoped_def)
  qed
  have init: "spec (seq [emit_trace_init, ?lookup]) T k (\<lambda>is k'. scoped is k k' \<and>
      (maps_ok maps fds \<longrightarrow> falls maps ?B ?R is))" for k
  proof (rule spec_Cons, rule spec_mono[OF spec_trace_init[where X = X]], rule spec_Cons, rule spec_mono[OF lookup],
      rule spec_Nil, goal_cases)
    case (1 it k1 il k2)
    then have t: "falls maps (frame_ok X None) (set_up X T) it" by blast
    have "falls maps ?B ?R (it @ il)" if "falls maps ?A ?R il"
      by (rule falls_append[OF falls_pre[OF t] that]) (auto simp: set_up_def)
    with 1 scoped_append show ?case by auto
  qed
  show ?thesis
    unfolding emit_prologue_split
  proof (rule spec_append, rule spec_mono[OF spec_head], rule spec_Cons,
      rule spec_mono[OF filler_areas[where X = X, unfolded filler_def, rule_format]], rule spec_mono[OF init], goal_cases)
    case (1 ih k ia k1 "is" k2)
    then have h: "ih = head_items plan n" "k = Suc (Suc n)" "k1 = k" "binds ia = []" by blast+
    from 1 have a: "falls maps (frame_ok X None) filled ia" by blast
    have "falls maps (called X) (based X plan) (ih @ ia)"
      by (rule falls_append[OF head_runs[of maps X plan n, folded h(1)] a]) (auto simp: based_def filled_def frame_ok_def)
    then have "falls maps (called X) ?R ((ih @ ia) @ is)" if "falls maps ?B ?R is"
      by (rule falls_append[OF _ that]) (auto simp: based_def)
    moreover have "scoped (ih @ ia @ is) n k2"
      using 1 h by (auto simp: scoped_def head_items_def binds_append binds_stores)
    ultimately show ?case using h 1 by simp
  qed
qed

section \<open>The program\<close>

lemma program_items:
  assumes bc: "emit_routing_program plan fds = Inr bc" and i: "input_ok ri"
  shows "\<exists>a I I'. finish a = Inr bc \<and> view a = fold place I ([], [], \<lambda>_. None) \<and> distinct (binds I) \<and> I = head_items plan 0 @ I'
    \<and> (maps_ok maps fds \<longrightarrow> finishes maps (called (input_bytes ri)) (plan_trace_layout plan)
         (plan_route plan (fact_value maps fds ri) ri) I)"
proof -
  let ?X = "input_bytes ri" and ?T = "plan_trace_layout plan" and ?V = "fact_value maps fds ri"
  let ?f = "\<not> domain_reroute plan \<or> rp_has_domain_rules plan \<and> ?V FactDomain \<noteq> None"
  let ?a = "Assembler_new\<lparr>a_trace_layout := ?T\<rparr>"
  from bc obtain a where v: "validate_plan plan" and a: "finish a = Inr bc"
    "seq [emit_prologue plan fds, emit_rules plan fds 0 False (rp_rules plan)] ?a = Inr a"
    unfolding emit_routing_program_def by (auto split: if_splits sum.splits)
  have p: "rp_domain_predicate_count plan \<le> 256" "rp_has_domain_rules plan = (rp_domain_predicate_count plan \<noteq> 0)"
    "domain_reroute plan \<Longrightarrow> rp_has_domain_rules plan" "list_all (rule_valid plan) (rp_rules plan)"
    using v by (auto simp: validate_plan_def domain_reroute_def rule_valid_def[abs_def] list_all_iff ROUTING_FACT_CAPACITY_def)
  have "spec (seq [emit_prologue plan fds, emit_rules plan fds 0 False (rp_rules plan)]) ?T 0
    (\<lambda>I n. scoped I 0 n \<and> (\<exists>I'. I = head_items plan 0 @ I') \<and>
       (maps_ok maps fds \<longrightarrow> finishes maps (called ?X) ?T (plan_route plan ?V ri) I))"
  proof (rule spec_Cons, rule spec_mono[OF spec_prologue[OF i refl p(3), where maps = maps]], assumption,
      rule spec_Cons, rule spec_mono[OF spec_rules_code[OF i refl p(1,2,4), where final = ?f]], rule spec_Nil, goal_cases)
    case (1 ip k ir k')
    have "finishes maps (called ?X) ?T (plan_route plan ?V ri) (ip @ ir)" if m: "maps_ok maps fds"
    proof -
      have e: "route_from plan ?V ri ?f False (rp_rules plan) = plan_route plan ?V ri"
        by (rule route_from_plan) (rule p(3))
      from 1 m have "falls maps (called ?X) (\<lambda>m m'. entry ?X ?T ?V plan ?f m' \<and>
          (?T = None \<longrightarrow> drop 24 (m_output m') = drop 24 (m_output m))) ip"
        and "finishes maps (entry ?X ?T ?V plan ?f) ?T (route_from plan ?V ri ?f False (rp_rules plan)) ir" by blast+
      then show ?thesis
        unfolding e by (rule finishes_falls) (auto simp: ended_def called_def entry_def inv_def frame_ok_def)
    qed
    moreover have "scoped (ip @ ir) 0 k'" using 1 by (blast intro: scoped_append)
    moreover from 1 obtain I' where "ip = head_items plan 0 @ I'" by blast
    ultimately show ?case by simp
  qed
  moreover have t0: "a_trace_layout ?a = ?T" "length (a_labels ?a) = 0" by (simp_all add: Assembler_new_def)
  ultimately obtain I where "view a = fold place I (view ?a)" "scoped I 0 (length (a_labels a))"
    "\<exists>I'. I = head_items plan 0 @ I'"
    "maps_ok maps fds \<longrightarrow> finishes maps (called ?X) ?T (plan_route plan ?V ri) I"
    using a(2) t0 unfolding spec_def by blast
  moreover have "view ?a = ([], [], \<lambda>_. None)" by (simp add: view_def lab_def Assembler_new_def fun_eq_iff)
  ultimately show ?thesis using a(1) by (auto simp: scoped_def)
qed

lemma program_null:
  assumes bc: "emit_routing_program plan fds = Inr bc"
    and null: "r1 = Scalar 0 \<or> (\<exists>p q. r1 = Pointer p q) \<and> r2 = Scalar 0"
  shows "\<exists>m'. bpf_run (length (rb_insns bc)) (rb_insns bc) maps (start_machine r1 r2 input out stack) = Some (- 14, m')
    \<and> m_output m' = out"
proof -
  have "input_ok RoutingInput_default" by (simp add: input_ok_def RoutingInput_default_def)
  from program_items[OF bc this] obtain a I I' where
    I: "finish a = Inr bc" "view a = fold place I ([], [], \<lambda>_. None)" "distinct (binds I)" "I = head_items plan 0 @ I'"
    by blast
  let ?m = "start_machine r1 r2 input out stack"
  have m14: "imm64 (- 14) = - 14" by (simp add: imm64_def)
  have "run_items maps I ?m = Some (- 14, goto 0 (set_reg 0 (Scalar (- 14)) ?m))"
    using null unfolding I(4)
    by (auto simp: head_items_def start_machine_def run_insn registers m14)
  from finish_runs[OF I(2,3,1) this] obtain m' where
    "bpf_run (length (rb_insns bc)) (rb_insns bc) maps ?m = Some (- 14, m')" "goto 0 m' = goto 0 (set_reg 0 (Scalar (- 14)) ?m)"
    by (auto simp: start_machine_def)
  moreover from this(2) have "m_output m' = out"
    using goto_simps(4)[of 0 m'] by (simp add: start_machine_def)
  ultimately show ?thesis by blast
qed

lemma program_runs:
  assumes bc: "emit_routing_program plan fds = Inr bc" and maps: "maps_ok maps fds"
    and i: "input_ok ri" and len: "length out = 272" "length stack = 512"
  shows "\<exists>m'. bpf_run (length (rb_insns bc)) (rb_insns bc) maps
      (start_machine (Pointer InputR 0) (Pointer OutputR 0) (input_bytes ri) out stack) = Some (0, m')
    \<and> m_input m' = input_bytes ri \<and> length (m_output m') = 272
    \<and> read_decision (m_output m') = plan_route plan (fact_value maps fds ri) ri
    \<and> (\<not> rp_trace_enabled plan \<longrightarrow> drop 24 (m_output m') = drop 24 out)"
proof -
  from program_items[OF bc i, of maps] maps obtain a I where
    I: "finish a = Inr bc" "view a = fold place I ([], [], \<lambda>_. None)" "distinct (binds I)"
      "finishes maps (called (input_bytes ri)) (plan_trace_layout plan) (plan_route plan (fact_value maps fds ri) ri) I"
    by blast
  let ?m = "start_machine (Pointer InputR 0) (Pointer OutputR 0) (input_bytes ri) out stack"
  have "called (input_bytes ri) ?m"
    using len input_length[OF i] by (simp add: called_def start_machine_def)
  with I(4) obtain m1 where m1: "ended (plan_trace_layout plan) (plan_route plan (fact_value maps fds ri) ri) ?m m1"
    "run_items maps I ?m = Some (0, m1)" unfolding finishes_def by (metis append_Nil2)
  from finish_runs[OF I(2,3,1) m1(2)] obtain m' where
    m': "bpf_run (length (rb_insns bc)) (rb_insns bc) maps ?m = Some (0, m')" "goto 0 m' = m1"
    by (auto simp: start_machine_def)
  have "m_input m' = m_input m1" "m_output m' = m_output m1" using m'(2) by auto
  with m1(1) m'(1) len show ?thesis
    by (auto simp: ended_def plan_trace_layout_def start_machine_def)
qed

section \<open>A sample policy\<close>

text \<open>The capacity is compared as an integer, whose numerals are binary.\<close>

lemma emit_code [code]:
  "emit code d s off imm a =
     (if int (length (a_insns a)) < 1000000
      then Inr (a\<lparr>a_insns := a_insns a
                 @ [\<lparr>bi_code = as_u8 code, bi_dst = d, bi_src = s, bi_off = word_of_int off, bi_imm = imm\<rparr>]\<rparr>)
      else Inl CgCapacity)"
  by (simp add: emit_def BPF_INSTRUCTION_CAPACITY_def)

definition sample_plan :: routing_push_plan where
  "sample_plan =
     \<lparr>rp_rules =
        [\<lparr>kr_id = 0, kr_source = ''domain(a) -> direct'',
          kr_conditions = [\<lparr>kc_not = False, kc_predicate = KDomain 0\<rparr>],
          kr_action = \<lparr>ka_outbound = 0, ka_must = False, ka_mark = 9, ka_direct_mark_index = None\<rparr>\<rparr>,
         \<lparr>kr_id = 1, kr_source = ''mac(m) && !dport(1-79) -> proxy'',
          kr_conditions = [\<lparr>kc_not = False, kc_predicate = KMac 33\<rparr>,
            \<lparr>kc_not = True, kc_predicate = KDestinationPort [\<lparr>range_start = 1, range_end = 79\<rparr>]\<rparr>],
          kr_action = \<lparr>ka_outbound = 3, ka_must = True, ka_mark = 7, ka_direct_mark_index = Some 2\<rparr>\<rparr>],
      rp_facts = \<lparr>fm_destination_v4 = [], fm_destination_v6 = [], fm_source_v4 = [], fm_source_v6 = [], fm_mac = []\<rparr>,
      rp_fallback = \<lparr>ka_outbound = 0, ka_must = False, ka_mark = 0, ka_direct_mark_index = None\<rparr>,
      rp_features = ROUTING_FEATURE_DOMAIN OR ROUTING_FEATURE_DOMAIN_REROUTE, rp_fingerprint = [], rp_has_domain_rules = True,
      rp_domain_predicate_count = 1, rp_trace_enabled = False\<rparr>"

definition sample_fds :: routing_map_fds where
  "sample_fds = \<lparr>fd_destination_v4 = 3, fd_destination_v6 = 4, fd_source_v4 = 5, fd_source_v6 = 6, fd_mac = 7, fd_domain = 8\<rparr>"

definition sample_maps :: bpf_maps where
  "sample_maps fd =
     (if fd = 8 then Some \<lparr>map_key_size = 16, map_lookup = (\<lambda>_. None)\<rparr>
      else Some \<lparr>map_key_size = 20, map_lookup = (\<lambda>_. Some ([0, 0, 0, 0, 2] @ replicate 27 0))\<rparr>)"

definition sample_input :: routing_input where
  "sample_input = RoutingInput_default\<lparr>ri_dst_port := 443, ri_ip_version := 1, ri_flags := 1\<rparr>"

lemma sample_compiles: "\<exists>bc. emit_routing_program sample_plan sample_fds = Inr bc"
proof -
  have "isl (emit_routing_program sample_plan sample_fds) = False" by code_simp
  then show ?thesis by (cases "emit_routing_program sample_plan sample_fds") auto
qed

lemma sample_ok:
  "maps_ok sample_maps sample_fds" "input_ok sample_input"
  by (simp_all add: maps_ok_def fact_map_ok_def sample_maps_def sample_fds_def input_ok_def sample_input_def RoutingInput_default_def)

lemma sample_route:
  "plan_route sample_plan (fact_value sample_maps sample_fds sample_input) sample_input =
     \<lparr>d_outbound = 3, d_mark = 7, d_must = 1, d_domain_final = 0, d_rule_id = 1, d_direct_mark_index = 2\<rparr>"
  by code_simp

section \<open>Correctness of the compiler\<close>

text \<open>C1. The bytecode that \<open>emit_routing_program\<close> generates for a plan computes the decision of the
  plan. Run on an input of the kernel interface, with maps of the right shape, it returns 0 within
  one step for each instruction, never faulting, and leaves in the output the decision of the first
  rule whose conditions all hold, evaluated in source order without folding, reordering or caching,
  or of the fallback. The input is unchanged, and so is the trace part of the output unless the plan
  is traced.\<close>

theorem codegen_correct:
  assumes "emit_routing_program plan fds = Inr bc" "maps_ok maps fds" "input_ok ri"
    and "length out = 272" "length stack = 512"
  shows "\<exists>m'. bpf_run (length (rb_insns bc)) (rb_insns bc) maps
      (start_machine (Pointer InputR 0) (Pointer OutputR 0) (input_bytes ri) out stack) = Some (0, m')
    \<and> read_decision (m_output m') = plan_route plan (fact_value maps fds ri) ri
    \<and> m_input m' = input_bytes ri
    \<and> (\<not> rp_trace_enabled plan \<longrightarrow> drop 24 (m_output m') = drop 24 out)"
  using program_runs[OF assms] by blast

theorem codegen_correct_witness:
  "\<exists>bc m'. emit_routing_program sample_plan sample_fds = Inr bc
    \<and> bpf_run (length (rb_insns bc)) (rb_insns bc) sample_maps (start_machine (Pointer InputR 0) (Pointer OutputR 0)
        (input_bytes sample_input) (replicate 272 0) (replicate 512 0)) = Some (0, m')
    \<and> read_decision (m_output m') =
        \<lparr>d_outbound = 3, d_mark = 7, d_must = 1, d_domain_final = 0, d_rule_id = 1, d_direct_mark_index = 2\<rparr>"
proof -
  obtain bc where "emit_routing_program sample_plan sample_fds = Inr bc" using sample_compiles by blast
  with codegen_correct[OF this sample_ok, of "replicate 272 0" "replicate 512 0"] show ?thesis
    unfolding sample_route by auto
qed

text \<open>C11. A generated function refuses a null input or output: it returns \<open>-EFAULT\<close> (-14) and has
  written nothing.\<close>

theorem codegen_null:
  assumes "emit_routing_program plan fds = Inr bc"
    and "r1 = Scalar 0 \<or> r1 = Pointer InputR 0 \<and> r2 = Scalar 0"
  shows "\<exists>m'. bpf_run (length (rb_insns bc)) (rb_insns bc) maps (start_machine r1 r2 input out stack) = Some (- 14, m')
    \<and> m_output m' = out"
  using assms(2) by (intro program_null[OF assms(1)]) blast

theorem codegen_null_witness:
  "\<exists>bc m'. emit_routing_program sample_plan sample_fds = Inr bc
    \<and> bpf_run (length (rb_insns bc)) (rb_insns bc) sample_maps (start_machine (Pointer InputR 0) (Scalar 0)
        (input_bytes sample_input) (replicate 272 1) (replicate 512 0)) = Some (- 14, m')
    \<and> m_output m' = replicate 272 1"
proof -
  obtain bc where "emit_routing_program sample_plan sample_fds = Inr bc" using sample_compiles by blast
  with codegen_null[OF this, of "Pointer InputR 0" "Scalar 0"] show ?thesis by blast
qed

text \<open>C10. Whatever its arguments, a generated function ends: with any fuel of at least one step for
  each instruction the run returns 0 or \<open>-EFAULT\<close>, and more fuel changes nothing.\<close>

theorem codegen_terminates:
  assumes "emit_routing_program plan fds = Inr bc" "maps_ok maps fds" "input_ok ri"
    and "length out = 272" "length stack = 512"
    and "r1 \<in> {Scalar 0, Pointer InputR 0}" "r2 \<in> {Scalar 0, Pointer OutputR 0}"
  shows "\<exists>w m'. w \<in> {0, - 14} \<and> (\<forall>fuel. length (rb_insns bc) \<le> fuel \<longrightarrow>
    bpf_run fuel (rb_insns bc) maps (start_machine r1 r2 (input_bytes ri) out stack) = Some (w, m'))"
proof -
  have "\<exists>w m'. w \<in> {0, - 14} \<and> bpf_run (length (rb_insns bc)) (rb_insns bc) maps
      (start_machine r1 r2 (input_bytes ri) out stack) = Some (w, m')"
    using program_null[OF assms(1), of r1 r2 maps "input_bytes ri" out stack] program_runs[OF assms(1-5)] assms(6,7)
    by (cases "r1 = Scalar 0 \<or> r2 = Scalar 0") auto
  then show ?thesis using bpf_run_mono by blast
qed

theorem codegen_terminates_witness:
  "\<exists>bc w m'. emit_routing_program sample_plan sample_fds = Inr bc \<and> w \<in> {0, - 14 :: u64}
    \<and> (\<forall>fuel. length (rb_insns bc) \<le> fuel \<longrightarrow> bpf_run fuel (rb_insns bc) sample_maps
        (start_machine (Pointer InputR 0) (Pointer OutputR 0) (input_bytes sample_input) (replicate 272 0) (replicate 512 0))
        = Some (w, m'))"
proof -
  obtain bc where "emit_routing_program sample_plan sample_fds = Inr bc" using sample_compiles by blast
  with codegen_terminates[OF this sample_ok, of "replicate 272 0" "replicate 512 0" "Pointer InputR 0" "Pointer OutputR 0"]
  show ?thesis by simp
qed

end
