(* ===== verification/Compiled_Route.thy ===== *)
theory Compiled_Route
  imports Samples Codegen_Program
begin

text \<open>
  Generated functions behind the policy slots. \<open>policy_functions\<close> is the interface between the
  classifiers, which call a slot, and the functions installed there; it is interpreted on the
  bytecode of \<open>emit_routing_program\<close>, so that \<open>route\<close> returns the decision of the plan.
\<close>

section \<open>Interface\<close>

text \<open>The function returns 0 and a decision for every input the classifiers build. The words of the
  trace payload that the classifiers leave out of \<open>o_trace\<close> are zero.\<close>

locale policy_functions =
  fixes installed :: "'p \<Rightarrow> bool"
    and run :: "'p \<Rightarrow> routing_input \<Rightarrow> kernel_route_output \<Rightarrow> int \<times> kernel_route_output"
    and decide :: "'p \<Rightarrow> routing_input \<Rightarrow> routing_decision"
  assumes decides: "installed p \<Longrightarrow> input_ok ri \<Longrightarrow> \<exists>out'. run p ri out = (0, out') \<and> o_decision out' = decide p ri"
begin

definition decision_of :: "'p \<Rightarrow> routing_input \<Rightarrow> routing_decision" where
  "decision_of p ri =
     (let d = decide p ri in
      if ri_dst_port ri = 53 \<and> (ri_l4proto ri = 1 \<or> ri_l4proto ri = 2) \<and> d_must d = 0
      then d\<lparr>d_outbound := as_u32 OUTBOUND_CONTROL_PLANE_ROUTING\<rparr> else d)"

lemma route_decides:
  assumes "installed p" "policy_root e = Some d" "input_ok (complete_input d pname False flags input)"
    and "pd_slot d = 0 \<and> route_slot0 e = run p \<or> pd_slot d = 1 \<and> route_slot1 e = run p"
  shows "fst (route e pname flags input output)
    = Inr (decision_of p (complete_input d pname False flags input), pd_generation d)"
proof -
  let ?ri = "complete_input d pname False flags input"
  let ?o = "if pd_trace_policy d \<noteq> 0 \<and> flags AND DATAPATH_FLAG_TRACE_ENABLED \<noteq> 0
    then output\<lparr>o_flags := 0\<rparr>\<lparr>o_flags := ROUTE_TRACE_VERSION OR ROUTE_TRACE_ENABLED\<rparr> else output\<lparr>o_flags := 0\<rparr>"
  obtain out' where o: "run p ?ri ?o = (0, out')" "o_decision out' = decide p ?ri"
    using decides[OF assms(1,3)] by blast
  have "(if pd_slot d = 0 then route_slot0 e ?ri ?o else if pd_slot d = 1 then route_slot1 e ?ri ?o else (- EINVAL, ?o))
      = (0, out')"
    using assms(4) o(1) by auto
  then show ?thesis
    unfolding route_def evaluate_policy_def Let_def assms(2) option.case decision_of_def
    using o(2) by (auto simp: case_prod_beta)
qed

end

section \<open>Inputs\<close>

lemma complete_input_ok: "input_ok input \<Longrightarrow> input_ok (complete_input d pname canonical flags input)"
  using normalized_some[of "the pname" "ri_pname input"]
  by (cases pname; cases "ri_is_wan input \<noteq> 0 \<and> pd_features d AND ROUTING_FEATURE_PROCESS \<noteq> 0")
    (auto simp: input_ok_def complete_input_def Let_def ROUTING_PROCESS_MAX_LEN_def case_prod_beta)

lemma build_input_ok: "(\<And>m. mac = Some m \<Longrightarrow> length m = 6) \<Longrightarrow> input_ok (build_input tuples mac proto ipv wan)"
  by (auto simp: input_ok_def build_input_def RoutingInput_default_def Let_def split: option.split)

section \<open>Generated functions\<close>

text \<open>\<open>KernelRouteOutput\<close> in memory: the decision, the flags, four bytes of padding, generation, policy
  and the trace payload.\<close>

definition output_bytes :: "kernel_route_output \<Rightarrow> u8 list" where
  "output_bytes out =
     le32 (d_outbound (o_decision out)) @ le32 (d_mark (o_decision out)) @ le32 (d_must (o_decision out))
     @ le32 (d_domain_final (o_decision out)) @ le32 (d_rule_id (o_decision out)) @ le32 (d_direct_mark_index (o_decision out))
     @ le32 (o_flags out) @ [0, 0, 0, 0] @ le_bytes 8 (o_generation out) @ le32 (o_policy_id out)
     @ concat (map le32 (take 57 (o_trace out @ replicate 57 0)))"

definition read_output :: "u8 list \<Rightarrow> kernel_route_output" where
  "read_output bs =
     \<lparr>o_decision = read_decision bs, o_flags = read32 24 bs, o_generation = le_word (take 8 (drop 32 bs)),
      o_policy_id = read32 40 bs, o_trace = map (\<lambda>i. read32 (44 + 4 * i) bs) [0..<57]\<rparr>"

record policy =
  po_plan :: routing_push_plan
  po_fds :: routing_map_fds
  po_maps :: bpf_maps
  po_stack :: "u8 list"

definition policy_installed :: "policy \<Rightarrow> bool" where
  "policy_installed p \<longleftrightarrow>
     \<not> isl (emit_routing_program (po_plan p) (po_fds p)) \<and> maps_ok (po_maps p) (po_fds p) \<and> length (po_stack p) = 512"

text \<open>The return value of a BPF function is the lower half of R0. A fault, excluded below, is no
  return.\<close>

definition run_policy :: "policy \<Rightarrow> routing_input \<Rightarrow> kernel_route_output \<Rightarrow> int \<times> kernel_route_output" where
  "run_policy p ri out =
     (case emit_routing_program (po_plan p) (po_fds p) of
        Inl _ \<Rightarrow> (- EINVAL, out)
      | Inr bc \<Rightarrow>
          (case bpf_run (length (rb_insns bc)) (rb_insns bc) (po_maps p)
                  (start_machine (Pointer InputR 0) (Pointer OutputR 0) (input_bytes ri) (output_bytes out) (po_stack p)) of
             None \<Rightarrow> (- EFAULT, out)
           | Some (w, m) \<Rightarrow> (sint (ucast w :: i32), read_output (m_output m))))"

definition policy_decision :: "policy \<Rightarrow> routing_input \<Rightarrow> routing_decision" where
  "policy_decision p ri = plan_route (po_plan p) (fact_value (po_maps p) (po_fds p) ri) ri"

lemma length_output: "length (output_bytes out) = 272"
proof -
  have "length (concat (map le32 ws)) = 4 * length ws" for ws by (induction ws) simp_all
  from this[of "take 57 (o_trace out @ replicate 57 0)"] show ?thesis by (simp add: output_bytes_def del: take_append)
qed

interpretation compiled: policy_functions policy_installed run_policy policy_decision
proof
  fix p ri out assume p: "policy_installed p" and ri: "input_ok ri"
  then obtain bc where bc: "emit_routing_program (po_plan p) (po_fds p) = Inr bc"
    by (cases "emit_routing_program (po_plan p) (po_fds p)") (auto simp: policy_installed_def)
  from p program_runs[OF bc _ ri length_output, of "po_maps p" "po_stack p" out]
  show "\<exists>out'. run_policy p ri out = (0, out') \<and> o_decision out' = policy_decision p ri"
    by (auto simp: policy_installed_def run_policy_def bc policy_decision_def read_output_def)
qed

section \<open>Routing a packet\<close>

text \<open>C9. A classifier that routes a packet through a slot with an installed policy obtains the
  decision of the plan. \<open>route\<close> builds its input from the parsed tuple, the MAC address and the
  normalized process name, calls the generated bytecode, and returns the reference decision of the
  plan on that input with the generation of the descriptor; only DNS without \<open>must\<close> is sent to the
  control plane instead.\<close>

theorem route_follows_plan:
  assumes "policy_installed p" "policy_root e = Some d"
    and "pd_slot d = 0 \<and> route_slot0 e = run_policy p \<or> pd_slot d = 1 \<and> route_slot1 e = run_policy p"
    and "mac = None \<or> length (the mac) = 6"
    and "ri = complete_input d pname False flags (build_input tuples mac proto ipv wan)"
    and "dec = plan_route (po_plan p) (fact_value (po_maps p) (po_fds p) ri) ri"
  shows "fst (route e pname flags (build_input tuples mac proto ipv wan) output) =
    Inr (if ri_dst_port ri = 53 \<and> (ri_l4proto ri = 1 \<or> ri_l4proto ri = 2) \<and> d_must dec = 0
         then dec\<lparr>d_outbound := as_u32 OUTBOUND_CONTROL_PLANE_ROUTING\<rparr> else dec, pd_generation d)"
proof -
  have "input_ok ri" unfolding assms(5) using assms(4) by (intro complete_input_ok build_input_ok) auto
  from compiled.route_decides[OF assms(1,2) this[unfolded assms(5)] assms(3)] show ?thesis
    unfolding assms(5)[symmetric] compiled.decision_of_def policy_decision_def assms(6)[symmetric] Let_def .
qed

definition sample_policy :: policy where
  "sample_policy = \<lparr>po_plan = sample_plan, po_fds = sample_fds, po_maps = sample_maps, po_stack = replicate 512 0\<rparr>"

definition sample_descriptor :: policy_descriptor where
  "sample_descriptor = \<lparr>pd_slot = 0, pd_features = 3, pd_generation = 12, pd_domain_map_id = 1, pd_trace_policy = 0\<rparr>"

definition sample_tuples :: tuples where
  "sample_tuples = \<lparr>five = udp6_key, tup_dscp = 0\<rparr>"

lemma sample_installed: "policy_installed sample_policy"
  using sample_compiles sample_ok(1) by (auto simp: policy_installed_def sample_policy_def)

lemma sample_packet_decision:
  "let ri = complete_input sample_descriptor None False 0 (build_input sample_tuples (Some [2, 0, 0, 0, 0, 7]) 2 2 False) in
   ri_dst_port ri = 443 \<and> plan_route sample_plan (fact_value sample_maps sample_fds ri) ri =
     \<lparr>d_outbound = 3, d_mark = 7, d_must = 1, d_domain_final = 0, d_rule_id = 1, d_direct_mark_index = 2\<rparr>"
  by code_simp

theorem route_follows_plan_witness:
  "\<forall>out. fst (route (sample_env\<lparr>policy_root := Some sample_descriptor, route_slot0 := run_policy sample_policy\<rparr>) None 0
     (build_input sample_tuples (Some [2, 0, 0, 0, 0, 7]) 2 2 False) out)
   = Inr (\<lparr>d_outbound = 3, d_mark = 7, d_must = 1, d_domain_final = 0, d_rule_id = 1, d_direct_mark_index = 2\<rparr>, 12)"
proof
  fix out
  let ?e = "sample_env\<lparr>policy_root := Some sample_descriptor, route_slot0 := run_policy sample_policy\<rparr>"
  let ?i = "build_input sample_tuples (Some [2, 0, 0, 0, 0, 7]) 2 2 False"
  let ?ri = "complete_input sample_descriptor None False 0 ?i"
  have p: "ri_dst_port ?ri = 443" "plan_route (po_plan sample_policy)
      (fact_value (po_maps sample_policy) (po_fds sample_policy) ?ri) ?ri =
      \<lparr>d_outbound = 3, d_mark = 7, d_must = 1, d_domain_final = 0, d_rule_id = 1, d_direct_mark_index = 2\<rparr>"
    using sample_packet_decision by (simp_all add: Let_def sample_policy_def)
  have "policy_root ?e = Some sample_descriptor" "pd_slot sample_descriptor = 0 \<and> route_slot0 ?e = run_policy sample_policy"
    "pd_generation sample_descriptor = 12" by (simp_all add: sample_descriptor_def)
  with route_follows_plan[OF sample_installed, of ?e sample_descriptor "Some [2, 0, 0, 0, 0, 7]" ?ri None 0 sample_tuples 2 2 False
      _ out] p show "fst (route ?e None 0 ?i out) = Inr (\<lparr>d_outbound = 3, d_mark = 7, d_must = 1, d_domain_final = 0,
        d_rule_id = 1, d_direct_mark_index = 2\<rparr>, 12)" by simp
qed

end
