(* ===== verification/Lpm.thy ===== *)
theory Lpm
  imports Prelude
begin

text \<open>
  The binary longest-prefix trie of \<open>routing/lpm.rs\<close>, an arena of nodes linked by 32-bit indices, in
  which 0 is no child. \<open>paths\<close> is the abstraction: the set of bit strings whose node is marked.
  Networks are \<open>ipnet::IpNet\<close> values, given by what their accessors return.
\<close>

datatype ip_addr = IpV4 "u8 list" | IpV6 "u8 list"

record ip_net =
  net_addr :: ip_addr
  net_network :: ip_addr
  net_prefix_len :: nat

fun octets :: "ip_addr \<Rightarrow> u8 list" where
  "octets (IpV4 bs) = bs"
| "octets (IpV6 bs) = bs"

fun is_ipv4 :: "ip_addr \<Rightarrow> bool" where
  "is_ipv4 (IpV4 _) = True"
| "is_ipv4 (IpV6 _) = False"

definition addr_ok :: "ip_addr \<Rightarrow> bool" where
  "addr_ok a \<longleftrightarrow> length (octets a) = (if is_ipv4 a then 4 else 16)"

section \<open>The trie\<close>

record trie_node =
  tn_zero :: u32
  tn_one :: u32
  tn_matched :: bool

definition TrieNode_default :: trie_node where
  "TrieNode_default = \<lparr>tn_zero = 0, tn_one = 0, tn_matched = False\<rparr>"

text \<open>\<open>(byte >> (7 - bit_idx % 8)) & 1\<close>.\<close>

definition addr_bit :: "u8 list \<Rightarrow> nat \<Rightarrow> bool" where
  "addr_bit bytes bit_idx = bit (bytes ! (bit_idx div 8)) (7 - bit_idx mod 8)"

definition child :: "bool \<Rightarrow> trie_node \<Rightarrow> u32" where
  "child b n = (if b then tn_one n else tn_zero n)"

definition set_child :: "bool \<Rightarrow> u32 \<Rightarrow> trie_node \<Rightarrow> trie_node" where
  "set_child b c n = (if b then n\<lparr>tn_one := c\<rparr> else n\<lparr>tn_zero := c\<rparr>)"

fun insert_from :: "u8 list \<Rightarrow> nat \<Rightarrow> nat \<Rightarrow> u32 \<Rightarrow> trie_node list \<Rightarrow> trie_node list" where
  "insert_from bytes bit_idx 0 node_idx nodes =
     nodes[unat node_idx := (nodes ! unat node_idx)\<lparr>tn_matched := True\<rparr>]"
| "insert_from bytes bit_idx (Suc left) node_idx nodes =
     (let b = addr_bit bytes bit_idx;
          child_val = child b (nodes ! unat node_idx)
      in if child_val = 0
         then let new_idx = of_nat (length nodes);
                  nodes1 = nodes @ [TrieNode_default];
                  nodes2 = nodes1[unat node_idx := set_child b new_idx (nodes1 ! unat node_idx)]
              in insert_from bytes (bit_idx + 1) left new_idx nodes2
         else insert_from bytes (bit_idx + 1) left child_val nodes)"

definition trie_insert :: "u8 list \<Rightarrow> nat \<Rightarrow> trie_node list \<Rightarrow> trie_node list" where
  "trie_insert bytes prefix_len nodes = insert_from bytes 0 prefix_len 0 nodes"

fun matches_from :: "trie_node list \<Rightarrow> u8 list \<Rightarrow> nat \<Rightarrow> nat \<Rightarrow> u32 \<Rightarrow> bool" where
  "matches_from nodes bytes bit_idx 0 node_idx = tn_matched (nodes ! unat node_idx)"
| "matches_from nodes bytes bit_idx (Suc left) node_idx =
     (if tn_matched (nodes ! unat node_idx) then True
      else let c = child (addr_bit bytes bit_idx) (nodes ! unat node_idx) in
        if c = 0 then tn_matched (nodes ! unat node_idx)
        else matches_from nodes bytes (bit_idx + 1) left c)"

definition matches_nodes :: "trie_node list \<Rightarrow> u8 list \<Rightarrow> nat \<Rightarrow> bool" where
  "matches_nodes nodes bytes key_bits = (if nodes = [] then False else matches_from nodes bytes 0 key_bits 0)"

record binary_lpm_trie =
  v4_nodes :: "trie_node list"
  v6_nodes :: "trie_node list"

definition add_net :: "ip_net \<Rightarrow> binary_lpm_trie \<Rightarrow> binary_lpm_trie" where
  "add_net net trie = (case net_addr net of
         IpV4 ip \<Rightarrow> trie\<lparr>v4_nodes := trie_insert ip (net_prefix_len net) (v4_nodes trie)\<rparr>
       | IpV6 ip \<Rightarrow> trie\<lparr>v6_nodes := trie_insert ip (net_prefix_len net) (v6_nodes trie)\<rparr>)"

definition from_nets :: "ip_net list \<Rightarrow> binary_lpm_trie" where
  "from_nets nets = fold add_net nets \<lparr>v4_nodes = [TrieNode_default], v6_nodes = [TrieNode_default]\<rparr>"

definition trie_matches :: "binary_lpm_trie \<Rightarrow> ip_addr \<Rightarrow> bool" where
  "trie_matches trie ip =
     (case ip of
        IpV4 bs \<Rightarrow> matches_nodes (v4_nodes trie) bs 32
      | IpV6 bs \<Rightarrow> matches_nodes (v6_nodes trie) bs 128)"

section \<open>Paths\<close>

definition addr_bits :: "u8 list \<Rightarrow> nat \<Rightarrow> bool list" where
  "addr_bits bytes n = map (addr_bit bytes) [0..<n]"

fun walk :: "trie_node list \<Rightarrow> u32 \<Rightarrow> bool list \<Rightarrow> u32 option" where
  "walk nodes i [] = Some i"
| "walk nodes i (b # bs) =
     (let c = child b (nodes ! unat i) in if c = 0 then None else walk nodes c bs)"

definition trie_ok :: "trie_node list \<Rightarrow> bool" where
  "trie_ok nodes \<longleftrightarrow>
     nodes \<noteq> [] \<and> length nodes < 2 ^ 32
     \<and> (\<forall>i < length nodes. \<forall>b. unat (child b (nodes ! i)) < length nodes)
     \<and> (\<forall>i < length nodes. \<forall>j < length nodes. \<forall>b b'. child b (nodes ! i) \<noteq> 0
          \<longrightarrow> child b (nodes ! i) = child b' (nodes ! j) \<longrightarrow> i = j \<and> b = b')"

definition paths :: "trie_node list \<Rightarrow> bool list set" where
  "paths nodes = {p. \<exists>i. walk nodes 0 p = Some i \<and> tn_matched (nodes ! unat i)}"

lemma walk_append: "walk nodes i (p @ q) = Option.bind (walk nodes i p) (\<lambda>j. walk nodes j q)"
  by (induction nodes i p rule: walk.induct) (simp_all add: Let_def)

lemma walk_snoc:
  "walk nodes i (p @ [b]) =
     (case walk nodes i p of None \<Rightarrow> None
      | Some j \<Rightarrow> if child b (nodes ! unat j) = 0 then None else Some (child b (nodes ! unat j)))"
  by (simp add: walk_append Let_def split: option.split)

lemma walk_bound:
  assumes "trie_ok nodes"
  shows "walk nodes i p = Some j \<Longrightarrow> unat i < length nodes \<Longrightarrow> unat j < length nodes"
  using assms by (induction nodes i p rule: walk.induct) (auto simp: Let_def trie_ok_def split: if_splits)

lemma walk_bound0: "trie_ok nodes \<Longrightarrow> walk nodes 0 p = Some j \<Longrightarrow> unat j < length nodes"
  using walk_bound[of nodes 0 p j] by (simp add: trie_ok_def)

lemma walk_inject:
  assumes ok: "trie_ok nodes"
  shows "walk nodes 0 p = Some i \<Longrightarrow> walk nodes 0 q = Some i \<Longrightarrow> p = q"
proof (induction p arbitrary: q i rule: rev_induct)
  case Nil
  then show ?case by (cases q rule: rev_cases) (auto simp: walk_snoc split: option.splits if_splits)
next
  case (snoc b p)
  from snoc.prems(1) obtain j where j: "walk nodes 0 p = Some j" "child b (nodes ! unat j) = i" "i \<noteq> 0"
    by (auto simp: walk_snoc split: option.splits if_splits)
  with snoc.prems(2) obtain q' b' j' where q: "q = q' @ [b']" "walk nodes 0 q' = Some j'" "child b' (nodes ! unat j') = i"
    by (cases q rule: rev_cases) (auto simp: walk_snoc split: option.splits if_splits)
  have "unat j = unat j' \<and> b = b'"
    using ok j q walk_bound0[OF ok j(1)] walk_bound0[OF ok q(2)] unfolding trie_ok_def by metis
  then have "j = j'" "b = b'" unfolding word_unat_eq_iff by blast+
  with j q snoc.IH[of j q'] show ?case by simp
qed

text \<open>Marking a node adds its path.\<close>

lemma mark_ok:
  assumes ok: "trie_ok nodes" and w: "walk nodes 0 p = Some i"
  defines "nodes' \<equiv> nodes[unat i := (nodes ! unat i)\<lparr>tn_matched := True\<rparr>]"
  shows "trie_ok nodes'" "paths nodes' = insert p (paths nodes)"
proof -
  have i: "unat i < length nodes" by (rule walk_bound0[OF ok w])
  have c: "child b (nodes' ! j) = child b (nodes ! j)" for b j
    by (cases "j = unat i") (simp_all add: nodes'_def child_def i)
  have l: "length nodes' = length nodes" "nodes' = [] \<longleftrightarrow> nodes = []" by (simp_all add: nodes'_def)
  show "trie_ok nodes'" using ok unfolding trie_ok_def c l .
  have walks: "walk nodes' k q = walk nodes k q" for k q
    by (induction q arbitrary: k) (simp_all add: c Let_def)
  have marks: "tn_matched (nodes' ! unat j) \<longleftrightarrow> j = i \<or> tn_matched (nodes ! unat j)" for j
    using word_unat_eq_iff[of j i] by (cases "unat j = unat i") (simp_all add: nodes'_def i)
  have at: "walk nodes 0 q = Some i \<longleftrightarrow> q = p" for q using w walk_inject[OF ok _ w] by blast
  show "paths nodes' = insert p (paths nodes)"
  proof (rule set_eqI)
    fix q
    show "q \<in> paths nodes' \<longleftrightarrow> q \<in> insert p (paths nodes)"
      unfolding paths_def mem_Collect_eq walks marks insert_iff using at[of q] by (cases "walk nodes 0 q") auto
  qed
qed

text \<open>A new child changes the walk of its own path only.\<close>

lemma grow_ok:
  assumes ok: "trie_ok nodes" and w: "walk nodes 0 p = Some i" and c: "child b (nodes ! unat i) = 0"
    and len: "Suc (length nodes) < 2 ^ 32"
  defines "new \<equiv> of_nat (length nodes) :: u32"
  defines "nodes' \<equiv> (nodes @ [TrieNode_default])[unat i := set_child b new ((nodes @ [TrieNode_default]) ! unat i)]"
  shows "trie_ok nodes'" "paths nodes' = paths nodes" "walk nodes' 0 (p @ [b]) = Some new" "length nodes' = Suc (length nodes)"
proof -
  have i: "unat i < length nodes" by (rule walk_bound0[OF ok w])
  have n: "unat new = length nodes" using len by (simp add: new_def unat_of_nat take_bit_nat_eq_self)
  have nz: "new \<noteq> 0" using n i by auto
  have ch: "child b' (nodes' ! j) = (if j = unat i \<and> b' = b then new else if j < length nodes then child b' (nodes ! j) else 0)"
    if "j \<le> length nodes" for b' j
    using that i by (auto simp: nodes'_def nth_append child_def set_child_def TrieNode_default_def nth_list_update)
  show len': "length nodes' = Suc (length nodes)" by (simp add: nodes'_def)
  have ub: "unat (child b' (nodes ! j)) < length nodes" if "j < length nodes" for b' j
    using ok that unfolding trie_ok_def by blast
  have inj: "j = k \<and> b' = b''" if "j < length nodes" "k < length nodes" "child b' (nodes ! j) \<noteq> 0"
    "child b' (nodes ! j) = child b'' (nodes ! k)" for j k b' b''
    using ok that unfolding trie_ok_def by blast
  have old: "child b' (nodes ! j) \<noteq> new" if "j < length nodes" for b' j using ub[OF that, of b'] n by auto
  show "trie_ok nodes'"
    unfolding trie_ok_def len'
  proof (intro conjI allI impI)
    fix j b' assume "j < Suc (length nodes)"
    then show "unat (child b' (nodes' ! j)) < Suc (length nodes)"
      using ch[of j b'] ub[of j b'] n by (cases "j = unat i \<and> b' = b"; cases "j < length nodes") simp_all
  next
    fix j k b' b'' assume a: "j < Suc (length nodes)" "k < Suc (length nodes)" "child b' (nodes' ! j) \<noteq> 0"
      "child b' (nodes' ! j) = child b'' (nodes' ! k)"
    then have *: "j \<le> length nodes" "k \<le> length nodes" by simp_all
    show "j = k" "b' = b''"
      using a(3,4) ch[OF *(1), of b'] ch[OF *(2), of b''] old[of j b'] old[of k b''] inj[of j k b' b''] by (auto split: if_splits)
  qed (use len in \<open>simp_all add: nodes'_def\<close>)
  have walks: "walk nodes' 0 q = (if q = p @ [b] then Some new else walk nodes 0 q)" for q
  proof (induction q rule: rev_induct)
    case Nil
    show ?case by simp
  next
    case (snoc b' q)
    show ?case
    proof (cases "q = p @ [b]")
      case True
      have q: "walk nodes' 0 q = Some new" using snoc.IH True by simp
      have q': "walk nodes 0 q = None" using w c unfolding True by (simp add: walk_snoc)
      have "walk nodes' 0 (q @ [b']) = None" unfolding walk_snoc q using ch[of "length nodes" b'] n i by simp
      moreover have "walk nodes 0 (q @ [b']) = None" unfolding walk_snoc q' by simp
      moreover have "q @ [b'] \<noteq> p @ [b]" using True by simp
      ultimately show ?thesis by (simp only: if_False)
    next
      case False
      then have q: "walk nodes' 0 q = walk nodes 0 q" using snoc.IH by simp
      show ?thesis
      proof (cases "walk nodes 0 q")
        case None
        with q w show ?thesis by (auto simp: walk_snoc)
      next
        case (Some j)
        have "unat j < length nodes" by (rule walk_bound0[OF ok Some])
        moreover have "j = i \<longleftrightarrow> q = p" using Some w walk_inject[OF ok] by auto
        ultimately show ?thesis
          using q Some w nz ch[of "unat j" b'] word_unat_eq_iff[of j i] by (auto simp: walk_snoc)
      qed
    qed
  qed
  then show "walk nodes' 0 (p @ [b]) = Some new" by simp
  have m: "tn_matched (nodes' ! j) \<longleftrightarrow> j < length nodes \<and> tn_matched (nodes ! j)" if "j \<le> length nodes" for j
    using that i by (auto simp: nodes'_def nth_append set_child_def TrieNode_default_def nth_list_update)
  have pb: "walk nodes 0 (p @ [b]) = None" using w c by (simp add: walk_snoc)
  show "paths nodes' = paths nodes"
  proof (rule set_eqI)
    fix q
    show "q \<in> paths nodes' \<longleftrightarrow> q \<in> paths nodes"
    proof (cases "q = p @ [b]")
      case True
      then show ?thesis using walks[of q] pb m[of "length nodes"] n by (simp add: paths_def)
    next
      case False
      then have "walk nodes' 0 q = walk nodes 0 q" using walks[of q] by (simp only: if_False)
      moreover have "tn_matched (nodes' ! unat j) = tn_matched (nodes ! unat j)" if "walk nodes 0 q = Some j" for j
        using m[of "unat j"] walk_bound0[OF ok that] by simp
      ultimately show ?thesis unfolding paths_def by auto
    qed
  qed
qed

lemma insert_from_ok:
  assumes "trie_ok nodes" "walk nodes 0 p = Some i" "length nodes + left < 2 ^ 32"
  shows "trie_ok (insert_from bytes k left i nodes)"
    and "paths (insert_from bytes k left i nodes) = insert (p @ map (addr_bit bytes) [k..<k + left]) (paths nodes)"
    and "length (insert_from bytes k left i nodes) \<le> length nodes + left"
proof -
  have "trie_ok (insert_from bytes k left i nodes)
      \<and> paths (insert_from bytes k left i nodes) = insert (p @ map (addr_bit bytes) [k..<k + left]) (paths nodes)
      \<and> length (insert_from bytes k left i nodes) \<le> length nodes + left"
    using assms
  proof (induction left arbitrary: k i nodes p)
    case 0
    then show ?case using mark_ok by simp
  next
    case (Suc left)
    let ?b = "addr_bit bytes k"
    have u: "map (addr_bit bytes) [k..<k + Suc left] = ?b # map (addr_bit bytes) [k + 1..<k + 1 + left]"
      by (simp add: upt_conv_Cons del: upt_Suc)
    show ?case
    proof (cases "child ?b (nodes ! unat i) = 0")
      case True
      have l: "Suc (length nodes) < 2 ^ 32" using Suc.prems(3) by simp
      note g = grow_ok[OF Suc.prems(1,2) True l]
      show ?thesis
        using Suc.IH[OF g(1,3), of "k + 1"] g(2,4) Suc.prems(3) u True by (simp add: Let_def)
    next
      case False
      then have "walk nodes 0 (p @ [?b]) = Some (child ?b (nodes ! unat i))" using Suc.prems(2) by (simp add: walk_snoc)
      from Suc.IH[OF Suc.prems(1) this, of "k + 1"] False Suc.prems(3) u show ?thesis by (simp add: Let_def)
    qed
  qed
  then show "trie_ok (insert_from bytes k left i nodes)"
    "paths (insert_from bytes k left i nodes) = insert (p @ map (addr_bit bytes) [k..<k + left]) (paths nodes)"
    "length (insert_from bytes k left i nodes) \<le> length nodes + left" by blast+
qed

lemma trie_insert_ok:
  assumes "trie_ok nodes" "length nodes + n < 2 ^ 32"
  shows "trie_ok (trie_insert bytes n nodes)" "paths (trie_insert bytes n nodes) = insert (addr_bits bytes n) (paths nodes)"
    and "length (trie_insert bytes n nodes) \<le> length nodes + n"
  using insert_from_ok[OF assms(1), of "[]" 0 n bytes 0] assms(2) by (simp_all add: trie_insert_def addr_bits_def)

lemma matches_from_paths:
  "walk nodes 0 p = Some i \<Longrightarrow> matches_from nodes bytes k left i \<longleftrightarrow>
   (\<exists>n \<le> left. p @ map (addr_bit bytes) [k..<k + n] \<in> paths nodes)"
proof (induction left arbitrary: k i p)
  case 0
  then show ?case by (auto simp: paths_def)
next
  case (Suc left)
  let ?b = "addr_bit bytes k"
  let ?P = "\<lambda>n. p @ map (addr_bit bytes) [k..<k + n] \<in> paths nodes"
  have m: "?P 0 \<longleftrightarrow> tn_matched (nodes ! unat i)" using Suc.prems by (simp add: paths_def)
  have u: "?P (Suc n) \<longleftrightarrow> (p @ [?b]) @ map (addr_bit bytes) [k + 1..<k + 1 + n] \<in> paths nodes" for n
    by (simp add: upt_conv_Cons del: upt_Suc)
  have "(\<exists>n \<le> Suc left. ?P n) \<longleftrightarrow> ?P 0 \<or> (\<exists>n \<le> left. ?P (Suc n))"
    using Ex_less_Suc2[of "Suc left" ?P] unfolding less_Suc_eq_le .
  also have "(\<exists>n \<le> left. ?P (Suc n)) \<longleftrightarrow> child ?b (nodes ! unat i) \<noteq> 0
      \<and> matches_from nodes bytes (k + 1) left (child ?b (nodes ! unat i))"
  proof (cases "child ?b (nodes ! unat i) = 0")
    case True
    then have "walk nodes 0 ((p @ [?b]) @ q) = None" for q using Suc.prems by (simp only: walk_append) (simp add: walk_snoc)
    with True show ?thesis unfolding u by (simp add: paths_def)
  next
    case False
    then have "walk nodes 0 (p @ [?b]) = Some (child ?b (nodes ! unat i))" using Suc.prems by (simp add: walk_snoc)
    from Suc.IH[OF this, of "k + 1"] False show ?thesis unfolding u by simp
  qed
  finally show ?case using m by (auto simp: Let_def)
qed

lemma matches_nodes_paths:
  "trie_ok nodes \<Longrightarrow> matches_nodes nodes bytes key_bits \<longleftrightarrow> (\<exists>n \<le> key_bits. addr_bits bytes n \<in> paths nodes)"
  using matches_from_paths[of nodes "[]" 0 bytes 0 key_bits] by (simp add: matches_nodes_def addr_bits_def trie_ok_def)

lemma trie_ok_root: "trie_ok [TrieNode_default]" "paths [TrieNode_default] = {}"
proof -
  show "trie_ok [TrieNode_default]" by (simp add: trie_ok_def TrieNode_default_def child_def)
  have "walk [TrieNode_default] 0 p \<noteq> Some i \<or> i = 0" for p i
    by (cases p) (auto simp: TrieNode_default_def child_def Let_def)
  then show "paths [TrieNode_default] = {}" by (fastforce simp: paths_def TrieNode_default_def)
qed

definition net_bits :: "ip_net \<Rightarrow> bool list" where
  "net_bits net = addr_bits (octets (net_addr net)) (net_prefix_len net)"

lemma fold_add_net:
  assumes "trie_ok (v4_nodes t)" "trie_ok (v6_nodes t)"
    and "length (v4_nodes t) + length (v6_nodes t) + sum_list (map net_prefix_len nets) < 2 ^ 32"
  shows "trie_ok (v4_nodes (fold add_net nets t)) \<and> trie_ok (v6_nodes (fold add_net nets t))
    \<and> paths (v4_nodes (fold add_net nets t)) = paths (v4_nodes t) \<union> net_bits ` {net \<in> set nets. is_ipv4 (net_addr net)}
    \<and> paths (v6_nodes (fold add_net nets t)) = paths (v6_nodes t) \<union> net_bits ` {net \<in> set nets. \<not> is_ipv4 (net_addr net)}"
  using assms
proof (induction nets arbitrary: t)
  case (Cons net nets)
  let ?n = "net_prefix_len net" and ?t = "add_net net t"
  have len: "length (v4_nodes t) + ?n < 2 ^ 32" "length (v6_nodes t) + ?n < 2 ^ 32" using Cons.prems(3) by simp_all
  note i4 = trie_insert_ok[OF Cons.prems(1) len(1)] and i6 = trie_insert_ok[OF Cons.prems(2) len(2)]
  have t: "trie_ok (v4_nodes ?t)" "trie_ok (v6_nodes ?t)"
    "length (v4_nodes ?t) + length (v6_nodes ?t) \<le> length (v4_nodes t) + length (v6_nodes t) + ?n"
    using i4(1,3) i6(1,3) Cons.prems(1,2) by (simp_all add: add_net_def trans_le_add1 split: ip_addr.split)
  have p: "paths (v4_nodes ?t) = (if is_ipv4 (net_addr net) then insert (net_bits net) (paths (v4_nodes t)) else paths (v4_nodes t))"
    "paths (v6_nodes ?t) = (if is_ipv4 (net_addr net) then paths (v6_nodes t) else insert (net_bits net) (paths (v6_nodes t)))"
    using i4(2) i6(2) by (simp_all add: add_net_def net_bits_def split: ip_addr.split)
  have "length (v4_nodes ?t) + length (v6_nodes ?t) + sum_list (map net_prefix_len nets) < 2 ^ 32"
    using t(3) Cons.prems(3) by simp
  from Cons.IH[OF t(1,2) this] p show ?case
    by (cases "is_ipv4 (net_addr net)") (auto simp: image_iff)
qed simp

definition net_contains :: "ip_net \<Rightarrow> ip_addr \<Rightarrow> bool" where
  "net_contains net ip \<longleftrightarrow>
     is_ipv4 (net_addr net) = is_ipv4 ip
     \<and> (\<forall>i < net_prefix_len net. addr_bit (octets (net_addr net)) i = addr_bit (octets ip) i)"

lemma addr_bits_eq: "addr_bits a n = addr_bits b k \<longleftrightarrow> n = k \<and> (\<forall>i < n. addr_bit a i = addr_bit b i)"
proof
  assume e: "addr_bits a n = addr_bits b k"
  from arg_cong[OF e, of length] have "n = k" by (simp add: addr_bits_def)
  moreover have "addr_bit a i = addr_bit b i" if "i < n" for i
    using arg_cong[OF e, of "\<lambda>xs. xs ! i"] that \<open>n = k\<close> by (simp add: addr_bits_def)
  ultimately show "n = k \<and> (\<forall>i < n. addr_bit a i = addr_bit b i)" by blast
qed (simp add: addr_bits_def)

text \<open>C12. The trie matches exactly the addresses of its networks: \<open>matches\<close> on the trie of
  \<open>from_nets\<close> holds of an address if and only if one of the networks has its family and agrees with
  it on the bits of its prefix. No prefix is longer than its address, and two more than the sum of
  the prefix lengths, which bounds the nodes of both arenas, is below the 32-bit indices.\<close>

theorem trie_matches_nets:
  assumes "\<forall>net \<in> set nets. net_prefix_len net \<le> (if is_ipv4 (net_addr net) then 32 else 128)"
    and "2 + sum_list (map net_prefix_len nets) < 2 ^ 32"
  shows "trie_matches (from_nets nets) ip \<longleftrightarrow> (\<exists>net \<in> set nets. net_contains net ip)"
proof -
  let ?root = "\<lparr>v4_nodes = [TrieNode_default], v6_nodes = [TrieNode_default]\<rparr>"
  let ?t = "fold add_net nets ?root"
  have f: "trie_ok (v4_nodes ?t)" "trie_ok (v6_nodes ?t)"
    "paths (v4_nodes ?t) = net_bits ` {net \<in> set nets. is_ipv4 (net_addr net)}"
    "paths (v6_nodes ?t) = net_bits ` {net \<in> set nets. \<not> is_ipv4 (net_addr net)}"
    using fold_add_net[of ?root nets] assms(2) trie_ok_root by simp_all
  have m: "(\<exists>n \<le> k. addr_bits bs n \<in> net_bits ` {net \<in> set nets. is_ipv4 (net_addr net) = v})
      \<longleftrightarrow> (\<exists>net \<in> set nets. is_ipv4 (net_addr net) = v
            \<and> (\<forall>i < net_prefix_len net. addr_bit (octets (net_addr net)) i = addr_bit bs i))"
    if "k = (if v then 32 else 128)" for k v bs
    using assms(1) that by (fastforce simp: net_bits_def addr_bits_eq image_iff)
  show ?thesis
    using matches_nodes_paths[OF f(1), of _ 32] matches_nodes_paths[OF f(2), of _ 128] m[of 32 True] m[of 128 False]
    unfolding from_nets_def trie_matches_def f(3,4) net_contains_def by (cases ip) simp_all
qed

definition sample_nets :: "ip_net list" where
  "sample_nets =
     [\<lparr>net_addr = IpV4 [192, 0, 2, 0], net_network = IpV4 [192, 0, 2, 0], net_prefix_len = 24\<rparr>,
      \<lparr>net_addr = IpV4 [10, 0, 0, 0], net_network = IpV4 [10, 0, 0, 0], net_prefix_len = 8\<rparr>]"

theorem trie_matches_nets_witness:
  "trie_matches (from_nets sample_nets) (IpV4 [192, 0, 2, 77]) \<and> \<not> trie_matches (from_nets sample_nets) (IpV4 [192, 0, 3, 77])"
proof -
  have *: "\<forall>net \<in> set sample_nets. net_prefix_len net \<le> (if is_ipv4 (net_addr net) then 32 else 128)"
    "2 + sum_list (map net_prefix_len sample_nets) < 2 ^ 32" by (simp_all add: sample_nets_def)
  have "\<exists>net \<in> set sample_nets. net_contains net (IpV4 [192, 0, 2, 77])"
    "\<not> (\<exists>net \<in> set sample_nets. net_contains net (IpV4 [192, 0, 3, 77]))"
    unfolding net_contains_def by code_simp+
  then show ?thesis using trie_matches_nets[OF *] by blast
qed

end
