(* ===== verification/Spec2Isabelle.thy ===== *)
theory Spec2Isabelle
  imports Tokens Map_Scan Compiled_Route Lpm
begin

text \<open>
  Verification of honk, a transparent proxy whose eBPF programs classify every packet of a host.

  \<^bold>\<open>The program.\<close> Classifiers attached to the interfaces (\<open>crates/honk-ebpf\<close>) parse a packet, look
  up its flow in shared BPF maps, ask a routing policy for a decision when the flow is new, publish
  the decision, and let the packet pass, drop it, or redirect it to the control plane. The control
  plane (\<open>crates/honk-core\<close>) compiles the routing rules into an eBPF function, installs it in one
  of two slots, settles decisions that need user space, and retires flows. Both sides work on the
  same maps concurrently; retirement fences and incarnation numbers keep them from acting on a flow
  that has been replaced. The types of the maps are in \<open>crates/honk-ebpf-common\<close>.

  \<^bold>\<open>Data.\<close> \<open>Prelude\<close> holds the integer types and the map operations. \<open>Marks\<close>: the packet mark and its
  three carriers (\<open>honk-ebpf-common/src/lib.rs\<close>), with round trips and disjointness. \<open>Flow_Data\<close>:
  tuples, connection, redirect and hand-off entries. \<open>Policy\<close>: routing input, decision, trace
  output (\<open>routing_policy.rs\<close>). \<open>Process_Name\<close>: the process-name normalizer; its loop ends and its
  sixteen-step form for the verifier loses nothing. Records keep the fields of the structs under a
  short prefix; machine integers keep their width.

  \<^bold>\<open>Datapath.\<close> \<open>Datapath_State\<close> is the state: every map a program reads or writes, one record \<open>dp\<close>;
  what the kernel decides (clock, allocation failures, LRU evictions, socket lookups) is the record
  \<open>env\<close>, a parameter of every operation. \<open>New_Flow_Limit\<close>, \<open>Conntrack\<close>, \<open>Udp_Conntrack\<close>,
  \<open>Tcp_Conntrack\<close> and \<open>Auxiliary\<close> are \<open>new_flow_limit.rs\<close>, \<open>contrack.rs\<close>, \<open>contrack/udp.rs\<close>,
  \<open>contrack/tcp.rs\<close> with \<open>tcp_binding.rs\<close>, and \<open>auxiliary.rs\<close>; \<open>Transport\<close> is the packet parser
  (\<open>transport.rs\<close>) over packet bytes; \<open>Route\<close> the policy call (\<open>route.rs\<close>) and the fragment verdicts
  (\<open>fragment.rs\<close>); \<open>Sk_Lookup\<close> socket lookup and assignment (\<open>sk_lookup.rs\<close>, \<open>sk.rs\<close>); \<open>Lan_Ingress\<close>,
  \<open>Dae0\<close> and \<open>Egress\<close> the classifiers of \<open>ingress.rs\<close> and \<open>egress.rs\<close>, each with all its stages. Handlers pass their state explicitly; a verdict is a sum type, \<open>Inl\<close> an early exit.

  \<^bold>\<open>Control plane.\<close> \<open>Retirement_Plan\<close>: transitions of staged UDP decisions, retirement and commit
  plans (\<open>ebpf/mod.rs\<close>, \<open>ebpf/retirement.rs\<close>). \<open>Backend\<close>: the map backend (\<open>ebpf/real\<close>) with fences,
  grace barrier, fenced batches, retirement, commits, quiescence, token generations and the scans
  of a map, batched (\<open>ebpf/map_snapshot.rs\<close>, \<open>ebpf/probe.rs\<close>) or key by key. A backend
  call is one access to one map; the parameter \<open>kernel\<close> lets any number of classifier runs happen
  before each call, and lets each call fail.

  \<^bold>\<open>Policy compiler.\<close> \<open>Routing_Plan\<close>: the plan (\<open>control/routing_matcher.rs\<close>), folding, evaluation
  order and trace layout. \<open>Codegen\<close>: the code generator (\<open>routing_matcher/codegen.rs\<close>), the assembler
  and every emitter. \<open>Bpf\<close>: the instructions it emits and a machine that runs them; a pointer is a
  region and an offset, every access is checked, and what the checks refuse is a fault. \<open>Plan_Spec\<close>:
  what a plan means, the first rule whose conditions all hold in source order. \<open>Lpm\<close>: the
  longest-prefix trie of the user-space router (\<open>routing/lpm.rs\<close>).

  \<^bold>\<open>Proofs.\<close> \<open>Frame\<close> states in the locale \<open>datapath_frame\<close> which writes the classifiers perform and
  under which condition; every operation is shown to be built from these writes, so a property that
  satisfies the laws holds after every packet. \<open>Invariants\<close> has the step relation \<open>packet_step\<close>, one
  rule for each attached program, and interprets the locale for the ownership properties.
  \<open>Retirement\<close> carries them through the backend with the locales \<open>mediated\<close> and \<open>shared_maps\<close>.
  \<open>Ownership\<close> and \<open>Tokens\<close> hold the resulting properties of runs of the whole system: incarnations
  are unique, a settled retirement is final, a fence freezes its flow, retirement and commit refine
  one atomic step, retirement completes if no call fails, and what remains after a failure.
  \<open>Map_Scan\<close> shows with the locale \<open>collecting\<close> that both kinds of scan find the same entries.
  \<open>Codegen_Logic\<close> gives an emitter a meaning, labelled code, and shows that the assembled bytecode
  runs like it; \<open>Codegen_Run\<close>, \<open>Codegen_Facts\<close>, \<open>Codegen_Correct\<close> and \<open>Codegen_Program\<close> prove the code of
  every construct correct, up to whole programs. \<open>Compiled_Route\<close> states the contract of a policy slot
  as the locale \<open>policy_functions\<close>, interprets it on the generated bytecode, and concludes that
  \<open>route\<close> returns the decision of the plan. \<open>Samples\<close> is a concrete datapath for the instances.

  \<^bold>\<open>Bounds.\<close> A generated function runs with one step for each of its instructions; that this is
  enough is part of its correctness. The parser's extension-header walks have the bounds of the
  code. The process-name loop is a partial function, shown to return. Backend loops recurse over
  their batches.

  \<^bold>\<open>Not modelled.\<close> A classifier run is atomic with respect to backend calls: the interleavings are of
  runs and calls, not of single instructions, so \<open>grace_barrier\<close>, which waits for running
  classifiers, has nothing to wait for here. Single commits of the system are for UDP tuples, as
  their callers make them. Loading and attaching programs, cgroup hooks, receive
  tracing and logging are left out because they only move data through kernel interfaces; the
  configuration language, geo databases, DNS, proxies, relays, groups, subscriptions, NFQUEUE
  sockets, APIs and tools are user-space I/O or string processing around libraries that are not part
  of the sources. A scan starts at the default cursor, and the kernel lists finitely many keys;
  the cursors that resume a scan are left out. Named constants carry the names of the source.
\<close>

end
